(* ===== verification/Py_Prelude.thy ===== *)
theory Py_Prelude
  imports Main "HOL-Library.AList" "HOL-Library.Word"
begin

text \<open>
  What every component of the model shares: Python text and bytes, dictionaries,
  exceptions as values, and the string methods the sources call.

  \<^item> A Python \<open>str\<close> is the list of its code points (\<open>ustr\<close>); \<open>U ''abc''\<close> is the
    text of an ASCII literal of the source.
  \<^item> A Python \<open>bytes\<close> object is a list of 8-bit words.
  \<^item> A Python \<open>dict\<close> is an association list in insertion order with distinct keys
    (\<open>dict_ok\<close>): \<open>map_of d k\<close> is \<open>d.get(k)\<close>, \<open>AList.update k v d\<close> is \<open>d[k] = v\<close>
    (a present key keeps its place), \<open>AList.delete k d\<close> removes a key.
  \<^item> A computation that may raise is a value of a sum type, \<open>Inl\<close> for the exception.
\<close>

named_theorems dict_simps \<open>lookup and well-formedness of dictionaries\<close>
named_theorems codec_simps \<open>decoding after encoding\<close>

type_synonym ustr = "nat list"
type_synonym bytes = "8 word list"
type_synonym ('k, 'v) dict = "('k \<times> 'v) list"

section \<open>Text\<close>

definition U :: "string \<Rightarrow> ustr" where
  "U s = map of_char s"

lemma U_inject [simp]: "U s = U t \<longleftrightarrow> s = t"
proof -
  have "inj (of_char :: char \<Rightarrow> nat)" by (simp add: inj_def)
  then show ?thesis by (simp add: U_def inj_map_eq_map)
qed

lemma U_append: "U (s @ t) = U s @ U t"
  by (simp add: U_def)

lemma length_U [simp]: "length (U s) = length s"
  by (simp add: U_def)

lemma U_Nil [simp]: "U [] = []"
  by (simp add: U_def)

lemma U_eq_Nil [simp]: "U s = [] \<longleftrightarrow> s = []"
  by (simp add: U_def)

text \<open>\<open>s.startswith(p)\<close> and \<open>s.count(c)\<close> for a single character.\<close>

fun startswith :: "ustr \<Rightarrow> ustr \<Rightarrow> bool" where
  "startswith s [] = True"
| "startswith [] (p # ps) = False"
| "startswith (c # s) (p # ps) = (c = p \<and> startswith s ps)"

lemma startswith_iff: "startswith s p \<longleftrightarrow> (\<exists>t. s = p @ t)"
  by (induction s p rule: startswith.induct) auto

text \<open>\<open>s.split(c, 2)\<close> and friends: the text before and after the first separator.\<close>

fun split_first :: "nat \<Rightarrow> ustr \<Rightarrow> (ustr \<times> ustr) option" where
  "split_first c [] = None"
| "split_first c (x # s) =
     (if x = c then Some ([], s)
      else map_option (\<lambda>(a, b). (x # a, b)) (split_first c s))"

lemma split_first_append [simp]:
  "c \<notin> set s \<Longrightarrow> split_first c (s @ c # t) = Some (s, t)"
  by (induction s) auto

lemma split_first_none: "split_first c s = None \<longleftrightarrow> c \<notin> set s"
  by (induction s) auto

text \<open>The white space of \<open>str.strip\<close>: code points for which \<open>str.isspace\<close> holds.\<close>

definition is_space :: "nat \<Rightarrow> bool" where
  "is_space c \<longleftrightarrow> (9 \<le> c \<and> c \<le> 13) \<or> (28 \<le> c \<and> c \<le> 32) \<or> c = 0x85 \<or> c = 0xA0 \<or> c = 0x1680
     \<or> (0x2000 \<le> c \<and> c \<le> 0x200A) \<or> c = 0x2028 \<or> c = 0x2029 \<or> c = 0x202F \<or> c = 0x205F
     \<or> c = 0x3000"

definition strip :: "ustr \<Rightarrow> ustr" where
  "strip s = rev (dropWhile is_space (rev (dropWhile is_space s)))"

lemma strip_empty_iff: "strip s = [] \<longleftrightarrow> (\<forall>c \<in> set s. is_space c)"
proof
  assume "strip s = []"
  then have all: "\<forall>c \<in> set (dropWhile is_space s). is_space c"
    by (simp add: strip_def dropWhile_eq_Nil_conv)
  have "dropWhile is_space s = []"
  proof (rule ccontr)
    assume ne: "dropWhile is_space s \<noteq> []"
    then have "\<not> is_space (hd (dropWhile is_space s))" by (rule hd_dropWhile)
    with all ne show False by simp
  qed
  then show "\<forall>c \<in> set s. is_space c" by (simp add: dropWhile_eq_Nil_conv)
next
  assume "\<forall>c \<in> set s. is_space c"
  then show "strip s = []" by (simp add: strip_def dropWhile_eq_Nil_conv[THEN iffD2])
qed

section \<open>Exceptions as values\<close>

definition rbind :: "'e + 'a \<Rightarrow> ('a \<Rightarrow> 'e + 'b) \<Rightarrow> 'e + 'b" where
  "rbind m f = (case m of Inl e \<Rightarrow> Inl e | Inr x \<Rightarrow> f x)"

lemma rbind_simps [simp]:
  "rbind (Inl e) f = Inl e"
  "rbind (Inr x) f = f x"
  by (simp_all add: rbind_def)

lemma rbind_eq_Inr: "rbind m f = Inr y \<longleftrightarrow> (\<exists>x. m = Inr x \<and> f x = Inr y)"
  by (cases m) auto

lemma rbind_eq_Inl: "rbind m f = Inl e \<longleftrightarrow> m = Inl e \<or> (\<exists>x. m = Inr x \<and> f x = Inl e)"
  by (cases m) auto

lemma rbind_cong [fundef_cong]:
  "m = m' \<Longrightarrow> (\<And>x. m' = Inr x \<Longrightarrow> f x = g x) \<Longrightarrow> rbind m f = rbind m' g"
  by (cases m') auto

section \<open>Dictionaries\<close>

definition dict_ok :: "('k, 'v) dict \<Rightarrow> bool" where
  "dict_ok d \<longleftrightarrow> distinct (map fst d)"

lemma dict_ok_empty [simp, dict_simps]: "dict_ok []"
  by (simp add: dict_ok_def)

lemma dict_ok_update [intro, dict_simps]: "dict_ok d \<Longrightarrow> dict_ok (AList.update k v d)"
  by (simp add: dict_ok_def distinct_update)

lemma dict_ok_delete [intro, dict_simps]: "dict_ok d \<Longrightarrow> dict_ok (AList.delete k d)"
  by (simp add: dict_ok_def distinct_delete)

lemma dict_ok_filter [intro, dict_simps]: "dict_ok d \<Longrightarrow> dict_ok (filter P d)"
  by (simp add: dict_ok_def distinct_map_filter)

lemma map_of_filter_dict [dict_simps]:
  "dict_ok d \<Longrightarrow> map_of (filter P d) k = (case map_of d k of None \<Rightarrow> None | Some v \<Rightarrow>
     if P (k, v) then Some v else None)"
  by (induction d) (auto simp: dict_ok_def map_of_eq_None_iff split: option.splits)

lemmas map_of_update [dict_simps] = update_conv
lemmas map_of_delete [dict_simps] = delete_conv

end
