(* ===== verification/Cache_Store.thy ===== *)
theory Cache_Store
  imports Complex_Main Py_Prelude
begin

text \<open>
  The interface of the test client's two caches, AUTHORIZATION_CACHE and TOKEN_CACHE of
  test-client/app.py: what the handlers rely on when they store, look up, pop and prune
  entries. The lemmas of the locale are the ones the handlers' proofs use; the dictionaries of
  the model, with the loop of \<open>prune_caches\<close>, provide it.
\<close>

section \<open>The interface\<close>

locale cache_store =
  fixes valid :: "'s \<Rightarrow> bool"
    and lookup :: "'s \<Rightarrow> 'k \<Rightarrow> 'v option"
    and put :: "'k \<Rightarrow> 'v \<Rightarrow> 's \<Rightarrow> 's"
    and drop_key :: "'k \<Rightarrow> 's \<Rightarrow> 's"
    and evict :: "('v \<Rightarrow> bool) \<Rightarrow> 's \<Rightarrow> 's"
  assumes valid_put: "valid s \<Longrightarrow> valid (put k v s)"
    and valid_drop: "valid s \<Longrightarrow> valid (drop_key k s)"
    and valid_evict: "valid s \<Longrightarrow> valid (evict P s)"
    and lookup_put: "lookup (put k v s) k' = (if k' = k then Some v else lookup s k')"
    and lookup_drop: "lookup (drop_key k s) k' = (if k' = k then None else lookup s k')"
    and lookup_evict: "valid s \<Longrightarrow> lookup (evict P s) k =
          (case lookup s k of None \<Rightarrow> None | Some v \<Rightarrow> if P v then None else Some v)"
begin

text \<open>Storing after pruning: the new entry is there whatever its age, others only if fresh.\<close>

lemma lookup_put_evict:
  "valid s \<Longrightarrow> lookup (put k v (evict P s)) k' =
     (if k' = k then Some v else
        case lookup s k' of None \<Rightarrow> None | Some w \<Rightarrow> if P w then None else Some w)"
  by (simp add: lookup_put lookup_evict)

lemma evict_subset: "valid s \<Longrightarrow> lookup (evict P s) k = Some v \<longleftrightarrow> lookup s k = Some v \<and> \<not> P v"
  by (auto simp: lookup_evict split: option.splits)

text \<open>An entry taken out is gone for the next taker, and no other entry is touched.\<close>

lemma drop_twice: "lookup (drop_key k (drop_key k s)) k' = lookup (drop_key k s) k'"
  by (simp add: lookup_drop)

lemma put_drop_frame: "k' \<noteq> k \<Longrightarrow> lookup (drop_key k (put k v s)) k' = lookup s k'"
  by (simp add: lookup_drop lookup_put)

text \<open>An invariant of all entries is kept by every operation that stores only such entries.\<close>

definition all_entries :: "('k \<Rightarrow> 'v \<Rightarrow> bool) \<Rightarrow> 's \<Rightarrow> bool" where
  "all_entries Q s \<longleftrightarrow> (\<forall>k v. lookup s k = Some v \<longrightarrow> Q k v)"

lemma all_put: "all_entries Q s \<Longrightarrow> Q k v \<Longrightarrow> all_entries Q (put k v s)"
  by (simp add: all_entries_def lookup_put)

lemma all_drop: "all_entries Q s \<Longrightarrow> all_entries Q (drop_key k s)"
  by (simp add: all_entries_def lookup_drop)

lemma all_evict: "valid s \<Longrightarrow> all_entries Q s \<Longrightarrow> all_entries Q (evict P s)"
  by (simp add: all_entries_def evict_subset)

end

section \<open>Dictionaries provide it\<close>

text \<open>
  The loop of \<open>prune_caches\<close> for one cache: the keys of the expired entries are collected
  first, then each is popped.
\<close>

definition expired_keys :: "('v \<Rightarrow> bool) \<Rightarrow> ('k, 'v) dict \<Rightarrow> 'k list" where
  "expired_keys P cache = map fst (filter (\<lambda>(key, entry). P entry) cache)"

definition pop_all :: "'k list \<Rightarrow> ('k, 'v) dict \<Rightarrow> ('k, 'v) dict" where
  "pop_all keys cache = fold AList.delete keys cache"

definition evict_dict :: "('v \<Rightarrow> bool) \<Rightarrow> ('k, 'v) dict \<Rightarrow> ('k, 'v) dict" where
  "evict_dict P cache = pop_all (expired_keys P cache) cache"

lemma map_of_pop_all: "map_of (pop_all ks d) k = (if k \<in> set ks then None else map_of d k)"
  by (induction ks arbitrary: d) (simp_all add: pop_all_def map_of_delete)

lemma dict_ok_pop_all: "dict_ok d \<Longrightarrow> dict_ok (pop_all ks d)"
  by (induction ks arbitrary: d) (simp_all add: pop_all_def dict_ok_delete)

lemma expired_keys_iff:
  "dict_ok d \<Longrightarrow> k \<in> set (expired_keys P d) \<longleftrightarrow> (\<exists>v. map_of d k = Some v \<and> P v)"
  by (force simp: expired_keys_def dict_ok_def map_of_eq_Some_iff)

interpretation dict: cache_store dict_ok map_of AList.update AList.delete evict_dict
proof unfold_locales
  fix s :: "('k, 'v) dict" and P k
  assume "dict_ok s"
  then show "map_of (evict_dict P s) k =
      (case map_of s k of None \<Rightarrow> None | Some v \<Rightarrow> if P v then None else Some v)"
    by (auto simp: evict_dict_def map_of_pop_all expired_keys_iff split: option.splits)
qed (auto simp: evict_dict_def dict_ok_pop_all map_of_update map_of_delete)

text \<open>Pruning never adds an entry and keeps the order of the others.\<close>

lemma delete_is_filter: "AList.delete k d = filter (\<lambda>(k', _). k' \<noteq> k) d"
  by (auto simp: AList.delete_eq intro!: filter_cong)

lemma pop_all_filter: "pop_all ks d = filter (\<lambda>(k, _). k \<notin> set ks) d"
  by (induction ks arbitrary: d) (auto simp: pop_all_def delete_is_filter intro!: filter_cong)

lemma evict_dict_filter:
  assumes "dict_ok d"
  shows "evict_dict P d = filter (\<lambda>(k, v). \<not> P v) d"
proof -
  have "k \<in> set (expired_keys P d) \<longleftrightarrow> P v" if "(k, v) \<in> set d" for k v
    using that assms by (auto simp: expired_keys_iff dict_ok_def)
  then show ?thesis unfolding evict_dict_def pop_all_filter by (intro filter_cong) auto
qed

end
