(* ===== verification/Py_Codec.thy ===== *)
theory Py_Codec
  imports Py_Prelude
begin

text \<open>
  The codecs of the standard library that the sources use: UTF-8 (\<open>str.encode\<close>,
  \<open>bytes.decode\<close>, strict mode), URL-safe Base64 (\<open>base64.urlsafe_b64decode\<close>, whose
  decoder skips characters outside the alphabet and stops at a complete padding), and the
  encoder of RFC 4648 as the reference the decoder is proved against. A \<open>codec\<close> locale
  states the contract a consumer relies on.
\<close>

section \<open>The contract of a codec\<close>

locale codec =
  fixes encode :: "'a \<Rightarrow> 'b"
    and decode :: "'b \<Rightarrow> 'a option"
    and valid :: "'a \<Rightarrow> bool"
  assumes decode_encode: "valid x \<Longrightarrow> decode (encode x) = Some x"
begin

lemma encode_inj: "valid x \<Longrightarrow> valid y \<Longrightarrow> encode x = encode y \<Longrightarrow> x = y"
  by (metis decode_encode option.inject)

lemma decode_encode_bind: "valid x \<Longrightarrow> Option.bind (decode (encode x)) f = f x"
  by (simp add: decode_encode)

end

section \<open>UTF-8\<close>

definition byte :: "nat \<Rightarrow> 8 word" where
  "byte n = word_of_nat n"

lemma unat_byte [simp]: "n < 256 \<Longrightarrow> unat (byte n) = n"
  by (simp add: byte_def unat_of_nat take_bit_nat_eq_self)

definition is_surrogate :: "nat \<Rightarrow> bool" where
  "is_surrogate c \<longleftrightarrow> 0xD800 \<le> c \<and> c \<le> 0xDFFF"

text \<open>One code point; a surrogate (or a value beyond Unicode) raises \<open>UnicodeEncodeError\<close>.\<close>

definition utf8_char :: "nat \<Rightarrow> bytes option" where
  "utf8_char c =
     (if c < 0x80 then Some [byte c]
      else if c < 0x800 then Some [byte (0xC0 + c div 64), byte (0x80 + c mod 64)]
      else if is_surrogate c then None
      else if c < 0x10000 then
        Some [byte (0xE0 + c div 4096), byte (0x80 + c div 64 mod 64), byte (0x80 + c mod 64)]
      else if c < 0x110000 then
        Some [byte (0xF0 + c div 262144), byte (0x80 + c div 4096 mod 64),
              byte (0x80 + c div 64 mod 64), byte (0x80 + c mod 64)]
      else None)"

fun utf8_encode :: "ustr \<Rightarrow> bytes option" where
  "utf8_encode [] = Some []"
| "utf8_encode (c # s) =
     (case utf8_char c of None \<Rightarrow> None
      | Some bs \<Rightarrow> (case utf8_encode s of None \<Rightarrow> None | Some r \<Rightarrow> Some (bs @ r)))"

text \<open>A continuation byte carries six bits.\<close>

definition is_cont :: "8 word \<Rightarrow> bool" where
  "is_cont b \<longleftrightarrow> 0x80 \<le> unat b \<and> unat b < 0xC0"

fun utf8_decode :: "bytes \<Rightarrow> ustr option" where
  "utf8_decode [] = Some []"
| "utf8_decode (a # r) =
     (if unat a < 0x80 then map_option (Cons (unat a)) (utf8_decode r)
      else if 0xC2 \<le> unat a \<and> unat a < 0xE0 then
        (case r of
           b # r' \<Rightarrow> if is_cont b
             then map_option (Cons ((unat a - 0xC0) * 64 + (unat b - 0x80))) (utf8_decode r')
             else None
         | [] \<Rightarrow> None)
      else if 0xE0 \<le> unat a \<and> unat a < 0xF0 then
        (case r of
           b # c # r' \<Rightarrow>
             (let n = (unat a - 0xE0) * 4096 + (unat b - 0x80) * 64 + (unat c - 0x80) in
              if is_cont b \<and> is_cont c \<and> 0x800 \<le> n \<and> \<not> is_surrogate n
              then map_option (Cons n) (utf8_decode r') else None)
         | _ \<Rightarrow> None)
      else if 0xF0 \<le> unat a \<and> unat a < 0xF5 then
        (case r of
           b # c # d # r' \<Rightarrow>
             (let n = (unat a - 0xF0) * 262144 + (unat b - 0x80) * 4096
                      + (unat c - 0x80) * 64 + (unat d - 0x80) in
              if is_cont b \<and> is_cont c \<and> is_cont d \<and> 0x10000 \<le> n \<and> n < 0x110000
              then map_option (Cons n) (utf8_decode r') else None)
         | _ \<Rightarrow> None)
      else None)"

lemma utf8_decode_char:
  "utf8_char c = Some bs \<Longrightarrow> utf8_decode (bs @ r) = map_option (Cons c) (utf8_decode r)"
proof -
  assume enc: "utf8_char c = Some bs"
  have d64: "c div 64 * 64 + c mod 64 = c" by simp
  have d4096: "c div 4096 * 4096 + c div 64 mod 64 * 64 + c mod 64 = c"
  proof -
    have "c div 4096 * 64 + c div 64 mod 64 = c div 64"
      using div_mult_mod_eq [of "c div 64" 64] by (simp add: div_mult2_eq [symmetric])
    with d64 show ?thesis by linarith
  qed
  have d262144: "c div 262144 * 262144 + c div 4096 mod 64 * 4096 + c div 64 mod 64 * 64 + c mod 64 = c"
  proof -
    have "c div 262144 * 64 + c div 4096 mod 64 = c div 4096"
      using div_mult_mod_eq [of "c div 4096" 64] by (simp add: div_mult2_eq [symmetric])
    with d4096 show ?thesis by linarith
  qed
  consider "c < 0x80" | "0x80 \<le> c" "c < 0x800" | "0x800 \<le> c" "c < 0x10000" "\<not> is_surrogate c"
    | "0x10000 \<le> c" "c < 0x110000"
    using enc by (fastforce simp: utf8_char_def split: if_splits)
  then show ?thesis
  proof cases
    case 1
    with enc show ?thesis by (auto simp: utf8_char_def)
  next
    case 2
    then have hi: "2 \<le> c div 64" "c div 64 < 32" by auto
    from 2 enc have bs: "bs = [byte (0xC0 + c div 64), byte (0x80 + c mod 64)]"
      by (simp add: utf8_char_def)
    from hi d64 show ?thesis by (simp add: bs is_cont_def)
  next
    case 3
    then have hi: "c div 4096 < 16" by auto
    from 3 enc have bs: "bs = [byte (0xE0 + c div 4096), byte (0x80 + c div 64 mod 64), byte (0x80 + c mod 64)]"
      by (simp add: utf8_char_def)
    from hi d4096 3 show ?thesis by (simp add: bs is_cont_def Let_def)
  next
    case 4
    then have hi: "c div 262144 < 5" and ns: "\<not> is_surrogate c" by (auto simp: is_surrogate_def)
    from 4 enc ns have bs: "bs = [byte (0xF0 + c div 262144), byte (0x80 + c div 4096 mod 64),
        byte (0x80 + c div 64 mod 64), byte (0x80 + c mod 64)]"
      by (simp add: utf8_char_def)
    from hi d262144 4 show ?thesis by (simp add: bs is_cont_def Let_def)
  qed
qed

lemma utf8_decode_encode [codec_simps]: "utf8_encode s = Some bs \<Longrightarrow> utf8_decode bs = Some s"
  by (induction s arbitrary: bs) (auto simp: utf8_decode_char split: option.splits)

definition utf8_ok :: "ustr \<Rightarrow> bool" where
  "utf8_ok s \<longleftrightarrow> (\<forall>c \<in> set s. c < 0x110000 \<and> \<not> is_surrogate c)"

lemma utf8_char_None: "utf8_char c = None \<longleftrightarrow> is_surrogate c \<or> \<not> c < 0x110000"
  by (auto simp: utf8_char_def is_surrogate_def)

lemma utf8_encode_Some_iff: "(\<exists>bs. utf8_encode s = Some bs) \<longleftrightarrow> utf8_ok s"
proof (induction s)
  case Nil
  show ?case by (simp add: utf8_ok_def)
next
  case (Cons c s)
  then show ?case
    using utf8_char_None [of c] by (auto simp: utf8_ok_def split: option.splits)
qed

lemma utf8_encode_ok: "utf8_encode s = Some bs \<Longrightarrow> utf8_ok s"
  using utf8_encode_Some_iff by blast

lemma utf8_encode_length: "utf8_encode s = Some bs \<Longrightarrow> length bs \<le> 4 * length s"
proof (induction s arbitrary: bs)
  case (Cons c s)
  then obtain b r where e: "utf8_char c = Some b" "utf8_encode s = Some r" "bs = b @ r"
    by (auto split: option.splits)
  moreover have "length b \<le> 4" using e(1) by (auto simp: utf8_char_def split: if_splits)
  ultimately show ?case using Cons.IH [of r] by simp
qed simp

interpretation utf8: codec "\<lambda>s. the (utf8_encode s)" utf8_decode utf8_ok
proof unfold_locales
  fix s assume "utf8_ok s"
  then obtain bs where "utf8_encode s = Some bs" using utf8_encode_Some_iff by blast
  then show "utf8_decode (the (utf8_encode s)) = Some s" by (simp add: utf8_decode_encode)
qed

section \<open>URL-safe Base64\<close>

text \<open>
  \<open>base64.urlsafe_b64decode\<close> maps \<open>-\<close> and \<open>_\<close> to \<open>+\<close> and \<open>/\<close> and calls
  \<open>binascii.a2b_base64\<close> in its lenient mode: \<open>+\<close>, \<open>/\<close>, \<open>-\<close> and \<open>_\<close> all
  have a value, other characters outside the alphabet are skipped, and a \<open>=\<close> that
  completes a group of four ends the input. A character that is not ASCII raises
  \<open>ValueError\<close> before decoding, a wrong number of characters raises \<open>binascii.Error\<close>
  (a \<open>ValueError\<close>): both are \<open>None\<close>.
\<close>

definition b64_value :: "nat \<Rightarrow> nat option" where
  "b64_value c =
     (if 65 \<le> c \<and> c \<le> 90 then Some (c - 65)
      else if 97 \<le> c \<and> c \<le> 122 then Some (c - 71)
      else if 48 \<le> c \<and> c \<le> 57 then Some (c + 4)
      else if c = 45 \<or> c = 43 then Some 62
      else if c = 95 \<or> c = 47 then Some 63
      else None)"

text \<open>
  The decoder's loop: \<open>q\<close> counts the characters of the current group, \<open>left\<close> holds
  their bits not yet written, \<open>pads\<close> the padding characters since the last data character.
\<close>

fun a2b_base64 :: "nat \<Rightarrow> nat \<Rightarrow> nat \<Rightarrow> ustr \<Rightarrow> bytes option" where
  "a2b_base64 q left pads [] = (if q = 0 then Some [] else None)"
| "a2b_base64 q left pads (c # s) =
     (if c = 61 then
        (if 2 \<le> q \<and> 4 \<le> q + (pads + 1) then Some []
         else a2b_base64 q left (if 2 \<le> q then pads + 1 else pads) s)
      else (case b64_value c of
          None \<Rightarrow> a2b_base64 q left pads s
        | Some v \<Rightarrow>
            (if q = 0 then a2b_base64 1 v 0 s
             else if q = 1 then
               map_option (Cons (byte (left * 4 + v div 16))) (a2b_base64 2 (v mod 16) 0 s)
             else if q = 2 then
               map_option (Cons (byte (left * 16 + v div 4))) (a2b_base64 3 (v mod 4) 0 s)
             else map_option (Cons (byte (left * 64 + v))) (a2b_base64 0 0 0 s))))"

definition urlsafe_b64decode :: "ustr \<Rightarrow> bytes option" where
  "urlsafe_b64decode s = (if \<forall>c \<in> set s. c < 128 then a2b_base64 0 0 0 s else None)"

text \<open>The padding the sources append: \<open>"=" * (-len(payload) % 4)\<close>.\<close>

definition b64_padding :: "ustr \<Rightarrow> ustr" where
  "b64_padding s = replicate (nat ((- int (length s)) mod 4)) 61"

text \<open>The encoder of RFC 4648, section 5, without padding: what a compact JWT carries.\<close>

definition b64_char :: "nat \<Rightarrow> nat" where
  "b64_char v =
     (if v < 26 then v + 65 else if v < 52 then v + 71 else if v < 62 then v - 4
      else if v = 62 then 45 else 95)"

fun b64url :: "bytes \<Rightarrow> ustr" where
  "b64url [] = []"
| "b64url [a] = [b64_char (unat a div 4), b64_char (unat a mod 4 * 16)]"
| "b64url [a, b] = [b64_char (unat a div 4), b64_char (unat a mod 4 * 16 + unat b div 16),
     b64_char (unat b mod 16 * 4)]"
| "b64url (a # b # c # r) =
     b64_char (unat a div 4) # b64_char (unat a mod 4 * 16 + unat b div 16)
     # b64_char (unat b mod 16 * 4 + unat c div 64) # b64_char (unat c mod 64) # b64url r"

lemma b64_value_char [simp]: "v < 64 \<Longrightarrow> b64_value (b64_char v) = Some v"
  by (auto simp: b64_value_def b64_char_def)

lemma b64_char_not_pad [simp]: "b64_char v = 61 \<longleftrightarrow> False"
  by (auto simp: b64_char_def)

lemma b64_char_ascii: "b64_char v < 128"
  by (auto simp: b64_char_def)

lemma b64_char_not_dot: "b64_char v \<noteq> 46"
  by (auto simp: b64_char_def)

lemma unat8_less [simp]: "unat (a :: 8 word) < 256"
  using unsigned_less [of a] by simp

lemma unat8_digits [simp]:
  fixes a :: "8 word"
  shows "unat a div 4 < 64" "unat a div 16 < 16" "unat a div 64 < 4"
    "unat a div 16 div 16 = 0" "unat a div 64 div 4 = 0"
    "unat a div 16 mod 16 = unat a div 16" "unat a div 64 mod 4 = unat a div 64"
proof -
  show "unat a div 4 < 64" "unat a div 16 < 16" "unat a div 64 < 4"
    using unat8_less [of a] by (simp_all add: less_mult_imp_div_less)
  then show "unat a div 16 div 16 = 0" "unat a div 64 div 4 = 0"
    "unat a div 16 mod 16 = unat a div 16" "unat a div 64 mod 4 = unat a div 64"
    by simp_all
qed

lemma byte_unat [simp]: "byte (unat a) = a"
  by (simp add: byte_def)

lemma b64_group_bounds:
  fixes a b c :: "8 word"
  shows "unat a div 4 < 64" "unat a mod 4 * 16 < 64" "unat a mod 4 * 16 + unat b div 16 < 64"
    "unat b mod 16 * 4 < 64" "unat b mod 16 * 4 + unat c div 64 < 64" "unat c mod 64 < 64"
proof -
  have a4: "unat a mod 4 < 4" and b4: "unat b mod 16 < 16" by simp_all
  show "unat a div 4 < 64" "unat c mod 64 < 64" by simp_all
  show "unat a mod 4 * 16 < 64" using a4 by linarith
  show "unat a mod 4 * 16 + unat b div 16 < 64" using a4 unat8_digits(2) [of b] by linarith
  show "unat b mod 16 * 4 < 64" using b4 by linarith
  show "unat b mod 16 * 4 + unat c div 64 < 64" using b4 unat8_digits(3) [of c] by linarith
qed

lemma b64url_ascii: "c \<in> set (b64url bs) \<Longrightarrow> c < 128 \<and> c \<noteq> 46 \<and> c \<noteq> 61"
  by (induction bs rule: b64url.induct) (auto simp: b64_char_ascii b64_char_not_dot)

lemma b64_padding_b64url [simp]:
  "b64_padding (b64url []) = []"
  "b64_padding (b64url [a]) = [61, 61]"
  "b64_padding (b64url [a, b]) = [61]"
  "b64_padding (b64url (a # b # c # r)) = b64_padding (b64url r)"
proof -
  have "(- int (length (b64url (a # b # c # r)))) mod 4 = (- int (length (b64url r))) mod 4"
    by simp presburger
  then show "b64_padding (b64url (a # b # c # r)) = b64_padding (b64url r)"
    by (simp only: b64_padding_def)
qed (simp_all add: b64_padding_def numeral_2_eq_2)

text \<open>Decoding the padded encoding returns the bytes.\<close>

lemma a2b_b64url: "a2b_base64 0 left pads (b64url bs @ b64_padding (b64url bs)) = Some bs"
proof (induction bs arbitrary: left pads rule: b64url.induct)
  case (4 a b c r)
  show ?case unfolding b64_padding_b64url
    using "4.IH" by (simp add: b64_group_bounds del: b64_padding_b64url)
next
  case (2 a)
  show ?case unfolding b64_padding_b64url
    by (simp add: b64_group_bounds)
next
  case (3 a b)
  show ?case unfolding b64_padding_b64url
    by (simp add: b64_group_bounds)
qed (simp add: b64_padding_def)

lemma urlsafe_b64decode_b64url [codec_simps]:
  "urlsafe_b64decode (b64url bs @ b64_padding (b64url bs)) = Some bs"
proof -
  have "\<forall>c \<in> set (b64url bs @ b64_padding (b64url bs)). c < 128"
    using b64url_ascii by (auto simp: b64_padding_def)
  then show ?thesis unfolding urlsafe_b64decode_def a2b_b64url by (rule if_P)
qed

interpretation b64: codec b64url "\<lambda>s. urlsafe_b64decode (s @ b64_padding s)" "\<lambda>_. True"
  by unfold_locales (simp add: urlsafe_b64decode_b64url)

end
