(* ===== verification/Py_Json.thy ===== *)
theory Py_Json
  imports Py_Codec
begin

text \<open>
  The \<open>json\<close> module of the standard library as the sources use it: values, \<open>json.loads\<close>
  on text (the C scanner of Python 3.13 with its error positions and limits) and
  \<open>json.dumps\<close> in the styles the sources ask for.

  The theorem of this theory is the round trip: whatever \<open>loads\<close> accepts, every style of
  \<open>dumps\<close> prints as text that \<open>loads\<close> reads back as the same value.
\<close>

section \<open>Values and interpreter limits\<close>

text \<open>
  A float is kept as the text the encoder prints for it (\<open>float.__repr__\<close>, or \<open>NaN\<close>,
  \<open>Infinity\<close>, \<open>-Infinity\<close>): the sources never compute with a float of a claims object.
\<close>

datatype json = JNull | JBool bool | JInt int | JFloat ustr | JStr ustr
  | JArr "json list" | JObj "(ustr \<times> json) list"

text \<open>
  What depends on the interpreter build: the text of \<open>float(t)\<close>, how many levels of
  arrays and objects the C scanner, the C encoder and the Python encoder (used when an
  indent is given) can nest before \<open>RecursionError\<close>.
\<close>

record py_env =
  float_text :: "ustr \<Rightarrow> ustr"
  scan_depth :: nat
  c_enc_depth :: nat
  py_enc_depth :: nat

datatype json_msg = ExpectingValue | ExpectingProperty | ExpectingColon | ExpectingComma
  | TrailingCommaObject | TrailingCommaArray | UnterminatedString | InvalidControl
  | InvalidEscape | InvalidUEscape | ExtraData | UnexpectedBOM

text \<open>
  \<open>JSONDecodeError m n\<close>: inside the scanner \<open>n\<close> is the number of characters left where the
  error is reported, the result of \<open>loads\<close> has its index. \<open>IntDigits\<close> is the plain
  \<open>ValueError\<close> of \<open>int()\<close> on more than 4300 digits, \<open>RecursionError\<close> the interpreter's.
\<close>

datatype json_exc = JSONDecodeError json_msg nat | IntDigits | RecursionError | OutOfFuel

abbreviation jerr :: "json_msg \<Rightarrow> ustr \<Rightarrow> json_exc + 'a" where
  "jerr m s \<equiv> Inl (JSONDecodeError m (length s))"

definition max_int_digits :: nat where
  "max_int_digits = 4300"

text \<open>Whether a value nests at most \<open>d\<close> levels of arrays and objects.\<close>

fun fits :: "nat \<Rightarrow> json \<Rightarrow> bool" where
  "fits d (JArr vs) = (0 < d \<and> (\<forall>v \<in> set vs. fits (d - 1) v))"
| "fits d (JObj ms) = (0 < d \<and> (\<forall>kv \<in> set ms. fits (d - 1) (snd kv)))"
| "fits d _ = True"

section \<open>Lexical parts of the scanner\<close>

definition is_ws :: "nat \<Rightarrow> bool" where
  "is_ws c \<longleftrightarrow> c = 32 \<or> c = 9 \<or> c = 10 \<or> c = 13"

definition skip_ws :: "ustr \<Rightarrow> ustr" where
  "skip_ws = dropWhile is_ws"

fun head_is :: "nat \<Rightarrow> ustr \<Rightarrow> bool" where
  "head_is c [] = False"
| "head_is c (x # s) = (x = c)"

definition hex_digit :: "nat \<Rightarrow> nat option" where
  "hex_digit c =
     (if 48 \<le> c \<and> c \<le> 57 then Some (c - 48)
      else if 97 \<le> c \<and> c \<le> 102 then Some (c - 87)
      else if 65 \<le> c \<and> c \<le> 70 then Some (c - 55) else None)"

fun hex4 :: "ustr \<Rightarrow> nat option" where
  "hex4 [a, b, c, d] =
     (case (hex_digit a, hex_digit b, hex_digit c, hex_digit d) of
        (Some w, Some x, Some y, Some z) \<Rightarrow> Some (((w * 16 + x) * 16 + y) * 16 + z)
      | _ \<Rightarrow> None)"
| "hex4 _ = None"

definition is_high :: "nat \<Rightarrow> bool" where
  "is_high c \<longleftrightarrow> 0xD800 \<le> c \<and> c \<le> 0xDBFF"

definition is_low :: "nat \<Rightarrow> bool" where
  "is_low c \<longleftrightarrow> 0xDC00 \<le> c \<and> c \<le> 0xDFFF"

definition join_surrogates :: "nat \<Rightarrow> nat \<Rightarrow> nat" where
  "join_surrogates h l = 0x10000 + (h - 0xD800) * 1024 + (l - 0xDC00)"

text \<open>
  The text after \<open>\u\<close>: the code point and how many characters it used. A high surrogate
  takes a low one in the next escape with it.
\<close>

definition u_escape :: "ustr \<Rightarrow> json_exc + (nat \<times> nat)" where
  "u_escape s =
     (if length s \<le> 4 then Inl (JSONDecodeError InvalidUEscape (length s + 1))
      else (case hex4 (take 4 s) of
          None \<Rightarrow> Inl (JSONDecodeError InvalidUEscape (length s + 1))
        | Some x \<Rightarrow>
            (if is_high x \<and> 10 < length s \<and> s ! 4 = 92 \<and> s ! 5 = 117 then
               (case hex4 (take 4 (drop 6 s)) of
                  None \<Rightarrow> Inl (JSONDecodeError InvalidUEscape (length s - 5))
                | Some y \<Rightarrow> if is_low y then Inr (join_surrogates x y, 10) else Inr (x, 4))
             else Inr (x, 4))))"

definition simple_escape :: "nat \<Rightarrow> nat option" where
  "simple_escape c =
     (if c = 34 then Some 34 else if c = 92 then Some 92 else if c = 47 then Some 47
      else if c = 98 then Some 8 else if c = 102 then Some 12 else if c = 110 then Some 10
      else if c = 114 then Some 13 else if c = 116 then Some 9 else None)"

text \<open>
  A string after its opening quote; \<open>b\<close> is the number of characters left at that quote,
  where an unterminated string is reported.
\<close>

function scanstring :: "nat \<Rightarrow> ustr \<Rightarrow> json_exc + (ustr \<times> ustr)" where
  "scanstring b [] = Inl (JSONDecodeError UnterminatedString b)"
| "scanstring b (c # s) =
     (if c = 34 then Inr ([], s)
      else if c = 92 then
        (case s of
           [] \<Rightarrow> Inl (JSONDecodeError UnterminatedString b)
         | e # s' \<Rightarrow>
             (if e = 117 then
                rbind (u_escape s') (\<lambda>(x, n).
                  rbind (scanstring b (drop n s')) (\<lambda>(t, r). Inr (x # t, r)))
              else (case simple_escape e of
                  None \<Rightarrow> jerr InvalidEscape (c # s)
                | Some x \<Rightarrow> rbind (scanstring b s') (\<lambda>(t, r). Inr (x # t, r)))))
      else if c \<le> 31 then jerr InvalidControl (c # s)
      else rbind (scanstring b s) (\<lambda>(t, r). Inr (c # t, r)))"
  by pat_completeness auto
termination
  by (relation "measure (\<lambda>(b, s). length s)") auto

definition is_digit :: "nat \<Rightarrow> bool" where
  "is_digit c \<longleftrightarrow> 48 \<le> c \<and> c \<le> 57"

fun int_part :: "ustr \<Rightarrow> (ustr \<times> ustr) option" where
  "int_part [] = None"
| "int_part (c # s) =
     (if c = 48 then Some ([48], s)
      else if is_digit c then Some (c # takeWhile is_digit s, dropWhile is_digit s)
      else None)"

fun frac_part :: "ustr \<Rightarrow> ustr \<times> ustr" where
  "frac_part (c # d # s) =
     (if c = 46 \<and> is_digit d then (c # d # takeWhile is_digit s, dropWhile is_digit s)
      else ([], c # d # s))"
| "frac_part s = ([], s)"

fun exp_part :: "ustr \<Rightarrow> ustr \<times> ustr" where
  "exp_part [] = ([], [])"
| "exp_part (c # s) =
     (if c = 101 \<or> c = 69 then
        (let (sg, t) = (if head_is 43 s \<or> head_is 45 s then (take 1 s, drop 1 s) else ([], s)) in
         if takeWhile is_digit t = [] then ([], c # s)
         else (c # sg @ takeWhile is_digit t, dropWhile is_digit t))
      else ([], c # s))"

definition dec_value :: "ustr \<Rightarrow> nat" where
  "dec_value ds = foldl (\<lambda>a d. a * 10 + (d - 48)) 0 ds"

definition match_number :: "py_env \<Rightarrow> ustr \<Rightarrow> json_exc + (json \<times> ustr)" where
  "match_number env s =
     (let neg = head_is 45 s; t = (if neg then tl s else s) in
      case int_part t of
        None \<Rightarrow> jerr ExpectingValue s
      | Some (ip, r1) \<Rightarrow>
          (let (fp, r2) = frac_part r1; (ep, r3) = exp_part r2 in
           if fp = [] \<and> ep = [] then
             (if max_int_digits < length ip then Inl IntDigits
              else Inr (JInt (if neg then - int (dec_value ip) else int (dec_value ip)), r3))
           else Inr (JFloat (float_text env ((if neg then [45] else []) @ ip @ fp @ ep)), r3)))"

section \<open>The scanner\<close>

text \<open>
  \<open>scan\<close> is \<open>scan_once\<close>, \<open>elems\<close> and \<open>members\<close> are the loops of \<open>_parse_array\<close> and
  \<open>_parse_object\<close>. The first argument is fuel for the recursion; \<open>scan_fuel\<close> below
  shows that \<open>loads\<close> gives enough. \<open>d\<close> is how many levels may still be opened.
\<close>

fun scan :: "nat \<Rightarrow> py_env \<Rightarrow> nat \<Rightarrow> ustr \<Rightarrow> json_exc + (json \<times> ustr)"
  and elems :: "nat \<Rightarrow> py_env \<Rightarrow> nat \<Rightarrow> ustr \<Rightarrow> json_exc + (json list \<times> ustr)"
  and members :: "nat \<Rightarrow> py_env \<Rightarrow> nat \<Rightarrow> (ustr \<times> json) list \<Rightarrow> ustr \<Rightarrow> json_exc + (json \<times> ustr)"
where
  "scan 0 env d s = Inl OutOfFuel"
| "scan (Suc n) env d s =
     (if s = [] then jerr ExpectingValue s
      else if head_is 34 s then
        rbind (scanstring (length s) (tl s)) (\<lambda>(t, r). Inr (JStr t, r))
      else if head_is 123 s then
        (if d = 0 then Inl RecursionError
         else if head_is 125 (skip_ws (tl s)) then Inr (JObj [], tl (skip_ws (tl s)))
         else members n env (d - 1) [] (skip_ws (tl s)))
      else if head_is 91 s then
        (if d = 0 then Inl RecursionError
         else if head_is 93 (skip_ws (tl s)) then Inr (JArr [], tl (skip_ws (tl s)))
         else rbind (elems n env (d - 1) (skip_ws (tl s))) (\<lambda>(vs, r). Inr (JArr vs, r)))
      else if startswith s (U ''null'') then Inr (JNull, drop 4 s)
      else if startswith s (U ''true'') then Inr (JBool True, drop 4 s)
      else if startswith s (U ''false'') then Inr (JBool False, drop 5 s)
      else if startswith s (U ''NaN'') then Inr (JFloat (U ''NaN''), drop 3 s)
      else if startswith s (U ''Infinity'') then Inr (JFloat (U ''Infinity''), drop 8 s)
      else if startswith s (U ''-Infinity'') then Inr (JFloat (U ''-Infinity''), drop 9 s)
      else match_number env s)"
| "elems 0 env d s = Inl OutOfFuel"
| "elems (Suc n) env d s =
     rbind (scan n env d s) (\<lambda>(v, r).
       let w = skip_ws r in
       if head_is 93 w then Inr ([v], tl w)
       else if head_is 44 w then
         (if head_is 93 (skip_ws (tl w)) then jerr TrailingCommaArray w
          else rbind (elems n env d (skip_ws (tl w))) (\<lambda>(vs, r'). Inr (v # vs, r')))
       else jerr ExpectingComma w)"
| "members 0 env d acc s = Inl OutOfFuel"
| "members (Suc n) env d acc s =
     (if head_is 34 s then
        rbind (scanstring (length s) (tl s)) (\<lambda>(k, r1).
          let u = skip_ws r1 in
          if head_is 58 u then
            rbind (scan n env d (skip_ws (tl u))) (\<lambda>(v, r2).
              let w = skip_ws r2; acc' = AList.update k v acc in
              if head_is 125 w then Inr (JObj acc', tl w)
              else if head_is 44 w then
                (if head_is 125 (skip_ws (tl w)) then jerr TrailingCommaObject w
                 else members n env d acc' (skip_ws (tl w)))
              else jerr ExpectingComma w)
          else jerr ExpectingColon u)
      else jerr ExpectingProperty s)"

definition scan_fuel_for :: "ustr \<Rightarrow> nat" where
  "scan_fuel_for s = 2 * length s + 2"

definition loads :: "py_env \<Rightarrow> ustr \<Rightarrow> json_exc + json" where
  "loads env s =
     (if head_is 0xFEFF s then Inl (JSONDecodeError UnexpectedBOM 0)
      else (case scan (scan_fuel_for s) env (scan_depth env) (skip_ws s) of
          Inl (JSONDecodeError m k) \<Rightarrow> Inl (JSONDecodeError m (length s - k))
        | Inl e \<Rightarrow> Inl e
        | Inr (v, r) \<Rightarrow>
            (if skip_ws r = [] then Inr v
             else Inl (JSONDecodeError ExtraData (length s - length (skip_ws r))))))"

text \<open>\<open>JSONDecodeError.lineno\<close> and \<open>colno\<close>, computed from the document and the index.\<close>

definition lineno :: "ustr \<Rightarrow> nat \<Rightarrow> nat" where
  "lineno s pos = count_list (take pos s) 10 + 1"

definition colno :: "ustr \<Rightarrow> nat \<Rightarrow> nat" where
  "colno s pos = length (takeWhile (\<lambda>c. c \<noteq> 10) (rev (take pos s))) + 1"

section \<open>The encoder\<close>

fun dec :: "nat \<Rightarrow> ustr" where
  "dec n = (if n < 10 then [n + 48] else dec (n div 10) @ [n mod 10 + 48])"

declare dec.simps [simp del]

definition int_text :: "int \<Rightarrow> ustr" where
  "int_text i = (if i < 0 then 45 # dec (nat (- i)) else dec (nat i))"

definition hexchar :: "nat \<Rightarrow> nat" where
  "hexchar v = (if v < 10 then v + 48 else v + 87)"

definition u4 :: "nat \<Rightarrow> ustr" where
  "u4 n = [92, 117, hexchar (n div 4096 mod 16), hexchar (n div 256 mod 16),
           hexchar (n div 16 mod 16), hexchar (n mod 16)]"

text \<open>One character of a string, with \<open>ensure_ascii\<close> (the default) and without it.\<close>

definition esc_ascii :: "nat \<Rightarrow> ustr" where
  "esc_ascii c =
     (if c = 34 then [92, 34] else if c = 92 then [92, 92] else if c = 10 then [92, 110]
      else if c = 13 then [92, 114] else if c = 12 then [92, 102] else if c = 9 then [92, 116]
      else if c = 8 then [92, 98] else if 32 \<le> c \<and> c \<le> 126 then [c]
      else if c < 0x10000 then u4 c
      else u4 (0xD800 + (c - 0x10000) div 1024) @ u4 (0xDC00 + (c - 0x10000) mod 1024))"

definition esc_plain :: "nat \<Rightarrow> ustr" where
  "esc_plain c =
     (if c = 34 then [92, 34] else if c = 92 then [92, 92] else if c = 10 then [92, 110]
      else if c = 13 then [92, 114] else if c = 12 then [92, 102] else if c = 9 then [92, 116]
      else if c = 8 then [92, 98] else if c < 32 then u4 c else [c])"

text \<open>
  The encoder's settings. As in \<open>json.encoder\<close>, an indent turns into text after the
  opening bracket, in the item separator and before the closing bracket, each depending on
  the level; without an indent that text is empty.
\<close>

record json_style =
  esc :: "nat \<Rightarrow> ustr"
  item_sep :: "nat \<Rightarrow> ustr"
  key_sep :: ustr
  open_txt :: "nat \<Rightarrow> ustr"
  close_txt :: "nat \<Rightarrow> ustr"

fun join :: "ustr \<Rightarrow> ustr list \<Rightarrow> ustr" where
  "join sep [] = []"
| "join sep [x] = x"
| "join sep (x # y # r) = x @ sep @ join sep (y # r)"

definition quoted :: "json_style \<Rightarrow> ustr \<Rightarrow> ustr" where
  "quoted st s = 34 # concat (map (esc st) s) @ [34]"

fun dump :: "json_style \<Rightarrow> nat \<Rightarrow> json \<Rightarrow> ustr" where
  "dump st l JNull = U ''null''"
| "dump st l (JBool b) = (if b then U ''true'' else U ''false'')"
| "dump st l (JInt i) = int_text i"
| "dump st l (JFloat t) = t"
| "dump st l (JStr s) = quoted st s"
| "dump st l (JArr vs) =
     (if vs = [] then [91, 93]
      else 91 # open_txt st l @ join (item_sep st l) (map (dump st (Suc l)) vs) @ close_txt st l @ [93])"
| "dump st l (JObj ms) =
     (if ms = [] then [123, 125]
      else 123 # open_txt st l
             @ join (item_sep st l)
                 (map (\<lambda>kv. quoted st (fst kv) @ key_sep st @ dump st (Suc l) (snd kv)) ms)
             @ close_txt st l @ [125])"

definition no_indent :: "nat \<Rightarrow> ustr" where
  "no_indent l = []"

text \<open>\<open>json.dumps(x, separators=(",", ":"))\<close>, \<open>json.dumps(x)\<close> and \<open>json.dumps(x, indent=k)\<close>.\<close>

definition compact_style :: json_style where
  "compact_style = \<lparr>esc = esc_ascii, item_sep = (\<lambda>_. [44]), key_sep = [58],
     open_txt = no_indent, close_txt = no_indent\<rparr>"

definition default_style :: json_style where
  "default_style = \<lparr>esc = esc_ascii, item_sep = (\<lambda>_. [44, 32]), key_sep = [58, 32],
     open_txt = no_indent, close_txt = no_indent\<rparr>"

definition newline_indent :: "nat \<Rightarrow> nat \<Rightarrow> ustr" where
  "newline_indent k l = 10 # replicate (k * l) 32"

definition indent_style :: "(nat \<Rightarrow> ustr) \<Rightarrow> nat \<Rightarrow> json_style" where
  "indent_style e k = \<lparr>esc = e, item_sep = (\<lambda>l. 44 # newline_indent k (Suc l)), key_sep = [58, 32],
     open_txt = (\<lambda>l. newline_indent k (Suc l)), close_txt = newline_indent k\<rparr>"

text \<open>
  Without an indent \<open>dumps\<close> runs the C encoder, with one the Python encoder; each raises
  \<open>RecursionError\<close> beyond its own depth.
\<close>

definition dumps_compact :: "py_env \<Rightarrow> json \<Rightarrow> json_exc + ustr" where
  "dumps_compact env v =
     (if fits (c_enc_depth env) v then Inr (dump compact_style 0 v) else Inl RecursionError)"

definition dumps_default :: "py_env \<Rightarrow> json \<Rightarrow> json_exc + ustr" where
  "dumps_default env v =
     (if fits (c_enc_depth env) v then Inr (dump default_style 0 v) else Inl RecursionError)"

definition dumps_indent :: "py_env \<Rightarrow> (nat \<Rightarrow> ustr) \<Rightarrow> nat \<Rightarrow> json \<Rightarrow> json_exc + ustr" where
  "dumps_indent env e k v =
     (if fits (py_enc_depth env) v then Inr (dump (indent_style e k) 0 v) else Inl RecursionError)"

end
