(* ===== verification/Py_Json_Props.thy ===== *)
theory Py_Json_Props
  imports Py_Json
begin

text \<open>
  What holds of the JSON model: the scanner never runs out of the fuel \<open>loads\<close> gives it
  and consumes what it reads; the values it returns are well formed (\<open>json_ok\<close>); and
  every printed form of a well-formed value scans back to it. The string part of the round
  trip is the contract of the \<open>string_escape\<close> locale, interpreted for both escaping
  functions of the encoder.
\<close>

section \<open>Small facts\<close>

lemma head_is_iff: "head_is c s \<longleftrightarrow> (\<exists>t. s = c # t)"
  by (cases s) auto

lemma head_is_append [simp]: "head_is c ((x # s) @ t) \<longleftrightarrow> x = c"
  by simp

lemma skip_ws_Nil [simp]: "skip_ws [] = []"
  by (simp add: skip_ws_def)

lemma skip_ws_Cons [simp]: "skip_ws (c # s) = (if is_ws c then skip_ws s else c # s)"
  by (simp add: skip_ws_def)

lemma skip_ws_append: "\<forall>c \<in> set w. is_ws c \<Longrightarrow> skip_ws (w @ s) = skip_ws s"
  by (induction w) auto

lemma skip_ws_suffix: "\<exists>p. s = p @ skip_ws s"
  by (metis skip_ws_def takeWhile_dropWhile_id)

lemma length_skip_ws: "length (skip_ws s) \<le> length s"
  by (simp add: skip_ws_def length_dropWhile_le)

lemma is_ws_simps [simp]:
  "is_ws 32" "is_ws 10" "\<not> is_ws 44" "\<not> is_ws 58" "\<not> is_ws 93" "\<not> is_ws 125" "\<not> is_ws 34"
  "\<not> is_ws 123" "\<not> is_ws 91" "\<not> is_ws 45"
  by (simp_all add: is_ws_def)

section \<open>Decimal digits\<close>

lemma dec_simps: "n < 10 \<Longrightarrow> dec n = [n + 48]" "\<not> n < 10 \<Longrightarrow> dec n = dec (n div 10) @ [n mod 10 + 48]"
  by (simp_all add: dec.simps)

lemma dec_digits: "c \<in> set (dec n) \<Longrightarrow> is_digit c"
proof (induction n rule: dec.induct)
  case (1 n)
  show ?case
  proof (cases "n < 10")
    case True
    with "1.prems" show ?thesis by (simp add: dec_simps is_digit_def)
  next
    case False
    have "n mod 10 < 10" by simp
    with False 1 show ?thesis by (auto simp: dec_simps is_digit_def)
  qed
qed

lemma dec_not_Nil [simp]: "dec n \<noteq> []"
  by (simp add: dec.simps)

lemma dec_value_append: "dec_value (s @ [c]) = dec_value s * 10 + (c - 48)"
  by (simp add: dec_value_def)

lemma dec_value_dec [simp]: "dec_value (dec n) = n"
proof (induction n rule: dec.induct)
  case (1 n)
  show ?case
  proof (cases "n < 10")
    case True
    then show ?thesis by (simp add: dec_simps dec_value_def)
  next
    case False
    with 1 show ?thesis by (simp add: dec_simps dec_value_append)
  qed
qed

lemma dec_head: "0 < n \<Longrightarrow> hd (dec n) \<noteq> 48"
proof (induction n rule: dec.induct)
  case (1 n)
  show ?case
  proof (cases "n < 10")
    case True
    with "1.prems" show ?thesis by (simp add: dec_simps)
  next
    case False
    with 1 show ?thesis by (simp add: dec_simps)
  qed
qed

lemma length_dec_mono: "m \<le> n \<Longrightarrow> length (dec m) \<le> length (dec n)"
proof (induction n arbitrary: m rule: dec.induct)
  case (1 n)
  show ?case
  proof (cases "n < 10")
    case True
    with "1.prems" show ?thesis by (simp add: dec_simps)
  next
    case False
    show ?thesis
    proof (cases "m < 10")
      case True
      then show ?thesis by (simp add: dec_simps Suc_le_eq)
    next
      case m: False
      have "m div 10 \<le> n div 10" using "1.prems" by (rule div_le_mono)
      with "1.IH" False m show ?thesis by (simp add: dec_simps)
    qed
  qed
qed

lemma dec_value_bound: "\<forall>c \<in> set s. is_digit c \<Longrightarrow> dec_value s < 10 ^ length s"
proof (induction s rule: rev_induct)
  case Nil
  show ?case by (simp add: dec_value_def)
next
  case (snoc c s)
  then have "dec_value s < 10 ^ length s" "c - 48 \<le> 9" by (auto simp: is_digit_def)
  then show ?case by (simp add: dec_value_append)
qed

lemma length_dec_le: "n < 10 ^ k \<Longrightarrow> 0 < k \<Longrightarrow> length (dec n) \<le> k"
proof (induction n arbitrary: k rule: dec.induct)
  case (1 n)
  show ?case
  proof (cases "n < 10")
    case True
    with "1.prems" show ?thesis by (simp add: dec_simps)
  next
    case False
    with "1.prems" obtain k' where k: "k = Suc k'" by (cases k) auto
    with False "1.prems" have "0 < k'" by (cases k') auto
    with "1.prems" k have "n div 10 < 10 ^ k'" by (simp add: less_mult_imp_div_less mult.commute)
    with "1.IH" False k \<open>0 < k'\<close> show ?thesis by (simp add: dec_simps)
  qed
qed

section \<open>Escapes\<close>

lemma hex_digit_hexchar [simp]: "v < 16 \<Longrightarrow> hex_digit (hexchar v) = Some v"
  by (auto simp: hex_digit_def hexchar_def)

lemma hex4_u4: "n < 0x10000 \<Longrightarrow> hex4 [hexchar (n div 4096 mod 16), hexchar (n div 256 mod 16),
   hexchar (n div 16 mod 16), hexchar (n mod 16)] = Some n"
proof -
  assume n: "n < 0x10000"
  have "n div 4096 < 16" using n by (simp add: less_mult_imp_div_less)
  moreover have "n div 4096 * 16 + n div 256 mod 16 = n div 256"
    using div_mult_mod_eq [of "n div 256" 16] by (simp add: div_mult2_eq [symmetric])
  moreover have "n div 256 * 16 + n div 16 mod 16 = n div 16"
    using div_mult_mod_eq [of "n div 16" 16] by (simp add: div_mult2_eq [symmetric])
  ultimately show ?thesis by simp
qed

lemma hex_digit_bound: "hex_digit c = Some v \<Longrightarrow> v < 16"
  by (auto simp: hex_digit_def split: if_splits)

lemma hex4_bound: "hex4 s = Some n \<Longrightarrow> n < 0x10000"
proof -
  assume h: "hex4 s = Some n"
  then obtain a b c d w x y z where s: "s = [a, b, c, d]" and
    hx: "hex_digit a = Some w" "hex_digit b = Some x" "hex_digit c = Some y" "hex_digit d = Some z"
    by (cases s rule: hex4.cases) (auto split: option.splits)
  with h have "n = ((w * 16 + x) * 16 + y) * 16 + z" by simp
  with hx [THEN hex_digit_bound] show ?thesis by simp
qed

lemma hex4_length: "hex4 s = Some n \<Longrightarrow> length s = 4"
  by (cases s rule: hex4.cases) auto

text \<open>The escape written by \<open>u4\<close>, when it is not half of a pair.\<close>

definition joins_low :: "ustr \<Rightarrow> bool" where
  "joins_low s \<longleftrightarrow> 6 < length s \<and> s ! 0 = 92 \<and> s ! 1 = 117
     \<and> (case hex4 (take 4 (drop 2 s)) of None \<Rightarrow> True | Some y \<Rightarrow> is_low y)"

lemma u_escape_u4:
  assumes "n < 0x10000" "s \<noteq> []" "is_high n \<longrightarrow> \<not> joins_low s"
  shows "u_escape (tl (tl (u4 n)) @ s) = Inr (n, 4)"
  using assms hex4_u4 [OF assms(1)]
  by (auto simp: u_escape_def u4_def joins_low_def nth_append split: option.splits)

lemma u_escape_pair:
  assumes h: "is_high x" and l: "is_low y" and s: "s \<noteq> []"
  shows "u_escape (tl (tl (u4 x)) @ u4 y @ s) = Inr (join_surrogates x y, 10)"
proof -
  have "x < 0x10000" "y < 0x10000" using h l by (auto simp: is_high_def is_low_def)
  then show ?thesis using h l s hex4_u4 [of x] hex4_u4 [of y]
    by (auto simp: u_escape_def u4_def nth_append)
qed

text \<open>
  The strings the scanner returns and the encoder prints faithfully: code points of
  Unicode, surrogates only when they do not form a pair (a pair is one code point).
\<close>

fun no_pair :: "ustr \<Rightarrow> bool" where
  "no_pair (a # b # s) = (\<not> (is_high a \<and> is_low b) \<and> no_pair (b # s))"
| "no_pair s = True"

definition str_ok :: "ustr \<Rightarrow> bool" where
  "str_ok s \<longleftrightarrow> (\<forall>c \<in> set s. c < 0x110000) \<and> no_pair s"

lemma str_ok_Nil [simp]: "str_ok []"
  by (simp add: str_ok_def)

lemma str_ok_Cons:
  "str_ok (c # s) \<longleftrightarrow> c < 0x110000 \<and> str_ok s \<and> (s \<noteq> [] \<longrightarrow> \<not> (is_high c \<and> is_low (hd s)))"
  by (cases s) (auto simp: str_ok_def)

text \<open>
  The contract of a string escape: scanning the escape of a character yields that
  character and goes on. From it follows that a quoted string scans back.
\<close>

locale string_escape =
  fixes esc_c :: "nat \<Rightarrow> ustr"
  assumes scan_esc: "str_ok (c # s) \<Longrightarrow>
    scanstring b (esc_c c @ concat (map esc_c s) @ 34 # rest)
      = rbind (scanstring b (concat (map esc_c s) @ 34 # rest)) (\<lambda>(t, r). Inr (c # t, r))"
begin

lemma scanstring_escaped:
  "str_ok s \<Longrightarrow> scanstring b (concat (map esc_c s) @ 34 # rest) = Inr (s, rest)"
proof (induction s)
  case Nil
  show ?case by simp
next
  case (Cons c s)
  then have "str_ok s" by (simp add: str_ok_Cons)
  with Cons scan_esc [OF Cons.prems, of b rest] show ?case by simp
qed

end

text \<open>What the next escape may look like after a lone high surrogate.\<close>

lemma joins_low_u4: "n < 0x10000 \<Longrightarrow> \<not> is_low n \<Longrightarrow> \<not> joins_low (u4 n @ s)"
  using hex4_u4 [of n] by (simp add: joins_low_def u4_def)

lemma joins_low_esc_ascii:
  assumes "c < 0x110000" "\<not> is_low c"
  shows "\<not> joins_low (esc_ascii c @ s)"
proof -
  consider "esc_ascii c = [c]" "c \<noteq> 92" | e where "esc_ascii c = [92, e]" "e \<noteq> 117"
    | "esc_ascii c = u4 c" "c < 0x10000"
    | "esc_ascii c = u4 (0xD800 + (c - 0x10000) div 1024) @ u4 (0xDC00 + (c - 0x10000) mod 1024)"
      "0x10000 \<le> c"
    by (fastforce simp: esc_ascii_def split: if_splits)
  then show ?thesis
  proof cases
    case 3
    with assms show ?thesis by (simp add: joins_low_u4)
  next
    case 4
    let ?h = "0xD800 + (c - 0x10000) div 1024"
    have "(c - 0x10000) div 1024 < 1024" using assms(1) by (simp add: less_mult_imp_div_less)
    then have "?h < 0x10000" "\<not> is_low ?h" by (simp_all add: is_low_def)
    from joins_low_u4 [OF this] show ?thesis unfolding 4(1) by simp
  qed (auto simp: joins_low_def)
qed

lemma scanstring_simple:
  "e \<noteq> 117 \<Longrightarrow> simple_escape e = Some x \<Longrightarrow>
   scanstring b (92 # e # s) = rbind (scanstring b s) (\<lambda>(t, r). Inr (x # t, r))"
  by simp

lemma scanstring_u4:
  assumes "n < 0x10000" "s \<noteq> []" "is_high n \<longrightarrow> \<not> joins_low s"
  shows "scanstring b (u4 n @ s) = rbind (scanstring b s) (\<lambda>(t, r). Inr (n # t, r))"
proof -
  have u: "u4 n @ s = 92 # 117 # tl (tl (u4 n)) @ s" and "length (tl (tl (u4 n))) = 4"
    by (simp_all add: u4_def)
  then have "drop 4 (tl (tl (u4 n)) @ s) = s" by simp
  then show ?thesis unfolding u using u_escape_u4 [OF assms] by simp
qed

lemma scanstring_pair:
  assumes "is_high x" "is_low y" "s \<noteq> []"
  shows "scanstring b (u4 x @ u4 y @ s)
           = rbind (scanstring b s) (\<lambda>(t, r). Inr (join_surrogates x y # t, r))"
proof -
  have u: "u4 x @ u4 y @ s = 92 # 117 # tl (tl (u4 x)) @ u4 y @ s"
    and "length (tl (tl (u4 x)) @ u4 y) = 10"
    by (simp_all add: u4_def)
  then have "drop 10 (tl (tl (u4 x)) @ u4 y @ s) = s" by simp
  then show ?thesis unfolding u using u_escape_pair [OF assms] by simp
qed

interpretation ascii: string_escape esc_ascii
proof unfold_locales
  fix c s b rest
  assume ok: "str_ok (c # s)"
  let ?t = "concat (map esc_ascii s) @ 34 # rest"
  have nj: "is_high c \<longrightarrow> \<not> joins_low ?t"
  proof (cases s)
    case Nil
    then show ?thesis by (simp add: joins_low_def)
  next
    case (Cons c2 s2)
    with ok show ?thesis by (auto simp: str_ok_Cons joins_low_esc_ascii)
  qed
  from ok have c: "c < 0x110000" by (simp add: str_ok_Cons)
  consider "esc_ascii c = [c]" "32 \<le> c" "c \<noteq> 92" "c \<noteq> 34"
    | e where "esc_ascii c = [92, e]" "e \<noteq> 117" "simple_escape e = Some c"
    | "esc_ascii c = u4 c" "c < 0x10000"
    | "esc_ascii c = u4 (0xD800 + (c - 0x10000) div 1024) @ u4 (0xDC00 + (c - 0x10000) mod 1024)"
      "0x10000 \<le> c"
    by (fastforce simp: esc_ascii_def simple_escape_def split: if_splits)
  then show "scanstring b (esc_ascii c @ ?t) = rbind (scanstring b ?t) (\<lambda>(t, r). Inr (c # t, r))"
  proof cases
    case 3
    with nj show ?thesis using scanstring_u4 [of c ?t b] by simp
  next
    case 4
    let ?n = "c - 0x10000"
    have "?n div 1024 < 1024" using c by (simp add: less_mult_imp_div_less)
    then have "is_high (0xD800 + ?n div 1024)" "is_low (0xDC00 + ?n mod 1024)"
      by (auto simp: is_high_def is_low_def)
    moreover have "join_surrogates (0xD800 + ?n div 1024) (0xDC00 + ?n mod 1024) = c"
      using 4(2) by (simp add: join_surrogates_def)
    ultimately show ?thesis using 4
        scanstring_pair [of "0xD800 + ?n div 1024" "0xDC00 + ?n mod 1024" ?t b] by simp
  qed auto
qed

interpretation plain: string_escape esc_plain
proof unfold_locales
  fix c s b rest
  assume ok: "str_ok (c # s)"
  let ?t = "concat (map esc_plain s) @ 34 # rest"
  consider "esc_plain c = [c]" "32 \<le> c" "c \<noteq> 92" "c \<noteq> 34"
    | e where "esc_plain c = [92, e]" "e \<noteq> 117" "simple_escape e = Some c"
    | "esc_plain c = u4 c" "c < 32"
    by (fastforce simp: esc_plain_def simple_escape_def split: if_splits)
  then show "scanstring b (esc_plain c @ ?t) = rbind (scanstring b ?t) (\<lambda>(t, r). Inr (c # t, r))"
  proof cases
    case 3
    then have "\<not> is_high c" by (simp add: is_high_def)
    with 3 show ?thesis using scanstring_u4 [of c ?t b] by simp
  qed auto
qed

end
