(* ===== verification/Py_Json_Roundtrip.thy ===== *)
theory Py_Json_Roundtrip
  imports Py_Json_Props
begin

text \<open>
  The round trip of the JSON model. \<open>json_ok\<close> describes the values \<open>loads\<close> returns;
  \<open>scan_dump\<close> scans any printed form of such a value, with more text after it;
  \<open>scan_sound\<close> shows what the scanner returns is such a value and that it consumed input;
  \<open>scan_fuel\<close> that the fuel is enough.
\<close>

section \<open>Numbers\<close>

text \<open>What may follow a number so that the scanner stops where it ended.\<close>

fun num_end :: "ustr \<Rightarrow> bool" where
  "num_end [] = True"
| "num_end (c # s) = (\<not> is_digit c \<and> c \<notin> {43, 45, 46, 69, 101})"

text \<open>A text the scanner reads as a float and nothing else.\<close>

definition float_lexeme :: "ustr \<Rightarrow> bool" where
  "float_lexeme t \<longleftrightarrow>
     (case int_part (if head_is 45 t then tl t else t) of
        None \<Rightarrow> False
      | Some (ip, r1) \<Rightarrow>
          (let (fp, r2) = frac_part r1; (ep, r3) = exp_part r2 in
           r3 = [] \<and> \<not> (fp = [] \<and> ep = [])))"

definition float_const :: "ustr \<Rightarrow> bool" where
  "float_const t \<longleftrightarrow> t = U ''NaN'' \<or> t = U ''Infinity'' \<or> t = U ''-Infinity''"

definition float_ok :: "py_env \<Rightarrow> ustr \<Rightarrow> bool" where
  "float_ok env t \<longleftrightarrow> float_const t \<or> (float_lexeme t \<and> float_text env t = t)"

text \<open>
  What the model relies on about \<open>float\<close>: the text printed for the float of a lexeme is a
  constant or again a float lexeme, and it denotes the same float
  (\<open>float(repr(x)) == x\<close>, documented for \<open>float.__repr__\<close>).
\<close>

definition float_env :: "py_env \<Rightarrow> bool" where
  "float_env env \<longleftrightarrow> (\<forall>t. float_lexeme t \<longrightarrow> float_ok env (float_text env t))"

lemma num_end_digits [simp]:
  "num_end r \<Longrightarrow> takeWhile is_digit r = []" "num_end r \<Longrightarrow> dropWhile is_digit r = r"
  by (cases r; simp)+

lemma takeWhile_digits_end:
  "num_end r \<Longrightarrow> takeWhile is_digit (s @ r) = takeWhile is_digit s"
  by (induction s) (cases r, auto)

lemma dropWhile_digits_end:
  "num_end r \<Longrightarrow> dropWhile is_digit (s @ r) = dropWhile is_digit s @ r"
  by (induction s) (cases r, auto)

lemma int_part_end:
  "num_end r \<Longrightarrow> int_part s = Some (ip, r1) \<Longrightarrow> int_part (s @ r) = Some (ip, r1 @ r)"
  by (cases s) (auto simp: takeWhile_digits_end dropWhile_digits_end split: if_splits)

lemma frac_part_end:
  "num_end r \<Longrightarrow> frac_part s = (fp, r2) \<Longrightarrow> frac_part (s @ r) = (fp, r2 @ r)"
  by (cases s rule: frac_part.cases; cases r rule: frac_part.cases)
     (auto simp: takeWhile_digits_end dropWhile_digits_end split: if_splits)

lemma exp_part_end:
  assumes r: "num_end r" and e: "exp_part s = (ep, [])"
  shows "exp_part (s @ r) = (ep, r)"
proof (cases s)
  case Nil
  with e r show ?thesis by (cases r) auto
next
  case (Cons c s')
  with e have c: "c = 101 \<or> c = 69" by (auto split: if_splits)
  show ?thesis
  proof (cases s')
    case Nil
    with c Cons e show ?thesis by (auto simp: Let_def)
  next
    case (Cons d s'')
    with c \<open>s = c # s'\<close> e r show ?thesis
      by (auto simp: Let_def takeWhile_digits_end dropWhile_digits_end split: if_splits)
  qed
qed

text \<open>Each part returns the characters it took.\<close>

lemma digit_0: "is_digit 48"
  by (simp add: is_digit_def)

lemma int_part_append: "int_part s = Some (ip, r) \<Longrightarrow> s = ip @ r \<and> ip \<noteq> [] \<and> (\<forall>c \<in> set ip. is_digit c)"
  by (cases s) (auto dest: set_takeWhileD split: if_splits simp: digit_0)

lemma frac_part_append: "frac_part s = (fp, r) \<Longrightarrow> s = fp @ r"
  by (cases s rule: frac_part.cases) (auto split: if_splits)

lemma exp_part_append: "exp_part s = (ep, r) \<Longrightarrow> s = ep @ r"
  by (cases s; cases "tl s") (auto simp: Let_def split: if_splits)

text \<open>Scanning a printed integer and a printed float, with the text that follows left over.\<close>

lemma int_part_dec: "num_end r \<Longrightarrow> int_part (dec n @ r) = Some (dec n, r)"
proof -
  assume r: "num_end r"
  obtain c s where d: "dec n = c # s" by (cases "dec n") auto
  have all: "\<forall>x \<in> set s. is_digit x" and c: "is_digit c"
    using dec_digits [of _ n] by (auto simp: d)
  from all r have tw: "takeWhile is_digit (s @ r) = s" "dropWhile is_digit (s @ r) = r"
    by (simp_all add: takeWhile_digits_end dropWhile_digits_end num_end_digits)
  show ?thesis
  proof (cases "n = 0")
    case True
    then show ?thesis by (simp add: dec_simps)
  next
    case False
    then have "c \<noteq> 48" using dec_head [of n] by (simp add: d)
    with c tw show ?thesis by (simp add: d)
  qed
qed

lemma num_end_parts: "num_end r \<Longrightarrow> frac_part r = ([], r)" "num_end r \<Longrightarrow> exp_part r = ([], r)"
proof -
  show "num_end r \<Longrightarrow> frac_part r = ([], r)" by (cases r rule: frac_part.cases) auto
  show "num_end r \<Longrightarrow> exp_part r = ([], r)" by (cases r) auto
qed

lemma match_number_int:
  assumes "num_end r" "length (dec (nat \<bar>i\<bar>)) \<le> max_int_digits"
  shows "match_number env (int_text i @ r) = Inr (JInt i, r)"
proof (cases "i < 0")
  case True
  then have "nat \<bar>i\<bar> = nat (- i)" by simp
  with True assms show ?thesis
    by (simp add: match_number_def int_text_def int_part_dec num_end_parts)
next
  case False
  have "\<not> head_is 45 (dec (nat i) @ r)"
    using dec_digits [of 45 "nat i"] by (cases "dec (nat i)") (auto simp: is_digit_def)
  with False assms show ?thesis
    by (simp add: match_number_def int_text_def int_part_dec num_end_parts)
qed

lemma match_number_float:
  assumes r: "num_end r" and lex: "float_lexeme t" and ft: "float_text env t = t"
  shows "match_number env (t @ r) = Inr (JFloat t, r)"
proof -
  let ?neg = "head_is 45 t" and ?u = "if head_is 45 t then tl t else t"
  obtain ip r1 fp r2 ep where parts: "int_part ?u = Some (ip, r1)" "frac_part r1 = (fp, r2)"
      "exp_part r2 = (ep, [])" "\<not> (fp = [] \<and> ep = [])"
    using lex by (auto simp: float_lexeme_def split: option.splits prod.splits)
  from lex have "t \<noteq> []" by (auto simp: float_lexeme_def)
  then have hd: "head_is 45 (t @ r) = ?neg" and tl: "(if ?neg then tl (t @ r) else t @ r) = ?u @ r"
    by (cases t; simp)+
  have whole: "(if ?neg then [45] else []) @ ip @ fp @ ep = t"
  proof -
    have "?u = ip @ fp @ ep"
      using int_part_append [OF parts(1)] frac_part_append [OF parts(2)] exp_part_append [OF parts(3)]
      by simp
    with \<open>t \<noteq> []\<close> show ?thesis by (cases t) (auto split: if_splits)
  qed
  have "int_part (?u @ r) = Some (ip, r1 @ r)" "frac_part (r1 @ r) = (fp, r2 @ r)"
    "exp_part (r2 @ r) = (ep, r)"
    using parts r by (simp_all only: int_part_end frac_part_end exp_part_end)
  with parts(4) show ?thesis
    unfolding match_number_def Let_def hd tl by (simp add: whole [simplified] ft)
qed

section \<open>Values the scanner returns\<close>

fun json_ok :: "py_env \<Rightarrow> nat \<Rightarrow> json \<Rightarrow> bool" where
  "json_ok env d (JInt i) = (length (dec (nat \<bar>i\<bar>)) \<le> max_int_digits)"
| "json_ok env d (JFloat t) = float_ok env t"
| "json_ok env d (JStr s) = str_ok s"
| "json_ok env d (JArr vs) = (0 < d \<and> (\<forall>v \<in> set vs. json_ok env (d - 1) v))"
| "json_ok env d (JObj ms) =
     (0 < d \<and> dict_ok ms \<and> (\<forall>kv \<in> set ms. str_ok (fst kv) \<and> json_ok env (d - 1) (snd kv)))"
| "json_ok env d _ = True"

lemma json_ok_fits: "json_ok env d v \<Longrightarrow> fits d v"
  by (induction env d v rule: json_ok.induct) auto

section \<open>Scanning what the encoder printed\<close>

text \<open>The separators of a style are the delimiter with white space around it.\<close>

definition blank :: "ustr \<Rightarrow> bool" where
  "blank w \<longleftrightarrow> (\<forall>c \<in> set w. is_ws c)"

definition style_ok :: "json_style \<Rightarrow> bool" where
  "style_ok st \<longleftrightarrow> string_escape (esc st) \<and> (\<forall>l. \<exists>w. item_sep st l = 44 # w \<and> blank w)
     \<and> (\<exists>w. key_sep st = 58 # w \<and> blank w)
     \<and> (\<forall>l. blank (open_txt st l)) \<and> (\<forall>l. blank (close_txt st l))"

lemma style_ok_sep: "style_ok st \<Longrightarrow> \<exists>w. item_sep st l = 44 # w \<and> blank w"
  by (simp add: style_ok_def)

lemma blank_newline_indent [simp]: "blank (newline_indent k l)"
  by (simp add: blank_def newline_indent_def)

lemma blank_no_indent [simp]: "blank (no_indent l)" "blank []" "blank [32]"
  by (simp_all add: blank_def no_indent_def)

lemma style_ok_compact: "style_ok compact_style"
  by (simp add: style_ok_def compact_style_def ascii.string_escape_axioms)

lemma style_ok_default: "style_ok default_style"
  by (simp add: style_ok_def default_style_def ascii.string_escape_axioms)

lemma style_ok_indent: "string_escape e \<Longrightarrow> style_ok (indent_style e k)"
  by (simp add: style_ok_def indent_style_def)

lemma skip_blank: "blank w \<Longrightarrow> skip_ws (w @ s) = skip_ws s"
  by (simp add: blank_def skip_ws_append)

text \<open>The first character of a printed value decides what the scanner does with it.\<close>

fun value_head :: "nat \<Rightarrow> bool" where
  "value_head c = (\<not> is_ws c \<and> c \<notin> {44, 58, 93, 125, 0xFEFF})"

lemma int_text_cases:
  obtains c s where "int_text i = c # s" "is_digit c" | c s where "int_text i = 45 # c # s" "is_digit c"
proof (cases "i < 0")
  case True
  obtain c s where d: "dec (nat (- i)) = c # s" by (cases "dec (nat (- i))") auto
  with dec_digits [of c "nat (- i)"] True that(2) show ?thesis by (auto simp: int_text_def)
next
  case False
  obtain c s where d: "dec (nat i) = c # s" by (cases "dec (nat i)") auto
  with dec_digits [of c "nat i"] False that(1) show ?thesis by (auto simp: int_text_def)
qed

lemma float_lexeme_cases:
  assumes "float_lexeme t"
  obtains c s where "t = c # s" "is_digit c" | c s where "t = 45 # c # s" "is_digit c"
proof -
  obtain ip r1 where ip: "int_part (if head_is 45 t then tl t else t) = Some (ip, r1)"
    using assms by (auto simp: float_lexeme_def split: option.splits)
  from int_part_append [OF ip] obtain c s where cs: "(if head_is 45 t then tl t else t) = c # s" "is_digit c"
    by (cases ip) auto
  show ?thesis
  proof (cases "head_is 45 t")
    case True
    with cs that(2) show ?thesis by (auto simp: head_is_iff)
  next
    case False
    with cs that(1) show ?thesis by auto
  qed
qed

lemma json_literals:
  "U ''null'' = [110, 117, 108, 108]"
  "U ''true'' = [116, 114, 117, 101]"
  "U ''false'' = [102, 97, 108, 115, 101]"
  "U ''NaN'' = [78, 97, 78]"
  "U ''Infinity'' = [73, 110, 102, 105, 110, 105, 116, 121]"
  "U ''-Infinity'' = [45, 73, 110, 102, 105, 110, 105, 116, 121]"
  by (simp_all add: U_def)

lemma scan_number:
  assumes "is_digit c"
  shows "scan (Suc n) env d (c # s) = match_number env (c # s)"
    and "scan (Suc n) env d (45 # c # s) = match_number env (45 # c # s)"
  using assms by (auto simp: is_digit_def json_literals)

lemma scan_int:
  assumes "num_end r" "length (dec (nat \<bar>i\<bar>)) \<le> max_int_digits"
  shows "scan (Suc n) env d (int_text i @ r) = Inr (JInt i, r)"
proof -
  have "scan (Suc n) env d (int_text i @ r) = match_number env (int_text i @ r)"
    by (rule int_text_cases [of i]) (simp_all only: append_Cons scan_number)
  with match_number_int [OF assms] show ?thesis by simp
qed

lemma scan_float:
  assumes "num_end r" "float_ok env t"
  shows "scan (Suc n) env d (t @ r) = Inr (JFloat t, r)"
proof (cases "float_const t")
  case True
  then show ?thesis by (elim float_const_def [THEN iffD1, THEN disjE] disjE) (simp_all add: json_literals)
next
  case False
  with assms have lex: "float_lexeme t" "float_text env t = t" by (auto simp: float_ok_def)
  have "scan (Suc n) env d (t @ r) = match_number env (t @ r)"
    by (rule float_lexeme_cases [OF lex(1)]) (simp_all only: append_Cons scan_number)
  with match_number_float [OF assms(1) lex] show ?thesis by simp
qed

lemma scan_string:
  assumes "style_ok st" "str_ok s"
  shows "scan (Suc n) env d (quoted st s @ r) = Inr (JStr s, r)"
proof -
  from assms(1) have "string_escape (esc st)" by (simp add: style_ok_def)
  from string_escape.scanstring_escaped [OF this assms(2)] show ?thesis by (simp add: quoted_def)
qed

lemma num_end_delim:
  "num_end (44 # r)" "blank w \<Longrightarrow> num_end (w @ 93 # r)" "blank w \<Longrightarrow> num_end (w @ 125 # r)"
proof -
  show "num_end (44 # r)" by (simp add: is_digit_def)
  show "blank w \<Longrightarrow> num_end (w @ 93 # r)" "blank w \<Longrightarrow> num_end (w @ 125 # r)"
    by (cases w; auto simp: blank_def is_ws_def is_digit_def)+
qed

lemma value_head_digit: "is_digit c \<Longrightarrow> value_head c" "value_head 45"
  by (auto simp: is_digit_def is_ws_def)

lemma dump_head: "json_ok env d v \<Longrightarrow> \<exists>c t. dump st l v = c # t \<and> value_head c"
proof (cases v)
  case (JInt i)
  then show ?thesis
    by (simp del: value_head.simps) (rule int_text_cases [of i]; simp add: value_head_digit del: value_head.simps)
next
  case (JFloat t)
  moreover assume "json_ok env d v"
  ultimately have "float_const t \<or> float_lexeme t" by (auto simp: float_ok_def)
  then show ?thesis
  proof
    assume "float_const t"
    with JFloat show ?thesis
      by (elim float_const_def [THEN iffD1, THEN disjE] disjE) (simp_all add: json_literals is_ws_def)
  next
    assume "float_lexeme t"
    with JFloat show ?thesis
      by (elim float_lexeme_cases) (simp_all add: value_head_digit del: value_head.simps)
  qed
qed (auto simp: json_literals quoted_def is_ws_def)

lemma update_new: "k \<notin> fst ` set al \<Longrightarrow> AList.update k v al = al @ [(k, v)]"
  by (induction al) auto

text \<open>
  The loops of the scanner over a printed list, from the round trip of the elements. The
  style is fixed by its separators: \<open>item_sep\<close> is \<open>44 # w\<close> with blank \<open>w\<close>.
\<close>

definition scans_back :: "py_env \<Rightarrow> json_style \<Rightarrow> json \<Rightarrow> bool" where
  "scans_back env st v \<longleftrightarrow> (\<forall>d l n r. json_ok env d v \<longrightarrow> num_end r \<longrightarrow>
     2 * length (dump st l v) + 1 \<le> n \<longrightarrow> scan n env d (dump st l v @ r) = Inr (v, r))"

lemma scans_backD:
  "scans_back env st v \<Longrightarrow> json_ok env d v \<Longrightarrow> num_end r \<Longrightarrow> 2 * length (dump st l v) + 1 \<le> n \<Longrightarrow>
   scan n env d (dump st l v @ r) = Inr (v, r)"
  by (simp add: scans_back_def)

lemma skip_ws_value:
  assumes "value_head c" "blank w"
  shows "skip_ws (w @ c # s) = c # s" "\<not> head_is 93 (c # s)"
  using assms by (auto simp: skip_blank)

lemma join_Cons: "vs \<noteq> [] \<Longrightarrow> join sep (x # vs) = x @ sep @ join sep vs"
  by (cases vs) auto

lemma join_dump_head:
  assumes "json_ok env d v"
  obtains c t where "join sep (map (dump st l) (v # vs)) @ s = c # t" "value_head c"
  using dump_head [OF assms, of st l] by (cases vs) auto

lemma elems_dump:
  assumes sep: "sep = 44 # w" "blank w" and cl: "blank cl"
  shows "vs \<noteq> [] \<Longrightarrow> (\<And>v. v \<in> set vs \<Longrightarrow> scans_back env st v \<and> json_ok env d v) \<Longrightarrow>
    2 * length (join sep (map (dump st l) vs)) + 2 \<le> n \<Longrightarrow>
    elems n env d (join sep (map (dump st l) vs) @ cl @ 93 # r) = Inr (vs, r)"
proof (induction vs arbitrary: n)
  case Nil
  then show ?case by simp
next
  case (Cons v vs)
  then obtain m where n: "n = Suc m" by (cases n) auto
  have v: "scans_back env st v" "json_ok env d v" using Cons.prems(2) by simp_all
  show ?case
  proof (cases vs)
    case Nil
    with Cons.prems(3) n have "2 * length (dump st l v) + 1 \<le> m" by simp
    with v scans_backD [OF v num_end_delim(2) [OF cl]] Nil show ?thesis
      by (simp add: n skip_blank [OF cl])
  next
    case (Cons v2 vs2)
    let ?rest = "join sep (map (dump st l) vs) @ cl @ 93 # r"
    have len: "2 * length (dump st l v) + 1 \<le> m" "2 * length (join sep (map (dump st l) vs)) + 2 \<le> m"
      using Cons.prems(3) n Cons sep(1) by (simp_all add: join_Cons)
    have v2: "json_ok env d v2" using Cons.prems(2) Cons by simp
    obtain c t where "?rest = c # t" "value_head c"
      using join_dump_head [OF v2, of sep st l vs2 "cl @ 93 # r"] Cons by metis
    then have sk: "skip_ws (w @ ?rest) = ?rest" "\<not> head_is 93 ?rest"
      using skip_ws_value [OF _ sep(2)] by simp_all
    have "elems m env d ?rest = Inr (vs, r)"
      using Cons.IH Cons.prems(2) len(2) Cons by simp
    with scans_backD [OF v num_end_delim(1) len(1), of "w @ ?rest"] sk Cons show ?thesis
      by (simp add: n sep(1))
  qed
qed

abbreviation member_text :: "json_style \<Rightarrow> nat \<Rightarrow> ustr \<times> json \<Rightarrow> ustr" where
  "member_text st l kv \<equiv> quoted st (fst kv) @ key_sep st @ dump st l (snd kv)"

lemma members_step:
  assumes st: "style_ok st" and k: "str_ok k" and v: "scans_back env st v" "json_ok env d v"
    and m: "2 * length (dump st l v) + 1 \<le> m" and s: "num_end s"
  shows "members (Suc m) env d acc (member_text st l (k, v) @ s) =
     (let w = skip_ws s; acc' = AList.update k v acc in
      if head_is 125 w then Inr (JObj acc', tl w)
      else if head_is 44 w then
        (if head_is 125 (skip_ws (tl w)) then jerr TrailingCommaObject w
         else members m env d acc' (skip_ws (tl w)))
      else jerr ExpectingComma w)"
proof -
  from st obtain wk where wk: "key_sep st = 58 # wk" "blank wk" and se: "string_escape (esc st)"
    by (auto simp: style_ok_def)
  let ?d = "dump st l v @ s"
  have str: "scanstring b (concat (map (esc st) k) @ 34 # 58 # wk @ ?d) = Inr (k, 58 # wk @ ?d)" for b
    by (rule string_escape.scanstring_escaped [OF se k])
  obtain c t where "dump st l v = c # t" "value_head c" using dump_head [OF v(2)] by metis
  then have "skip_ws (wk @ ?d) = ?d" using skip_ws_value(1) [OF _ wk(2), of c "t @ s"] by simp
  with str scans_backD [OF v s m] show ?thesis
    by (simp add: quoted_def wk(1) Let_def)
qed

lemma members_dump:
  assumes st: "style_ok st" and sep: "sep = 44 # w" "blank w" and cl: "blank cl"
  shows "ms \<noteq> [] \<Longrightarrow> dict_ok (acc @ ms) \<Longrightarrow>
    (\<And>kv. kv \<in> set ms \<Longrightarrow> scans_back env st (snd kv) \<and> json_ok env d (snd kv) \<and> str_ok (fst kv)) \<Longrightarrow>
    2 * length (join sep (map (member_text st l) ms)) + 2 \<le> n \<Longrightarrow>
    members n env d acc (join sep (map (member_text st l) ms) @ cl @ 125 # r) = Inr (JObj (acc @ ms), r)"
proof (induction ms arbitrary: n acc)
  case Nil
  then show ?case by simp
next
  case (Cons kv ms)
  obtain k v where kv: "kv = (k, v)" by (cases kv)
  from Cons.prems(4) obtain m where n: "n = Suc m" by (cases n) auto
  have v: "scans_back env st v" "json_ok env d v" "str_ok k" using Cons.prems(3) [of kv] kv by simp_all
  have upd: "AList.update k v acc = acc @ [(k, v)]"
    using Cons.prems(2) kv by (intro update_new) (auto simp: dict_ok_def)
  show ?case
  proof (cases ms)
    case Nil
    with Cons.prems(4) n kv have m: "2 * length (dump st l v) + 1 \<le> m" by simp
    show ?thesis
      using members_step [OF st v(3) v(1,2) m num_end_delim(3) [OF cl], of acc r]
      by (simp add: n Nil kv skip_blank [OF cl] upd)
  next
    case (Cons kv2 ms2)
    let ?rest = "join sep (map (member_text st l) ms) @ cl @ 125 # r"
    have len: "2 * length (dump st l v) + 1 \<le> m"
        "2 * length (join sep (map (member_text st l) ms)) + 2 \<le> m"
      using Cons.prems(4) n Cons sep(1) kv by (simp_all add: join_Cons)
    obtain t where "?rest = 34 # t" using Cons by (cases ms2) (auto simp: quoted_def)
    then have sk: "skip_ws (w @ ?rest) = ?rest" "\<not> head_is 125 ?rest"
      using skip_blank [OF sep(2)] by simp_all
    have "members m env d (acc @ [(k, v)]) ?rest = Inr (JObj (acc @ (k, v) # ms), r)"
      using Cons.IH [of "acc @ [(k, v)]" m] Cons.prems(2,3) len(2) Cons kv by simp
    with members_step [OF st v(3) v(1,2) len(1) num_end_delim(1), of acc "w @ ?rest"] sk
    show ?thesis by (simp add: n Cons kv sep(1) upd)
  qed
qed

theorem scan_dump:
  assumes st: "style_ok st"
  shows "scans_back env st v"
proof (induction v)
  case (JArr vs)
  show ?case unfolding scans_back_def
  proof (intro allI impI)
    fix d l n r
    assume ok: "json_ok env d (JArr vs)" and n: "2 * length (dump st l (JArr vs)) + 1 \<le> n"
    obtain w where sep: "item_sep st l = 44 # w" "blank w" using style_ok_sep [OF st] by blast
    have ws: "blank (open_txt st l)" "blank (close_txt st l)" using st by (auto simp: style_ok_def)
    obtain m where m: "n = Suc m" using n by (cases n) auto
    show "scan n env d (dump st l (JArr vs) @ r) = Inr (JArr vs, r)"
    proof (cases vs)
      case Nil
      with ok m show ?thesis by simp
    next
      case (Cons v vs')
      let ?t = "join (item_sep st l) (map (dump st (Suc l)) vs) @ close_txt st l @ 93 # r"
      have "json_ok env (d - 1) v" using ok Cons by simp
      then obtain c t where h: "?t = c # t" "value_head c"
        using join_dump_head [of env "d - 1" v "item_sep st l" st "Suc l" vs' "close_txt st l @ 93 # r"]
          Cons by metis
      have sk: "skip_ws (open_txt st l @ ?t) = ?t" "\<not> head_is 93 ?t"
        unfolding h(1) using skip_ws_value [OF h(2) ws(1)] by simp_all
      have all: "scans_back env st v \<and> json_ok env (d - 1) v" if "v \<in> set vs" for v
        using JArr ok that by simp
      have len: "2 * length (join (item_sep st l) (map (dump st (Suc l)) vs)) + 2 \<le> m"
        using n m Cons by simp
      have "elems m env (d - 1) ?t = Inr (vs, r)"
        using Cons by (intro elems_dump [OF sep ws(2) _ all len]) simp
      with sk ok Cons show ?thesis by (simp add: m)
    qed
  qed
next
  case (JObj ms)
  show ?case unfolding scans_back_def
  proof (intro allI impI)
    fix d l n r
    assume ok: "json_ok env d (JObj ms)" and n: "2 * length (dump st l (JObj ms)) + 1 \<le> n"
    obtain w where sep: "item_sep st l = 44 # w" "blank w" using style_ok_sep [OF st] by blast
    have ws: "blank (open_txt st l)" "blank (close_txt st l)" using st by (auto simp: style_ok_def)
    obtain m where m: "n = Suc m" using n by (cases n) auto
    show "scan n env d (dump st l (JObj ms) @ r) = Inr (JObj ms, r)"
    proof (cases ms)
      case Nil
      with ok m show ?thesis by simp
    next
      case (Cons kv ms')
      let ?t = "join (item_sep st l) (map (member_text st (Suc l)) ms) @ close_txt st l @ 125 # r"
      obtain t where h: "?t = 34 # t" using Cons by (cases ms') (auto simp: quoted_def)
      have sk: "skip_ws (open_txt st l @ ?t) = ?t" "\<not> head_is 125 ?t"
        unfolding h using skip_ws_value [of 34 "open_txt st l" t] ws(1) by (simp_all add: is_ws_def)
      have all: "scans_back env st (snd kv) \<and> json_ok env (d - 1) (snd kv) \<and> str_ok (fst kv)"
        if "kv \<in> set ms" for kv
        using JObj [of kv "snd kv"] ok that by (cases kv) auto
      have len: "2 * length (join (item_sep st l) (map (member_text st (Suc l)) ms)) + 2 \<le> m"
        using n m Cons by simp
      have "members m env (d - 1) [] ?t = Inr (JObj ([] @ ms), r)"
        using ok Cons by (intro members_dump [OF st sep ws(2) _ _ all len]) simp_all
      with sk ok Cons show ?thesis by (simp add: m)
    qed
  qed
next
  case (JInt i)
  show ?case unfolding scans_back_def
  proof (intro allI impI)
    fix d l n r
    assume "json_ok env d (JInt i)" "num_end r" "2 * length (dump st l (JInt i)) + 1 \<le> n"
    then show "scan n env d (dump st l (JInt i) @ r) = Inr (JInt i, r)"
      by (cases n) (simp_all add: scan_int del: scan.simps(2))
  qed
next
  case (JFloat t)
  show ?case unfolding scans_back_def
  proof (intro allI impI)
    fix d l n r
    assume "json_ok env d (JFloat t)" "num_end r" "2 * length (dump st l (JFloat t)) + 1 \<le> n"
    then show "scan n env d (dump st l (JFloat t) @ r) = Inr (JFloat t, r)"
      by (cases n) (simp_all add: scan_float del: scan.simps(2))
  qed
next
  case (JStr s)
  show ?case unfolding scans_back_def
  proof (intro allI impI)
    fix d l n r
    assume "json_ok env d (JStr s)" "2 * length (dump st l (JStr s)) + 1 \<le> n"
    then show "scan n env d (dump st l (JStr s) @ r) = Inr (JStr s, r)"
      by (cases n) (simp_all add: scan_string [OF st] del: scan.simps(2))
  qed
next
  case JNull
  show ?case unfolding scans_back_def
    by (intro allI impI) (case_tac n; simp add: json_literals)
next
  case (JBool b)
  show ?case unfolding scans_back_def
    by (intro allI impI) (case_tac n; simp add: json_literals)
qed

section \<open>What the scanner returns\<close>

definition consumes :: "ustr \<Rightarrow> ustr \<Rightarrow> bool" where
  "consumes s r \<longleftrightarrow> (\<exists>p. p \<noteq> [] \<and> s = p @ r)"

lemma consumes_Cons [intro]: "consumes s r \<Longrightarrow> consumes (c # s) r"
  by (auto simp: consumes_def intro: exI [of _ "c # _"])

lemma consumes_hd: "consumes (c # s) s"
  by (auto simp: consumes_def)

lemma consumes_append: "consumes s r \<Longrightarrow> consumes (p @ s) r"
  by (induction p) auto

lemma consumes_trans: "consumes s t \<Longrightarrow> consumes t r \<Longrightarrow> consumes s r"
proof -
  assume "consumes s t" "consumes t r"
  then obtain p where "s = p @ t" by (auto simp: consumes_def)
  with \<open>consumes t r\<close> show "consumes s r" by (simp add: consumes_append)
qed

lemma consumes_skip: "consumes (skip_ws s) r \<Longrightarrow> consumes s r"
  using skip_ws_suffix [of s] consumes_append by metis

lemma consumes_tl: "head_is c (skip_ws s) \<Longrightarrow> consumes s (tl (skip_ws s))"
  by (rule consumes_skip) (auto simp: head_is_iff consumes_hd)

lemma consumes_drop: "k < length s \<Longrightarrow> 0 < k \<Longrightarrow> consumes s (drop k s)"
  by (metis append_take_drop_id consumes_def gr_implies_not0 length_0_conv list.size(3) take_eq_Nil)

lemma consumes_length: "consumes s r \<Longrightarrow> length r < length s"
  by (auto simp: consumes_def)

lemma consumes_utf8: "consumes s r \<Longrightarrow> utf8_ok s \<Longrightarrow> utf8_ok r"
  by (auto simp: consumes_def utf8_ok_def)

lemma utf8_ok_simps [simp]:
  "utf8_ok []" "utf8_ok (c # s) \<longleftrightarrow> c < 0x110000 \<and> \<not> is_surrogate c \<and> utf8_ok s"
  by (auto simp: utf8_ok_def)

lemma utf8_ok_skip: "utf8_ok s \<Longrightarrow> utf8_ok (skip_ws s)"
  by (auto simp: utf8_ok_def skip_ws_def dest: set_dropWhileD)

lemma utf8_ok_tl: "utf8_ok s \<Longrightarrow> utf8_ok (tl s)"
  by (cases s) auto

lemma utf8_ok_drop: "utf8_ok s \<Longrightarrow> utf8_ok (drop n s)"
  by (auto simp: utf8_ok_def dest: in_set_dropD)

subsection \<open>Strings\<close>

lemma u_escape_sound:
  assumes "u_escape s = Inr (x, k)"
  shows "0 < k \<and> k < length s \<and> 4 < length s \<and> x < 0x110000 \<and> (is_high x \<longrightarrow> \<not> joins_low (drop k s))
    \<and> (is_low x \<longrightarrow> hex4 (take 4 s) = Some x)"
proof -
  obtain y where y: "hex4 (take 4 s) = Some y" "4 < length s"
    using assms by (auto simp: u_escape_def split: if_splits option.splits)
  show ?thesis
  proof (cases "k = 10")
    case True
    with assms y have "is_high y" "10 < length s" "\<exists>z. is_low z \<and> x = join_surrogates y z"
      by (auto simp: u_escape_def split: if_splits option.splits)
    then show ?thesis using True by (auto simp: is_high_def is_low_def join_surrogates_def)
  next
    case False
    with assms y have "k = 4" "x = y"
      by (auto simp: u_escape_def split: if_splits option.splits)
    moreover have "is_high x \<longrightarrow> \<not> joins_low (drop 4 s)"
      using assms y \<open>k = 4\<close> by (auto simp: u_escape_def joins_low_def split: if_splits option.splits)
    moreover have "x < 0x10000" using hex4_bound [OF y(1)] \<open>x = y\<close> by simp
    ultimately show ?thesis using y by simp
  qed
qed

lemma simple_escape_range: "simple_escape e = Some x \<Longrightarrow> x < 128"
  by (auto simp: simple_escape_def split: if_splits)

lemma scanstring_sound:
  "scanstring b s = Inr (t, r) \<Longrightarrow> utf8_ok s \<Longrightarrow>
   consumes s r \<and> str_ok t \<and> (\<forall>x t'. t = x # t' \<and> is_low x \<longrightarrow> joins_low s)"
proof (induction b s arbitrary: t rule: scanstring.induct)
  case (1 b)
  then show ?case by simp
next
  case (2 b c s)
  consider (quote) "c = 34" | (esc) "c = 92" | (plain) "c \<noteq> 34" "c \<noteq> 92" by blast
  then show ?case
  proof cases
    case quote
    with "2.prems" show ?thesis by (auto simp: consumes_hd)
  next
    case plain
    with "2.prems" obtain t' where t: "scanstring b s = Inr (t', r)" "t = c # t'"
      by (auto simp: rbind_eq_Inr split: if_splits)
    with "2.IH"(3) [of t'] "2.prems" plain have "consumes s r" "str_ok t'"
      by (auto split: if_splits)
    moreover have "\<not> is_high c" "\<not> is_low c" using "2.prems"(2)
      by (auto simp: is_surrogate_def is_high_def is_low_def)
    ultimately show ?thesis using "2.prems"(2) t by (auto simp: str_ok_Cons)
  next
    case esc
    with "2.prems" obtain e s' where s: "s = e # s'" by (cases s) auto
    show ?thesis
    proof (cases "e = 117")
      case False
      with esc s "2.prems" obtain x t' where
        x: "simple_escape e = Some x" "scanstring b s' = Inr (t', r)" "t = x # t'"
        by (auto simp: rbind_eq_Inr split: option.splits)
      with "2.IH"(2) [of e s' x t'] esc s False "2.prems" have "consumes s' r" "str_ok t'" by auto
      moreover have "\<not> is_high x" "\<not> is_low x" "x < 0x110000"
        using simple_escape_range [OF x(1)] by (auto simp: is_high_def is_low_def)
      ultimately show ?thesis using x(3) s by (auto simp: str_ok_Cons)
    next
      case True
      with esc s "2.prems" obtain x k t' where
        x: "u_escape s' = Inr (x, k)" "scanstring b (drop k s') = Inr (t', r)" "t = x # t'"
        by (auto simp: rbind_eq_Inr)
      note u = u_escape_sound [OF x(1)]
      have ih: "consumes (drop k s') r \<and> str_ok t' \<and> (\<forall>y t''. t' = y # t'' \<and> is_low y \<longrightarrow> joins_low (drop k s'))"
        using "2.IH"(1) [of e s' "(x, k)" x k t'] x esc s True "2.prems"(2) utf8_ok_drop by auto
      then have "consumes s' r" using consumes_trans [OF consumes_drop] u by blast
      moreover have "str_ok (x # t')" using ih u by (cases t') (auto simp: str_ok_Cons)
      moreover have "is_low x \<longrightarrow> joins_low (c # s)"
        using u s esc True by (auto simp: joins_low_def is_low_def)
      ultimately show ?thesis using x(3) s by auto
    qed
  qed
qed

subsection \<open>Numbers\<close>

lemma digits_append:
  "takeWhile is_digit (takeWhile is_digit l @ x) = takeWhile is_digit l @ takeWhile is_digit x"
  "dropWhile is_digit (takeWhile is_digit l @ x) = dropWhile is_digit x"
  by (induction l) auto

lemma exp_part_again:
  "exp_part s = (ep, r) \<Longrightarrow> exp_part ep = (ep, []) \<and> (ep = [] \<or> hd ep = 101 \<or> hd ep = 69)"
proof (cases s)
  case Nil
  moreover assume "exp_part s = (ep, r)"
  ultimately show ?thesis by simp
next
  case (Cons c s')
  moreover assume "exp_part s = (ep, r)"
  ultimately show ?thesis
    by (cases s') (auto simp: Let_def takeWhile_idem dest: set_takeWhileD split: if_splits)
qed

lemma frac_part_again:
  assumes "frac_part s = (fp, r)" and "ep = [] \<or> hd ep = 101 \<or> hd ep = 69"
  shows "frac_part (fp @ ep) = (fp, ep)" "fp @ ep = [] \<or> \<not> is_digit (hd (fp @ ep))"
proof -
  have nd: "takeWhile is_digit ep = []" "dropWhile is_digit ep = ep"
    using assms(2) by (cases ep; auto simp: is_digit_def)+
  have "fp = [] \<or> (\<exists>d ds. fp = 46 # d # ds \<and> is_digit d \<and> (\<forall>c \<in> set ds. is_digit c))"
    using assms(1) by (cases s rule: frac_part.cases) (auto dest: set_takeWhileD split: if_splits)
  then show "frac_part (fp @ ep) = (fp, ep)"
    using assms(2) nd by (cases ep rule: frac_part.cases) auto
  show "fp @ ep = [] \<or> \<not> is_digit (hd (fp @ ep))"
    using \<open>fp = [] \<or> _\<close> assms(2) by (cases ep) (auto simp: is_digit_def)
qed

lemma int_part_again:
  assumes "int_part s = Some (ip, r)" and "x = [] \<or> \<not> is_digit (hd x)"
  shows "int_part (ip @ x) = Some (ip, x)"
proof -
  have "takeWhile is_digit x = []" "dropWhile is_digit x = x"
    using assms(2) by (cases x; simp)+
  then show ?thesis
    using assms(1) by (cases s) (auto simp: digits_append split: if_splits)
qed

lemma match_number_sound:
  assumes env: "float_env env" and m: "match_number env s = Inr (v, r)"
  shows "json_ok env d v \<and> consumes s r"
proof -
  let ?neg = "head_is 45 s"
  let ?t = "if ?neg then tl s else s" and ?sg = "if ?neg then [45] else []"
  obtain ip r1 fp r2 ep where parts: "int_part ?t = Some (ip, r1)" "frac_part r1 = (fp, r2)"
      "exp_part r2 = (ep, r)"
    using m by (auto simp: match_number_def Let_def split: option.splits prod.splits if_splits)
  note ap = int_part_append [OF parts(1)] frac_part_append [OF parts(2)] exp_part_append [OF parts(3)]
  have "s = ?sg @ ?t" by (cases s) auto
  with ap have "s = (?sg @ ip @ fp @ ep) @ r" by simp
  with ap have c: "consumes s r" unfolding consumes_def by blast
  show ?thesis
  proof (cases "fp = [] \<and> ep = []")
    case True
    have "length (dec (dec_value ip)) \<le> length ip"
      using ap dec_value_bound [of ip] by (intro length_dec_le) auto
    with True m parts have "json_ok env d v"
      by (auto simp: match_number_def Let_def split: if_splits)
    with c show ?thesis by blast
  next
    case False
    have v: "v = JFloat (float_text env (?sg @ ip @ fp @ ep))"
      using False m parts by (auto simp: match_number_def Let_def)
    note ep = exp_part_again [OF parts(3)]
    note fp = frac_part_again [OF parts(2), of ep]
    have "int_part (ip @ fp @ ep) = Some (ip, fp @ ep)"
      using int_part_again [OF parts(1) fp(2)] ep by simp
    moreover have "\<not> head_is 45 (ip @ fp @ ep)"
      using ap by (cases ip) (auto simp: is_digit_def)
    ultimately have "float_lexeme (?sg @ ip @ fp @ ep)"
      using False ep fp(1) by (auto simp: float_lexeme_def)
    then have "json_ok env d v" using env v by (simp add: float_env_def)
    with c show ?thesis by blast
  qed
qed

subsection \<open>Values\<close>

lemma dict_ok_update_values:
  "(\<forall>kv \<in> set d. P kv) \<Longrightarrow> P (k, v) \<Longrightarrow> \<forall>kv \<in> set (AList.update k v d). P kv"
  by (induction d) auto

lemma startswith_consumes:
  "startswith s p \<Longrightarrow> p \<noteq> [] \<Longrightarrow> consumes s (drop (length p) s)"
  by (auto simp: startswith_iff consumes_def)

abbreviation members_ok :: "py_env \<Rightarrow> nat \<Rightarrow> (ustr \<times> json) list \<Rightarrow> bool" where
  "members_ok env d ms \<equiv>
     dict_ok ms \<and> (\<forall>kv \<in> set ms. str_ok (fst kv) \<and> json_ok env d (snd kv))"

text \<open>The ways \<open>scan\<close> can return a value.\<close>

lemma scan_InrE:
  assumes "scan (Suc n) env d s = Inr (v, r)"
  obtains (str) t where "head_is 34 s" "scanstring (length s) (tl s) = Inr (t, r)" "v = JStr t"
    | (emptyobj) "head_is 123 s" "0 < d" "head_is 125 (skip_ws (tl s))" "v = JObj []" "r = tl (skip_ws (tl s))"
    | (obj) "head_is 123 s" "0 < d" "members n env (d - 1) [] (skip_ws (tl s)) = Inr (v, r)"
    | (emptyarr) "head_is 91 s" "0 < d" "head_is 93 (skip_ws (tl s))" "v = JArr []" "r = tl (skip_ws (tl s))"
    | (arr) vs where "head_is 91 s" "0 < d" "elems n env (d - 1) (skip_ws (tl s)) = Inr (vs, r)" "v = JArr vs"
    | (lit) p k where "startswith s p" "p \<noteq> []" "length p = k" "r = drop k s"
        "v \<in> {JNull, JBool True, JBool False} \<or> (\<exists>t. v = JFloat t \<and> float_const t)"
    | (num) "match_number env s = Inr (v, r)"
proof -
  let ?u = "skip_ws (tl s)"
  consider (a) "head_is 34 s" | (b) "head_is 123 s" | (c) "head_is 91 s"
    | (d) "\<not> head_is 34 s" "\<not> head_is 123 s" "\<not> head_is 91 s" "s \<noteq> []"
    using assms by fastforce
  then show thesis
  proof cases
    case a
    with assms str show ?thesis by (auto simp: rbind_eq_Inr split: if_splits)
  next
    case b
    then have "\<not> head_is 34 s" "s \<noteq> []" by (auto simp: head_is_iff)
    with b assms have r: "(if d = 0 then Inl RecursionError
         else if head_is 125 ?u then Inr (JObj [], tl ?u) else members n env (d - 1) [] ?u) = Inr (v, r)"
      by simp
    show ?thesis
    proof (cases "head_is 125 ?u")
      case True
      with r emptyobj b show ?thesis by (simp split: if_splits)
    next
      case False
      with r obj b show ?thesis by (simp split: if_splits)
    qed
  next
    case c
    then have "\<not> head_is 34 s" "\<not> head_is 123 s" "s \<noteq> []" by (auto simp: head_is_iff)
    with c assms have r: "(if d = 0 then Inl RecursionError
         else if head_is 93 ?u then Inr (JArr [], tl ?u)
         else rbind (elems n env (d - 1) ?u) (\<lambda>(vs, r). Inr (JArr vs, r))) = Inr (v, r)"
      by simp
    show ?thesis
    proof (cases "head_is 93 ?u")
      case True
      with r emptyarr c show ?thesis by (simp split: if_splits)
    next
      case False
      with r arr c show ?thesis by (auto simp: rbind_eq_Inr split: if_splits)
    qed
  next
    case d
    with assms have r: "(if startswith s (U ''null'') then Inr (JNull, drop 4 s)
         else if startswith s (U ''true'') then Inr (JBool True, drop 4 s)
         else if startswith s (U ''false'') then Inr (JBool False, drop 5 s)
         else if startswith s (U ''NaN'') then Inr (JFloat (U ''NaN''), drop 3 s)
         else if startswith s (U ''Infinity'') then Inr (JFloat (U ''Infinity''), drop 8 s)
         else if startswith s (U ''-Infinity'') then Inr (JFloat (U ''-Infinity''), drop 9 s)
         else match_number env s) = Inr (v, r)"
      by simp
    show ?thesis
    proof (rule ccontr)
      assume no: "\<not> thesis"
      have "\<not> startswith s (U ''null'')" using no lit [of "U ''null''" 4] r by auto
      moreover have "\<not> startswith s (U ''true'')"
        using no lit [of "U ''true''" 4] r calculation by auto
      moreover have "\<not> startswith s (U ''false'')"
        using no lit [of "U ''false''" 5] r calculation by auto
      moreover have "\<not> startswith s (U ''NaN'')"
        using no lit [of "U ''NaN''" 3] r calculation by (auto simp: float_const_def)
      moreover have "\<not> startswith s (U ''Infinity'')"
        using no lit [of "U ''Infinity''" 8] r calculation by (auto simp: float_const_def)
      moreover have "\<not> startswith s (U ''-Infinity'')"
        using no lit [of "U ''-Infinity''" 9] r calculation by (auto simp: float_const_def)
      ultimately show False using no num r by simp
    qed
  qed
qed

lemma elems_InrE:
  assumes "elems (Suc n) env d s = Inr (vs, r)"
  obtains v u where "scan n env d s = Inr (v, u)" "head_is 93 (skip_ws u)" "vs = [v]" "r = tl (skip_ws u)"
    | v u vs' where "scan n env d s = Inr (v, u)" "head_is 44 (skip_ws u)"
        "elems n env d (skip_ws (tl (skip_ws u))) = Inr (vs', r)" "vs = v # vs'"
  using assms by (auto simp: rbind_eq_Inr Let_def split: if_splits)

lemma members_InrE:
  assumes "members (Suc n) env d acc s = Inr (v, r)"
  obtains k u x w where "head_is 34 s" "scanstring (length s) (tl s) = Inr (k, u)" "head_is 58 (skip_ws u)"
      "scan n env d (skip_ws (tl (skip_ws u))) = Inr (x, w)"
      "(head_is 125 (skip_ws w) \<and> v = JObj (AList.update k x acc) \<and> r = tl (skip_ws w))
       \<or> (head_is 44 (skip_ws w)
          \<and> members n env d (AList.update k x acc) (skip_ws (tl (skip_ws w))) = Inr (v, r))"
  using assms by (auto simp: rbind_eq_Inr Let_def split: if_splits)

lemma scan_sound:
  assumes env: "float_env env"
  shows "scan n env d s = Inr (v, r) \<Longrightarrow> utf8_ok s \<Longrightarrow> json_ok env d v \<and> consumes s r"
    and "elems n env d s = Inr (vs, r) \<Longrightarrow> utf8_ok s \<Longrightarrow> (\<forall>v \<in> set vs. json_ok env d v) \<and> consumes s r"
    and "members n env d acc s = Inr (v, r) \<Longrightarrow> utf8_ok s \<Longrightarrow> members_ok env d acc \<Longrightarrow>
      (\<exists>ms. v = JObj ms \<and> members_ok env d ms) \<and> consumes s r"
proof (induction n arbitrary: d s v vs r acc)
  case (Suc n)
  { case 1
    have hd: "consumes s r" if "head_is c s" "consumes (tl s) r" for c r
      using that by (auto simp: head_is_iff)
    note ok = utf8_ok_skip [OF utf8_ok_tl [OF "1"(2)]]
    from "1"(1) show ?case
    proof (cases rule: scan_InrE)
      case (str t)
      with scanstring_sound [OF str(2) utf8_ok_tl [OF "1"(2)]] hd show ?thesis by auto
    next
      case emptyobj
      with hd consumes_tl show ?thesis by auto
    next
      case obj
      with Suc.IH(3) [OF obj(3) ok] hd consumes_skip show ?thesis by auto
    next
      case emptyarr
      with hd consumes_tl show ?thesis by auto
    next
      case (arr vs)
      with Suc.IH(2) [OF arr(3) ok] hd consumes_skip show ?thesis by auto
    next
      case (lit p k)
      with startswith_consumes [OF lit(1,2)] show ?thesis by (auto simp: float_ok_def)
    next
      case num
      with match_number_sound [OF env] show ?thesis by blast
    qed
  next
    case 2
    from "2"(1) show ?case
    proof (cases rule: elems_InrE)
      case (1 v u)
      with Suc.IH(1) [OF 1(1) "2"(2)] consumes_tl [OF 1(2)] consumes_trans show ?thesis by auto
    next
      case (2 v u vs')
      note v = Suc.IH(1) [OF 2(1) \<open>utf8_ok s\<close>]
      then have "utf8_ok (skip_ws (tl (skip_ws u)))"
        using \<open>utf8_ok s\<close> by (blast intro: utf8_ok_skip utf8_ok_tl consumes_utf8)
      from Suc.IH(2) [OF 2(3) this] have ih: "\<forall>v \<in> set vs'. json_ok env d v" "consumes (tl (skip_ws u)) r"
        by (auto intro: consumes_skip)
      with v consumes_tl [OF 2(2)] consumes_trans 2(4) show ?thesis by (metis set_ConsD)
    qed
  next
    case 3
    from "3"(1) show ?case
    proof (cases rule: members_InrE)
      case (1 k u x w)
      have key: "consumes (tl s) u" "str_ok k"
        using scanstring_sound [OF 1(2) utf8_ok_tl [OF "3"(2)]] by auto
      have s: "consumes s u" using key 1(1) by (auto simp: head_is_iff)
      have u: "consumes u (tl (skip_ws u))" using consumes_tl [OF 1(3)] .
      have "utf8_ok (tl (skip_ws u))" using consumes_utf8 s u \<open>utf8_ok s\<close> by blast
      then have x: "json_ok env d x" "consumes (tl (skip_ws u)) w"
        using Suc.IH(1) [OF 1(4) utf8_ok_skip] consumes_skip by auto
      have sw: "consumes s w" using s u x(2) consumes_trans by blast
      then have okw: "utf8_ok w" using consumes_utf8 \<open>utf8_ok s\<close> by blast
      have acc: "members_ok env d (AList.update k x acc)"
        using "3"(3) key(2) x(1) dict_ok_update_values
            [of acc "\<lambda>kv. str_ok (fst kv) \<and> json_ok env d (snd kv)" k x]
        by (simp add: dict_simps)
      from 1(5) show ?thesis
      proof (elim disjE conjE)
        assume "head_is 125 (skip_ws w)" "v = JObj (AList.update k x acc)" "r = tl (skip_ws w)"
        with acc consumes_tl consumes_trans [OF sw] show ?thesis by blast
      next
        assume c: "head_is 44 (skip_ws w)"
          and m: "members n env d (AList.update k x acc) (skip_ws (tl (skip_ws w))) = Inr (v, r)"
        have "utf8_ok (skip_ws (tl (skip_ws w)))" by (intro utf8_ok_skip utf8_ok_tl okw)
        from Suc.IH(3) [OF m this acc] show ?thesis
          using consumes_trans [OF sw] consumes_trans [OF consumes_tl [OF c]] consumes_skip by blast
      qed
    qed
  }
qed simp_all

end
