(* ===== verification/Py_Json_Loads.thy ===== *)
theory Py_Json_Loads
  imports Py_Json_Roundtrip
begin

text \<open>
  The results about \<open>json.loads\<close> and \<open>json.dumps\<close> that the components use: the fuel is
  enough, so \<open>loads\<close> answers with a value or one of Python's exceptions; the value is well
  formed; and printing and loading again gives it back, in every style.
\<close>

section \<open>The fuel is enough\<close>

lemma scanstring_consumes: "scanstring b s = Inr (t, r) \<Longrightarrow> consumes s r"
proof (induction b s arbitrary: t rule: scanstring.induct)
  case (1 b)
  then show ?case by simp
next
  case (2 b c s)
  consider (quote) "c = 34" | (u) s' where "c = 92" "s = 117 # s'"
    | (esc) e s' where "c = 92" "s = e # s'" "e \<noteq> 117" | (nil) "c = 92" "s = []"
    | (plain) "c \<noteq> 34" "c \<noteq> 92"
    by (cases s) auto
  then show ?case
  proof cases
    case quote
    with "2.prems" show ?thesis by (auto simp: consumes_hd)
  next
    case (u s')
    with "2.prems" obtain x k t' where
      x: "u_escape s' = Inr (x, k)" "scanstring b (drop k s') = Inr (t', r)"
      by (auto simp: rbind_eq_Inr)
    have "consumes (drop k s') r" using "2.IH"(1) [of 117 s' "(x, k)" x k t'] x u by simp
    then have "consumes s' r"
      using consumes_trans [OF consumes_drop] u_escape_sound [OF x(1)] by blast
    with u show ?thesis by auto
  next
    case (esc e s')
    with "2.prems" obtain x t' where "simple_escape e = Some x" "scanstring b s' = Inr (t', r)"
      by (auto simp: rbind_eq_Inr split: option.splits)
    with "2.IH"(2) [of e s' x t'] esc show ?thesis by auto
  next
    case plain
    with "2.prems" obtain t' where "scanstring b s = Inr (t', r)" "\<not> c \<le> 31"
      by (auto simp: rbind_eq_Inr split: if_splits)
    with "2.IH"(3) [of t'] plain show ?thesis by auto
  qed (use 2 in auto)
qed

lemma match_number_consumes: "match_number env s = Inr (v, r) \<Longrightarrow> consumes s r"
proof -
  assume m: "match_number env s = Inr (v, r)"
  have "float_env (env\<lparr>float_text := (\<lambda>_. U ''NaN'')\<rparr>)"
    by (simp add: float_env_def float_ok_def float_const_def)
  moreover obtain v' where "match_number (env\<lparr>float_text := (\<lambda>_. U ''NaN'')\<rparr>) s = Inr (v', r)"
    using m by (auto simp: match_number_def Let_def split: option.splits prod.splits if_splits)
  ultimately show ?thesis using match_number_sound by blast
qed

lemma scan_consumes:
  shows "scan n env d s = Inr (v, r) \<Longrightarrow> consumes s r"
    and "elems n env d s = Inr (vs, r) \<Longrightarrow> consumes s r"
    and "members n env d acc s = Inr (v, r) \<Longrightarrow> consumes s r"
proof (induction n arbitrary: d s v vs r acc)
  case (Suc n)
  { case 1
    have hd: "consumes s r" if "head_is c s" "consumes (skip_ws (tl s)) r" for c r
      using that consumes_skip by (auto simp: head_is_iff)
    have hd0: "consumes s r" if "head_is c s" "consumes (tl s) r" for c r
      using that by (auto simp: head_is_iff)
    from 1 show ?case
    proof (cases rule: scan_InrE)
      case (str t)
      with hd0 scanstring_consumes show ?thesis by blast
    next
      case emptyobj
      with hd0 consumes_tl show ?thesis by blast
    next
      case obj
      with Suc.IH(3) hd show ?thesis by blast
    next
      case emptyarr
      with hd0 consumes_tl show ?thesis by blast
    next
      case (arr vs)
      with Suc.IH(2) hd show ?thesis by blast
    next
      case (lit p k)
      with startswith_consumes show ?thesis by blast
    next
      case num
      with match_number_consumes show ?thesis by blast
    qed
  next
    case 2
    from 2 show ?case
    proof (cases rule: elems_InrE)
      case (1 v u)
      with Suc.IH(1) consumes_tl consumes_trans show ?thesis by blast
    next
      case (2 v u vs')
      with Suc.IH(1,2) consumes_tl consumes_trans consumes_skip show ?thesis by meson
    qed
  next
    case 3
    from 3 show ?case
    proof (cases rule: members_InrE)
      case (1 k u x w)
      have "consumes (tl s) u" using scanstring_consumes [OF 1(2)] .
      with 1(1) have "consumes s u" by (auto simp: head_is_iff)
      moreover have "consumes u w"
        using consumes_trans [OF consumes_tl [OF 1(3)] consumes_skip [OF Suc.IH(1) [OF 1(4)]]] .
      ultimately have w: "consumes s w" by (rule consumes_trans)
      from 1(5) show ?thesis
      proof (elim disjE conjE)
        assume "head_is 125 (skip_ws w)" "r = tl (skip_ws w)"
        with consumes_tl consumes_trans [OF w] show ?thesis by blast
      next
        assume c: "head_is 44 (skip_ws w)"
          and m: "members n env d (AList.update k x acc) (skip_ws (tl (skip_ws w))) = Inr (v, r)"
        show ?thesis
          using consumes_trans [OF w consumes_trans [OF consumes_tl [OF c] consumes_skip [OF Suc.IH(3) [OF m]]]] .
      qed
    qed
  }
qed simp_all

lemma scanstring_not_fuel: "scanstring b s \<noteq> Inl OutOfFuel"
proof (induction b s rule: scanstring.induct)
  case (2 b c s)
  have "u_escape s' \<noteq> Inl OutOfFuel" for s'
    by (auto simp: u_escape_def split: option.splits)
  with 2 show ?case
    by (auto simp: rbind_eq_Inl split: list.splits option.splits if_splits)
qed simp

lemma match_number_not_fuel: "match_number env s \<noteq> Inl OutOfFuel"
  by (auto simp: match_number_def Let_def split: option.splits prod.splits)

lemma scan_fuel:
  shows "2 * length s + 1 \<le> n \<Longrightarrow> scan n env d s \<noteq> Inl OutOfFuel"
    and "2 * length s + 2 \<le> n \<Longrightarrow> elems n env d s \<noteq> Inl OutOfFuel"
    and "2 * length s + 2 \<le> n \<Longrightarrow> members n env d acc s \<noteq> Inl OutOfFuel"
proof (induction n arbitrary: d s acc)
  case (Suc n)
  have short: "2 * length (skip_ws (tl s)) + 2 \<le> n" if "s \<noteq> []" "2 * length s + 1 \<le> Suc n" for s
    using that length_skip_ws [of "tl s"] by (cases s) auto
  have less: "2 * length (skip_ws (tl w)) + 2 \<le> n"
    if "consumes s u" "w = skip_ws u" "2 * length s + 2 \<le> Suc n" for s u w
    using that length_skip_ws [of "tl w"] length_skip_ws [of u] consumes_length [of s u]
    by (cases w) auto
  { case 1
    have "elems n env (d - 1) (skip_ws (tl s)) \<noteq> Inl OutOfFuel"
      "members n env (d - 1) [] (skip_ws (tl s)) \<noteq> Inl OutOfFuel" if "s \<noteq> []"
      using Suc.IH(2,3) [OF short [OF that 1]] by auto
    then show ?case
      using scanstring_not_fuel match_number_not_fuel by (auto simp: rbind_eq_Inl)
  next
    case 2
    then have v: "scan n env d s \<noteq> Inl OutOfFuel" using Suc.IH(1) by simp
    have "elems n env d (skip_ws (tl (skip_ws u))) \<noteq> Inl OutOfFuel" if "scan n env d s = Inr (x, u)" for x u
      using Suc.IH(2) [OF less [OF scan_consumes(1) [OF that] refl 2]] .
    with v show ?case by (auto simp: rbind_eq_Inl Let_def split: if_splits)
  next
    case 3
    show ?case
    proof
      assume f: "members (Suc n) env d acc s = Inl OutOfFuel"
      then obtain k u where k: "head_is 34 s" "scanstring (length s) (tl s) = Inr (k, u)" "head_is 58 (skip_ws u)"
        and f: "rbind (scan n env d (skip_ws (tl (skip_ws u)))) (\<lambda>(v, r2).
              let w = skip_ws r2; acc' = AList.update k v acc in
              if head_is 125 w then Inr (JObj acc', tl w)
              else if head_is 44 w then
                (if head_is 125 (skip_ws (tl w)) then jerr TrailingCommaObject w
                 else members n env d acc' (skip_ws (tl w)))
              else jerr ExpectingComma w) = Inl OutOfFuel"
        by (auto simp: rbind_eq_Inl Let_def scanstring_not_fuel split: if_splits)
      have su: "consumes s u" using k scanstring_consumes by (auto simp: head_is_iff)
      have "2 * length (skip_ws (tl (skip_ws u))) + 1 \<le> n" using less [OF su refl 3] by simp
      then obtain x w where xw: "scan n env d (skip_ws (tl (skip_ws u))) = Inr (x, w)"
        using f Suc.IH(1) by (cases "scan n env d (skip_ws (tl (skip_ws u)))") auto
      have "consumes s w"
        using consumes_trans [OF su consumes_trans [OF consumes_tl [OF k(3)] consumes_skip [OF scan_consumes(1) [OF xw]]]] .
      from Suc.IH(3) [OF less [OF this refl 3]] f xw show False
        by (auto simp: Let_def split: if_splits)
    qed
  }
qed simp_all

section \<open>Results of loads\<close>

text \<open>\<open>loads\<close> by the outcome of its scan.\<close>

lemma loads_cases:
  obtains (bom) "loads env s = Inl (JSONDecodeError UnexpectedBOM 0)" "head_is 0xFEFF s"
    | (err) e where "scan (scan_fuel_for s) env (scan_depth env) (skip_ws s) = Inl e"
        "loads env s = Inl (case e of JSONDecodeError m k \<Rightarrow> JSONDecodeError m (length s - k) | e \<Rightarrow> e)"
    | (val) v r where "scan (scan_fuel_for s) env (scan_depth env) (skip_ws s) = Inr (v, r)"
        "\<not> head_is 0xFEFF s"
        "loads env s = (if skip_ws r = [] then Inr v
           else Inl (JSONDecodeError ExtraData (length s - length (skip_ws r))))"
proof (cases "head_is 0xFEFF s")
  case True
  with bom show ?thesis by (simp add: loads_def)
next
  case False
  show ?thesis
  proof (cases "scan (scan_fuel_for s) env (scan_depth env) (skip_ws s)")
    case (Inl e)
    with False err show ?thesis by (cases e) (simp_all add: loads_def)
  next
    case (Inr p)
    with False val show ?thesis by (cases p) (simp add: loads_def)
  qed
qed

lemma loads_not_fuel: "loads env s \<noteq> Inl OutOfFuel"
proof -
  have "2 * length (skip_ws s) + 1 \<le> scan_fuel_for s"
    using length_skip_ws [of s] by (simp add: scan_fuel_for_def)
  then have "scan (scan_fuel_for s) env (scan_depth env) (skip_ws s) \<noteq> Inl OutOfFuel"
    by (rule scan_fuel(1))
  then show ?thesis
    by (cases rule: loads_cases [of env s]) (auto split: json_exc.splits)
qed

lemma loads_ok:
  assumes "float_env env" "utf8_ok s" "loads env s = Inr v"
  shows "json_ok env (scan_depth env) v"
proof (cases rule: loads_cases [of env s])
  case (val w r)
  with assms(3) have "w = v" by (simp split: if_splits)
  with val(1) scan_sound(1) [OF assms(1)] utf8_ok_skip [OF assms(2)] show ?thesis by blast
qed (use assms(3) in simp_all)

lemma loads_dump:
  assumes "style_ok st" "json_ok env (scan_depth env) v"
  shows "loads env (dump st l v) = Inr v"
proof -
  obtain c t where d: "dump st l v = c # t" "value_head c" using dump_head [OF assms(2)] by metis
  have "scan (scan_fuel_for (dump st l v)) env (scan_depth env) (dump st l v @ []) = Inr (v, [])"
    by (rule scans_backD [OF scan_dump [OF assms(1)] assms(2)]) (simp_all add: scan_fuel_for_def)
  moreover have "skip_ws (dump st l v) = dump st l v" "\<not> head_is 0xFEFF (dump st l v)"
    using d by auto
  ultimately show ?thesis
    by (cases rule: loads_cases [of env "dump st l v"]) simp_all
qed

section \<open>Round trips as codecs\<close>

text \<open>
  Each style of printing with \<open>loads\<close> is a codec on well-formed values, for an environment
  whose scanner nests as deep as the value.
\<close>

definition loads_opt :: "py_env \<Rightarrow> ustr \<Rightarrow> json option" where
  "loads_opt env s = (case loads env s of Inl _ \<Rightarrow> None | Inr v \<Rightarrow> Some v)"

interpretation json_compact: codec "dump compact_style l" "loads_opt env" "json_ok env (scan_depth env)"
  for l env
  by unfold_locales (simp add: loads_opt_def loads_dump style_ok_compact)

interpretation json_default: codec "dump default_style l" "loads_opt env" "json_ok env (scan_depth env)"
  for l env
  by unfold_locales (simp add: loads_opt_def loads_dump style_ok_default)

interpretation json_pretty: codec "dump (indent_style esc_plain k) l" "loads_opt env"
    "json_ok env (scan_depth env)" for k l env
  by unfold_locales
     (simp add: loads_opt_def loads_dump style_ok_indent plain.string_escape_axioms)

lemma style_ok_pretty: "style_ok (indent_style esc_plain k)"
  by (rule style_ok_indent) (rule plain.string_escape_axioms)

lemma style_ok_ascii_indent: "style_ok (indent_style esc_ascii k)"
  by (rule style_ok_indent) (rule ascii.string_escape_axioms)

section \<open>Evaluating loads on a concrete text\<close>

text \<open>
  Used as \<open>simp add: json_eval cong: json_eval_cong\<close>: fuel written as a numeral is unfolded
  and the continuation of a step is left alone until the step has its value.
\<close>

lemma rbind_weak_cong: "m = m' \<Longrightarrow> rbind m f = rbind m' f"
  by simp

lemmas json_eval_cong = rbind_weak_cong let_weak_cong

lemmas json_fuel =
  scan.simps(2) [of "pred_numeral k", folded numeral_eq_Suc]
  elems.simps(2) [of "pred_numeral k", folded numeral_eq_Suc]
  members.simps(2) [of "pred_numeral k", folded numeral_eq_Suc] for k

lemmas json_eval = json_fuel loads_def scan_fuel_for_def skip_ws_def is_ws_def U_def Let_def
  is_digit_def match_number_def dec_value_def max_int_digits_def

text \<open>The environment of the witnesses: fifty levels, and \<open>1.5\<close> the only float.\<close>

definition sample_env :: py_env where
  "sample_env = \<lparr>float_text = (\<lambda>_. U ''1.5''), scan_depth = 50, c_enc_depth = 50, py_enc_depth = 40\<rparr>"

lemma sample_env_simps [simp]:
  "scan_depth sample_env = 50" "c_enc_depth sample_env = 50" "py_enc_depth sample_env = 40"
  "float_text sample_env t = U ''1.5''"
  by (simp_all add: sample_env_def)

lemma sample_env_float [simp]: "float_env sample_env"
  by (simp add: float_env_def float_ok_def float_lexeme_def U_def is_digit_def Let_def)

end
