(* ===== verification/Py_Json_Text.thy ===== *)
theory Py_Json_Text
  imports Py_Json_Loads
begin

text \<open>
  Which characters a printed JSON value has: with the escapes of \<open>ensure_ascii\<close> only ASCII
  (so the text can be a request parameter and always encodes), without them the characters
  of its strings. Used where a text is encoded, sent or measured. Also the truth of a JSON value.
\<close>

text \<open>Truth of a JSON value in a Python condition; zero is printed \<open>0.0\<close> or \<open>-0.0\<close>.\<close>

fun truthy :: "json \<Rightarrow> bool" where
  "truthy JNull = False"
| "truthy (JBool b) = b"
| "truthy (JInt i) = (i \<noteq> 0)"
| "truthy (JFloat t) = (t \<noteq> U ''0.0'' \<and> t \<noteq> U ''-0.0'')"
| "truthy (JStr s) = (s \<noteq> [])"
| "truthy (JArr vs) = (vs \<noteq> [])"
| "truthy (JObj ms) = (ms \<noteq> [])"

fun json_chars :: "(nat \<Rightarrow> bool) \<Rightarrow> json \<Rightarrow> bool" where
  "json_chars P (JStr s) = (\<forall>c \<in> set s. P c)"
| "json_chars P (JFloat t) = (\<forall>c \<in> set t. c < 128)"
| "json_chars P (JArr vs) = (\<forall>v \<in> set vs. json_chars P v)"
| "json_chars P (JObj ms) = (\<forall>kv \<in> set ms. (\<forall>c \<in> set (fst kv). P c) \<and> json_chars P (snd kv))"
| "json_chars P _ = True"

lemma set_join: "c \<in> set (join sep xs) \<Longrightarrow> c \<in> set sep \<or> (\<exists>x \<in> set xs. c \<in> set x)"
  by (induction sep xs rule: join.induct) auto

lemma int_text_ascii: "c \<in> set (int_text i) \<Longrightarrow> c < 128"
  by (auto simp: int_text_def is_digit_def split: if_splits dest!: dec_digits)

lemma blank_ascii: "blank w \<Longrightarrow> c \<in> set w \<Longrightarrow> c < 128"
  by (auto simp: blank_def is_ws_def)

lemma style_ascii:
  assumes "style_ok st"
  shows "c \<in> set (item_sep st l) \<Longrightarrow> c < 128" "c \<in> set (key_sep st) \<Longrightarrow> c < 128"
    "c \<in> set (open_txt st l) \<Longrightarrow> c < 128" "c \<in> set (close_txt st l) \<Longrightarrow> c < 128"
proof -
  obtain w k where w: "item_sep st l = 44 # w" "blank w" "key_sep st = 58 # k" "blank k"
    "blank (open_txt st l)" "blank (close_txt st l)" using assms unfolding style_ok_def by blast
  show "c \<in> set (item_sep st l) \<Longrightarrow> c < 128" using w(1) blank_ascii [OF w(2)] by auto
  show "c \<in> set (key_sep st) \<Longrightarrow> c < 128" using w(3) blank_ascii [OF w(4)] by auto
  show "c \<in> set (open_txt st l) \<Longrightarrow> c < 128" by (rule blank_ascii [OF w(5)])
  show "c \<in> set (close_txt st l) \<Longrightarrow> c < 128" by (rule blank_ascii [OF w(6)])
qed

lemma dump_chars:
  assumes st: "style_ok st" and low: "\<And>c. c < 128 \<Longrightarrow> Q c"
    and esc: "\<And>x c. P x \<Longrightarrow> c \<in> set (esc st x) \<Longrightarrow> Q c"
  shows "json_chars P v \<Longrightarrow> \<forall>c \<in> set (dump st l v). Q c"
proof (induction v arbitrary: l)
  case (JStr s)
  then show ?case using low esc by (auto simp: quoted_def)
next
  case (JArr vs)
  have "Q c" if "c \<in> set (join (item_sep st l) (map (dump st (Suc l)) vs))" for c
    using set_join [OF that] JArr low style_ascii(1) [OF st] by auto
  then show ?case using low style_ascii(3,4) [OF st] by auto
next
  case (JObj ms)
  have q: "Q c" if "kv \<in> set ms" "c \<in> set (quoted st (fst kv))" for kv c
  proof -
    have "\<forall>x \<in> set (fst kv). P x" using that(1) JObj.prems by auto
    then show ?thesis using that(2) low esc by (auto simp: quoted_def)
  qed
  have d: "Q c" if "kv \<in> set ms" "c \<in> set (dump st (Suc l) (snd kv))" for kv c
  proof -
    have "json_chars P (snd kv)" using that(1) JObj.prems by auto
    then show ?thesis using JObj.IH [OF that(1) snds.intros, of "Suc l"] that(2) by blast
  qed
  have "Q c" if "c \<in> set (join (item_sep st l) (map (member_text st (Suc l)) ms))" for c
    using set_join [OF that] q d low style_ascii(1,2) [OF st] by auto
  then show ?case using low style_ascii(3,4) [OF st] by auto
qed (auto simp: U_def low intro!: low int_text_ascii)

lemma hexchar_ascii: "v < 16 \<Longrightarrow> hexchar v < 128"
  by (simp add: hexchar_def)

lemma u4_ascii: "c \<in> set (u4 n) \<Longrightarrow> c < 128"
  by (auto simp: u4_def intro!: hexchar_ascii)

lemma esc_ascii_ascii: "c \<in> set (esc_ascii x) \<Longrightarrow> c < 128"
  by (auto simp: esc_ascii_def split: if_splits dest: u4_ascii)

lemma esc_plain_chars: "c \<in> set (esc_plain x) \<Longrightarrow> c < 128 \<or> c = x"
  by (auto simp: esc_plain_def split: if_splits dest: u4_ascii)

lemma takeWhile_digit: "c \<in> set (takeWhile is_digit s) \<Longrightarrow> c < 128"
  by (auto dest!: set_takeWhileD simp: is_digit_def)

lemma int_part_ascii: "int_part s = Some (p, r) \<Longrightarrow> s = p @ r \<and> (\<forall>c \<in> set p. c < 128)"
  by (cases s) (auto simp: is_digit_def dest: takeWhile_digit split: if_splits)

lemma frac_part_ascii: "frac_part s = (p, r) \<Longrightarrow> s = p @ r \<and> (\<forall>c \<in> set p. c < 128)"
  by (cases s rule: frac_part.cases) (auto simp: is_digit_def dest: takeWhile_digit split: if_splits)

lemma exp_part_ascii:
  assumes "exp_part s = (p, r)"
  shows "s = p @ r \<and> (\<forall>c \<in> set p. c < 128)"
proof (cases s)
  case (Cons e t)
  obtain sg u where u: "(if head_is 43 t \<or> head_is 45 t then (take 1 t, drop 1 t) else ([], t)) = (sg, u)"
    by (cases "if head_is 43 t \<or> head_is 45 t then (take 1 t, drop 1 t) else ([], t)")
  then have "t = sg @ u" "\<forall>c \<in> set sg. c < 128" by (cases t; auto split: if_splits)+
  with u assms Cons show ?thesis by (auto dest: takeWhile_digit split: if_splits)
qed (use assms in simp)

lemma float_lexeme_ascii: "float_lexeme t \<Longrightarrow> \<forall>c \<in> set t. c < 128"
proof -
  assume t: "float_lexeme t"
  define u where "u = (if head_is 45 t then tl t else t)"
  from t obtain ip r1 fp r2 ep where p: "int_part u = Some (ip, r1)" "frac_part r1 = (fp, r2)"
    "exp_part r2 = (ep, [])"
    by (auto simp: float_lexeme_def u_def [symmetric] split: option.splits prod.splits)
  have "\<forall>c \<in> set u. c < 128"
    using int_part_ascii [OF p(1)] frac_part_ascii [OF p(2)] exp_part_ascii [OF p(3)] by auto
  then show ?thesis by (cases t) (auto simp: u_def split: if_splits)
qed

lemma json_ok_chars: "json_ok env d v \<Longrightarrow> json_chars (\<lambda>_. True) v"
proof (induction env d v rule: json_ok.induct)
  case (2 env d t)
  then show ?case using float_lexeme_ascii [of t] by (auto simp: float_ok_def float_const_def U_def)
qed auto

lemma dump_ascii:
  assumes "style_ok st" "esc st = esc_ascii" "json_ok env d v"
  shows "\<forall>c \<in> set (dump st l v). c < 128"
  using dump_chars [OF assms(1) _ _ json_ok_chars [OF assms(3)], of "\<lambda>c. c < 128"] esc_ascii_ascii
  by (auto simp: assms(2))

lemma ascii_utf8: "\<forall>c \<in> set s. c < 128 \<Longrightarrow> utf8_ok s"
  by (auto simp: utf8_ok_def is_surrogate_def)

lemma utf8_encode_ascii: "\<forall>c \<in> set s. c < 128 \<Longrightarrow> utf8_encode s = Some (map byte s)"
  by (induction s) (auto simp: utf8_char_def)

lemma dump_utf8:
  assumes "style_ok st" "esc st = esc_plain" "json_chars (\<lambda>c. utf8_ok [c]) v"
  shows "utf8_ok (dump st l v)"
proof -
  have "utf8_ok [c]" if "c < 128" for c using that by (intro ascii_utf8) simp
  moreover have "utf8_ok [c]" if "utf8_ok [x]" "c \<in> set (esc st x)" for x c
    using esc_plain_chars [of c x] that(2) that(1) calculation by (auto simp: assms(2))
  ultimately have "\<forall>c \<in> set (dump st l v). utf8_ok [c]"
    using dump_chars [OF assms(1) _ _ assms(3), of "\<lambda>c. utf8_ok [c]"] by blast
  then show ?thesis by (simp add: utf8_ok_def)
qed

end
