(* ===== verification/Client_Claims.thy ===== *)
theory Client_Claims
  imports Complex_Main Py_Json_Text
begin

text \<open>
  The claims part of the test client (test-client/app.py): the module's limits and
  \<open>DEFAULT_CLAIMS\<close>, \<open>pretty_json\<close>, \<open>decoded_access_token\<close> and \<open>parse_claims\<close>.

  Proved: exactly which form texts \<open>parse_claims\<close> accepts and what it reports for the others,
  that an accepted object survives the two texts the client makes of it, that
  the default request is one the client itself accepts, and that the access-token view shows
  the payload the issuer encoded and nothing for any other token.
\<close>

section \<open>Settings and printing\<close>

definition CACHE_TTL_SECONDS :: rat where
  "CACHE_TTL_SECONDS = 15 * 60"

definition default_detail :: json where
  "default_detail =
     JObj [(U ''essential'', JBool True),
           (U ''amr_identifier'', JObj [(U ''value'', JStr (U ''pwd''))]),
           (U ''amr_metadata'', JObj [(U ''time'', JObj [(U ''essential'', JBool True)])]),
           (U ''amr_properties'', JObj [(U ''pwd_derivation_algorithm'', JNull)])]"

definition DEFAULT_CLAIMS :: "(ustr, json) dict" where
  "DEFAULT_CLAIMS =
     [(U ''id_token'', JObj [(U ''amr_details'', default_detail)]),
      (U ''userinfo'', JObj [(U ''amr_details'', default_detail)])]"

definition pretty_json :: "py_env \<Rightarrow> json \<Rightarrow> json_exc + ustr" where
  "pretty_json env value = dumps_indent env esc_plain 2 value"

section \<open>The access-token view\<close>

text \<open>
  \<open>token.split(".", 2)[1]\<close> for a text with two dots. The three exceptions of the handler
  are \<open>ValueError\<close> and two of its subclasses; a \<open>RecursionError\<close> is not among them.
\<close>

definition jwt_payload :: "ustr \<Rightarrow> ustr option" where
  "jwt_payload t = Option.bind (split_first 46 t) (\<lambda>(_, rest). map_option fst (split_first 46 rest))"

definition decoded_access_token :: "py_env \<Rightarrow> json \<Rightarrow> json_exc + (ustr, json) dict" where
  "decoded_access_token env token =
     (case token of
        JStr t \<Rightarrow>
          (if count_list t 46 \<noteq> 2 then Inr []
           else (case jwt_payload t of
               None \<Rightarrow> Inr []
             | Some payload \<Rightarrow>
                 (case Option.bind (urlsafe_b64decode (payload @ b64_padding payload)) utf8_decode of
                    None \<Rightarrow> Inr []
                  | Some s \<Rightarrow>
                      (case loads env s of
                         Inr (JObj ms) \<Rightarrow> Inr ms
                       | Inr _ \<Rightarrow> Inr []
                       | Inl RecursionError \<Rightarrow> Inl RecursionError
                       | Inl _ \<Rightarrow> Inr []))))
      | _ \<Rightarrow> Inr [])"

section \<open>Parsing the form\<close>

text \<open>
  \<open>ClaimsValidationError\<close> with its message is what the handlers catch. The other two leave
  the handler: \<open>UnicodeEncodeError\<close> of \<open>str.encode\<close>, and the exceptions of \<open>json.loads\<close>
  that are no \<open>JSONDecodeError\<close>.
\<close>

datatype claims_exc = ClaimsValidationError ustr | UnicodeEncodeError | JsonFailure json_exc

definition msg_missing :: ustr where
  "msg_missing = U ''Provide a Claim Request Object before starting authorization.''"

definition msg_too_long :: ustr where
  "msg_too_long = U ''The Claim Request Object is limited to 64 KB in this local lab.''"

definition msg_not_json :: "nat \<Rightarrow> nat \<Rightarrow> ustr" where
  "msg_not_json line col =
     U ''The Claim Request Object is not valid JSON (line '' @ dec line @ U '', column ''
       @ dec col @ U '').''"

definition msg_not_object :: ustr where
  "msg_not_object = U ''The Claim Request Object must be a top-level JSON object.''"

definition parse_claims :: "py_env \<Rightarrow> ustr option \<Rightarrow> claims_exc + (ustr, json) dict" where
  "parse_claims env raw_claims =
     (case raw_claims of
        None \<Rightarrow> Inl (ClaimsValidationError msg_missing)
      | Some raw \<Rightarrow>
          (if strip raw = [] then Inl (ClaimsValidationError msg_missing)
           else (case utf8_encode raw of
               None \<Rightarrow> Inl UnicodeEncodeError
             | Some bs \<Rightarrow>
                 (if length bs > 64000 then Inl (ClaimsValidationError msg_too_long)
                  else (case loads env raw of
                      Inl (JSONDecodeError m pos) \<Rightarrow>
                        Inl (ClaimsValidationError (msg_not_json (lineno raw pos) (colno raw pos)))
                    | Inl e \<Rightarrow> Inl (JsonFailure e)
                    | Inr (JObj ms) \<Rightarrow> Inr ms
                    | Inr _ \<Rightarrow> Inl (ClaimsValidationError msg_not_object))))))"

section \<open>Lemmas\<close>

lemma parse_claims_InrD:
  assumes "parse_claims env raw = Inr ms"
  obtains s bs where "raw = Some s" "utf8_encode s = Some bs" "length bs \<le> 64000"
    "loads env s = Inr (JObj ms)" "strip s \<noteq> []"
  using assms
  by (auto simp: parse_claims_def split: option.splits if_splits sum.splits json_exc.splits json.splits)

lemma parse_claims_ok:
  assumes "parse_claims env raw = Inr ms" "float_env env"
  shows "json_ok env (scan_depth env) (JObj ms)"
  using assms by (metis parse_claims_InrD loads_ok utf8_encode_ok)

lemma parse_claims_Some:
  assumes "strip s \<noteq> []" "utf8_encode s = Some bs" "length bs \<le> 64000"
  shows "parse_claims env (Some s) =
     (case loads env s of
        Inl (JSONDecodeError m pos) \<Rightarrow>
          Inl (ClaimsValidationError (msg_not_json (lineno s pos) (colno s pos)))
      | Inl e \<Rightarrow> Inl (JsonFailure e)
      | Inr (JObj ms) \<Rightarrow> Inr ms
      | Inr _ \<Rightarrow> Inl (ClaimsValidationError msg_not_object))"
  using assms by (simp add: parse_claims_def)

lemma count_dots:
  assumes "46 \<notin> set h" "46 \<notin> set p" "46 \<notin> set q"
  shows "count_list (h @ 46 # p @ 46 # q) 46 = 2"
  using assms by (simp add: count_list_append count_notin)

lemma jwt_payload_parts [simp]:
  "46 \<notin> set h \<Longrightarrow> 46 \<notin> set p \<Longrightarrow> jwt_payload (h @ 46 # p @ 46 # q) = Some p"
  by (simp add: jwt_payload_def)

lemma jwt_two_dots:
  assumes "count_list t 46 = 2"
  obtains h p q where "t = h @ 46 # p @ 46 # q" "46 \<notin> set h" "46 \<notin> set p" "46 \<notin> set q"
proof -
  from assms obtain h r where h: "t = h @ 46 # r" "46 \<notin> set h"
    by (metis count_notin split_list_first zero_neq_numeral)
  with assms have r: "count_list r 46 = 1" by (simp add: count_list_append count_notin)
  then obtain p q where p: "r = p @ 46 # q" "46 \<notin> set p"
    by (metis count_notin split_list_first zero_neq_one)
  with r have "count_list q 46 = 0" by (simp add: count_list_append count_notin)
  with h p that show thesis by (simp add: count_list_0_iff)
qed

text \<open>The first index of a line, counted as \<open>lineno\<close> counts.\<close>

fun line_start :: "ustr \<Rightarrow> nat \<Rightarrow> nat" where
  "line_start [] n = 0"
| "line_start (c # s) n =
     (if n \<le> 1 then 0 else Suc (line_start s (if c = 10 then n - 1 else n)))"

lemma colno_Cons:
  "colno (c # s) (Suc p) =
     (if 10 \<in> set (take p s) then colno s p else if c = 10 then colno s p else Suc (colno s p))"
proof (cases "10 \<in> set (take p s)")
  case True
  then show ?thesis by (simp add: colno_def takeWhile_append1)
next
  case False
  then have t1: "takeWhile (\<lambda>c. c \<noteq> 10) (rev (take p s)) = rev (take p s)"
    by (subst takeWhile_eq_all_conv) auto
  have t2: "takeWhile (\<lambda>c. c \<noteq> 10) (rev (take p s) @ [c])
      = rev (take p s) @ takeWhile (\<lambda>c. c \<noteq> 10) [c]"
    using False by (intro takeWhile_append2) auto
  show ?thesis
    unfolding colno_def by (simp only: take_Suc_Cons rev.simps t1 t2) (use False in simp)
qed

lemma line_start_colno:
  "p \<le> length s \<Longrightarrow> line_start s (lineno s p) + (colno s p - 1) = p"
proof (induction s arbitrary: p)
  case Nil
  then show ?case by (simp add: colno_def)
next
  case (Cons c s)
  show ?case
  proof (cases p)
    case 0
    then show ?thesis by (simp add: colno_def lineno_def)
  next
    case (Suc q)
    with Cons have ih: "line_start s (lineno s q) + (colno s q - 1) = q" by simp
    have l: "lineno (c # s) (Suc q) = (if c = 10 then Suc (lineno s q) else lineno s q)"
      by (simp add: lineno_def)
    have one: "lineno s q = 1 \<longleftrightarrow> 10 \<notin> set (take q s)" "1 \<le> lineno s q" "1 \<le> colno s q"
      by (simp_all add: lineno_def colno_def count_list_0_iff)
    have z: "line_start s 1 = 0" by (cases s) simp_all
    show ?thesis
      using ih one z by (auto simp: Suc l colno_Cons)
  qed
qed

lemma loads_error_pos: "loads env s = Inl (JSONDecodeError m p) \<Longrightarrow> p \<le> length s"
  by (cases rule: loads_cases [of env s]) (auto split: json_exc.splits if_splits)

lemma DEFAULT_CLAIMS_ok: "6 \<le> d \<Longrightarrow> json_ok env d (JObj DEFAULT_CLAIMS)"
  by (simp add: DEFAULT_CLAIMS_def default_detail_def dict_ok_def str_ok_def U_def no_pair.simps
      is_high_def is_low_def)

lemma messages_differ:
  "msg_not_json l c \<noteq> msg_missing" "msg_missing \<noteq> msg_not_json l c"
  "msg_not_json l c \<noteq> msg_too_long" "msg_too_long \<noteq> msg_not_json l c"
  "msg_missing \<noteq> msg_too_long" "msg_too_long \<noteq> msg_missing"
  "msg_not_object \<noteq> msg_missing" "msg_missing \<noteq> msg_not_object"
  "msg_not_object \<noteq> msg_too_long" "msg_too_long \<noteq> msg_not_object"
  by (simp_all add: msg_not_json_def msg_missing_def msg_too_long_def msg_not_object_def U_def)

section \<open>Properties\<close>

text \<open>C8: the form is accepted exactly when the text has a character that is
  not white space, its UTF-8 encoding has at most 64,000 bytes and it is JSON for an object;
  the result is that object.\<close>

theorem parse_claims_accepts:
  "parse_claims env raw = Inr ms \<longleftrightarrow>
     (\<exists>s bs. raw = Some s \<and> (\<exists>c \<in> set s. \<not> is_space c) \<and> utf8_encode s = Some bs
        \<and> length bs \<le> 64000 \<and> loads env s = Inr (JObj ms))"
proof
  assume "parse_claims env raw = Inr ms"
  then show "\<exists>s bs. raw = Some s \<and> (\<exists>c \<in> set s. \<not> is_space c) \<and> utf8_encode s = Some bs
        \<and> length bs \<le> 64000 \<and> loads env s = Inr (JObj ms)"
    by (elim parse_claims_InrD) (auto simp: strip_empty_iff)
next
  assume "\<exists>s bs. raw = Some s \<and> (\<exists>c \<in> set s. \<not> is_space c) \<and> utf8_encode s = Some bs
        \<and> length bs \<le> 64000 \<and> loads env s = Inr (JObj ms)"
  then show "parse_claims env raw = Inr ms"
    using strip_empty_iff by (force simp: parse_claims_Some)
qed

text \<open>C16: the error the user sees is the right one. A missing or blank
  text asks for a request object, an oversized one names the limit, JSON that is not an object
  is named as such, and a syntax error gives a line and column that locate the very index
  at which the JSON scanner stopped.\<close>

theorem parse_claims_message:
  assumes "\<forall>s. raw = Some s \<longrightarrow> utf8_ok s"
  shows "(parse_claims env raw = Inl (ClaimsValidationError msg_missing)
            \<longleftrightarrow> raw = None \<or> (\<exists>s. raw = Some s \<and> (\<forall>c \<in> set s. is_space c)))
    \<and> (parse_claims env raw = Inl (ClaimsValidationError msg_too_long)
            \<longleftrightarrow> (\<exists>s bs. raw = Some s \<and> (\<exists>c \<in> set s. \<not> is_space c) \<and> utf8_encode s = Some bs
                   \<and> 64000 < length bs))
    \<and> (\<forall>s bs m pos. raw = Some s \<longrightarrow> strip s \<noteq> [] \<longrightarrow> utf8_encode s = Some bs \<longrightarrow> length bs \<le> 64000 \<longrightarrow>
          loads env s = Inl (JSONDecodeError m pos) \<longrightarrow>
          (\<exists>line col. parse_claims env raw = Inl (ClaimsValidationError (msg_not_json line col))
             \<and> 1 \<le> line \<and> 1 \<le> col \<and> line_start s line + (col - 1) = pos \<and> pos \<le> length s))
    \<and> (\<forall>s bs v. raw = Some s \<longrightarrow> strip s \<noteq> [] \<longrightarrow> utf8_encode s = Some bs \<longrightarrow> length bs \<le> 64000 \<longrightarrow>
          loads env s = Inr v \<longrightarrow> (\<forall>ms. v \<noteq> JObj ms) \<longrightarrow>
          parse_claims env raw = Inl (ClaimsValidationError msg_not_object))"
proof (intro conjI allI impI)
  show "parse_claims env raw = Inl (ClaimsValidationError msg_missing)
            \<longleftrightarrow> raw = None \<or> (\<exists>s. raw = Some s \<and> (\<forall>c \<in> set s. is_space c))"
    using messages_differ by (auto simp: parse_claims_def strip_empty_iff
        split: option.splits if_splits sum.splits json_exc.splits json.splits)
  show "parse_claims env raw = Inl (ClaimsValidationError msg_too_long)
            \<longleftrightarrow> (\<exists>s bs. raw = Some s \<and> (\<exists>c \<in> set s. \<not> is_space c) \<and> utf8_encode s = Some bs
                   \<and> 64000 < length bs)"
    using messages_differ by (auto simp: parse_claims_def strip_empty_iff
        split: option.splits if_splits sum.splits json_exc.splits json.splits)
next
  fix s bs m pos
  assume "raw = Some s" "strip s \<noteq> []" "utf8_encode s = Some bs" "length bs \<le> 64000"
    and l: "loads env s = Inl (JSONDecodeError m pos)"
  then have "parse_claims env raw = Inl (ClaimsValidationError (msg_not_json (lineno s pos) (colno s pos)))"
    by (simp add: parse_claims_Some)
  moreover have "pos \<le> length s" using l by (rule loads_error_pos)
  moreover have "1 \<le> lineno s pos" "1 \<le> colno s pos" by (simp_all add: lineno_def colno_def)
  ultimately show "\<exists>line col. parse_claims env raw = Inl (ClaimsValidationError (msg_not_json line col))
      \<and> 1 \<le> line \<and> 1 \<le> col \<and> line_start s line + (col - 1) = pos \<and> pos \<le> length s"
    using line_start_colno by blast
next
  fix s bs v
  assume "raw = Some s" "strip s \<noteq> []" "utf8_encode s = Some bs" "length bs \<le> 64000"
    "loads env s = Inr v" "\<forall>ms. v \<noteq> JObj ms"
  then show "parse_claims env raw = Inl (ClaimsValidationError msg_not_object)"
    by (cases v) (simp_all add: parse_claims_Some)
qed

definition bad_text :: ustr where
  "bad_text = U ''{'' @ [10] @ U ''\"a\" 1}''"

lemma loads_bad_text: "loads sample_env bad_text = Inl (JSONDecodeError ExpectingColon 6)"
  by (simp add: bad_text_def json_eval cong: json_eval_cong)

lemma bad_text_shape: "utf8_ok bad_text" "length bad_text = 8" "strip bad_text \<noteq> []"
  by (simp_all add: strip_empty_iff)
     (simp_all add: bad_text_def utf8_ok_def is_surrogate_def U_def is_space_def)

lemma encode_short:
  assumes "utf8_ok s" "length s \<le> 16000"
  obtains bs where "utf8_encode s = Some bs" "length bs \<le> 64000"
proof -
  obtain bs where b: "utf8_encode s = Some bs" using assms(1) utf8_encode_Some_iff by blast
  with utf8_encode_length [OF b] assms(2) that show thesis by simp
qed

theorem parse_claims_message_witness:
  "\<exists>line col. parse_claims sample_env (Some bad_text) = Inl (ClaimsValidationError (msg_not_json line col))
     \<and> 1 \<le> line \<and> 1 \<le> col \<and> line_start bad_text line + (col - 1) = 6 \<and> 6 \<le> length bad_text"
proof -
  obtain bs where b: "utf8_encode bad_text = Some bs" "length bs \<le> 64000"
    using encode_short [OF bad_text_shape(1)] bad_text_shape(2) by auto
  have "\<forall>s. Some bad_text = Some s \<longrightarrow> utf8_ok s" using bad_text_shape(1) by simp
  note t = parse_claims_message [OF this, of sample_env, THEN conjunct2, THEN conjunct2, THEN conjunct1]
  show ?thesis
    by (rule t [rule_format, OF refl bad_text_shape(3) b loads_bad_text])
qed

text \<open>C9: an accepted request object keeps its meaning on both ways out of
  the client. The \<open>claims\<close> parameter sent to the issuer and the text shown by the preview
  page either fail with the interpreter's \<open>RecursionError\<close>, because the object nests
  deeper than that encoder can go, or read back as exactly the object that was parsed.\<close>

theorem parse_claims_survive:
  assumes "float_env env" "parse_claims env raw = Inr ms"
  shows "(case dumps_compact env (JObj ms) of
            Inr t \<Rightarrow> loads env t = Inr (JObj ms)
          | Inl e \<Rightarrow> e = RecursionError \<and> \<not> fits (c_enc_depth env) (JObj ms))
       \<and> (case pretty_json env (JObj ms) of
            Inr t \<Rightarrow> loads env t = Inr (JObj ms)
          | Inl e \<Rightarrow> e = RecursionError \<and> \<not> fits (py_enc_depth env) (JObj ms))"
  using loads_dump [OF style_ok_compact parse_claims_ok [OF assms(2,1)]]
    loads_dump [OF style_ok_pretty parse_claims_ok [OF assms(2,1)]]
  by (simp add: dumps_compact_def pretty_json_def dumps_indent_def)

definition good_text :: ustr where
  "good_text = U ''{\"a\":[1.5,null]}''"

lemma good_text_parses: "parse_claims sample_env (Some good_text) = Inr [(U ''a'', JArr [JFloat (U ''1.5''), JNull])]"
proof -
  have s: "utf8_ok good_text" "length good_text \<le> 16000" "strip good_text \<noteq> []"
    by (simp_all add: strip_empty_iff)
       (simp_all add: good_text_def utf8_ok_def is_surrogate_def U_def is_space_def)
  have l: "loads sample_env good_text = Inr (JObj [(U ''a'', JArr [JFloat (U ''1.5''), JNull])])"
    by (simp add: good_text_def json_eval cong: json_eval_cong)
  obtain bs where "utf8_encode good_text = Some bs" "length bs \<le> 64000" using encode_short [OF s(1,2)] .
  from parse_claims_Some [OF s(3) this] l show ?thesis by simp
qed

theorem parse_claims_survive_witness:
  "(case dumps_compact sample_env (JObj [(U ''a'', JArr [JFloat (U ''1.5''), JNull])]) of
      Inr t \<Rightarrow> loads sample_env t = Inr (JObj [(U ''a'', JArr [JFloat (U ''1.5''), JNull])])
    | Inl e \<Rightarrow> e = RecursionError \<and> \<not> fits (c_enc_depth sample_env) (JObj [(U ''a'', JArr [JFloat (U ''1.5''), JNull])]))"
  by (rule parse_claims_survive [OF sample_env_float good_text_parses, THEN conjunct1])

lemma default_text_shape:
  "utf8_ok (dump (indent_style esc_plain 2) 0 (JObj DEFAULT_CLAIMS))"
  "length (dump (indent_style esc_plain 2) 0 (JObj DEFAULT_CLAIMS)) \<le> 16000"
proof -
  have "json_chars (\<lambda>c. utf8_ok [c]) (JObj DEFAULT_CLAIMS)"
    by (simp add: DEFAULT_CLAIMS_def default_detail_def U_def utf8_ok_def is_surrogate_def)
  then show "utf8_ok (dump (indent_style esc_plain 2) 0 (JObj DEFAULT_CLAIMS))"
    by (intro dump_utf8 style_ok_pretty) (simp_all add: indent_style_def)
  show "length (dump (indent_style esc_plain 2) 0 (JObj DEFAULT_CLAIMS)) \<le> 16000"
    by (simp add: DEFAULT_CLAIMS_def default_detail_def indent_style_def newline_indent_def
        quoted_def U_def esc_plain_def)
qed

text \<open>The request the home page offers is one the form accepts, with
  the value of \<open>DEFAULT_CLAIMS\<close> as its result.\<close>

theorem default_claims_accepted:
  assumes "6 \<le> scan_depth env" "6 \<le> py_enc_depth env"
  shows "\<exists>t. pretty_json env (JObj DEFAULT_CLAIMS) = Inr t \<and> parse_claims env (Some t) = Inr DEFAULT_CLAIMS"
proof -
  let ?t = "dump (indent_style esc_plain 2) 0 (JObj DEFAULT_CLAIMS)"
  have l: "loads env ?t = Inr (JObj DEFAULT_CLAIMS)"
    by (rule loads_dump [OF style_ok_pretty DEFAULT_CLAIMS_ok [OF assms(1)]])
  have p: "pretty_json env (JObj DEFAULT_CLAIMS) = Inr ?t"
    using json_ok_fits [OF DEFAULT_CLAIMS_ok [OF assms(2)]] by (simp only: pretty_json_def dumps_indent_def if_True)
  have "123 \<in> set ?t" by (simp add: DEFAULT_CLAIMS_def)
  then have s: "strip ?t \<noteq> []" by (auto simp only: strip_empty_iff) (auto simp: is_space_def)
  obtain bs where "utf8_encode ?t = Some bs" "length bs \<le> 64000"
    using encode_short [OF default_text_shape] .
  from parse_claims_Some [OF s this] have "parse_claims env (Some ?t) = Inr DEFAULT_CLAIMS"
    by (simp only: l sum.case json.case)
  with p show ?thesis by blast
qed

theorem default_claims_accepted_witness:
  "\<exists>t. pretty_json sample_env (JObj DEFAULT_CLAIMS) = Inr t
     \<and> parse_claims sample_env (Some t) = Inr DEFAULT_CLAIMS"
  by (rule default_claims_accepted) simp_all

text \<open>For an access token whose payload segment is the base64url form of a
  JSON object, printed in any style of the encoder, the diagnostic page shows exactly that
  object, whatever the header and the signature are.\<close>

theorem token_view_decodes:
  assumes "json_ok env (scan_depth env) (JObj ms)" "style_ok st"
    and "utf8_encode (dump st l (JObj ms)) = Some bs"
    and "46 \<notin> set h" "46 \<notin> set sig"
  shows "decoded_access_token env (JStr (h @ 46 # b64url bs @ 46 # sig)) = Inr ms"
proof -
  have "46 \<notin> set (b64url bs)" using b64url_ascii by blast
  with assms show ?thesis
    by (simp add: decoded_access_token_def count_dots loads_dump codec_simps
        del: dump.simps json_ok.simps)
qed

theorem token_view_decodes_witness:
  "decoded_access_token sample_env (JStr (U ''e30'' @ 46 #
     b64url (the (utf8_encode (dump compact_style 0 (JObj [(U ''sub'', JStr (U ''alice''))])))) @ 46 # U ''c2ln''))
   = Inr [(U ''sub'', JStr (U ''alice''))]"
proof (rule token_view_decodes)
  show "json_ok sample_env (scan_depth sample_env) (JObj [(U ''sub'', JStr (U ''alice''))])"
    by (simp add: dict_ok_def str_ok_def U_def no_pair.simps is_high_def is_low_def)
  show "style_ok compact_style" by (rule style_ok_compact)
  have "utf8_ok (dump compact_style 0 (JObj [(U ''sub'', JStr (U ''alice''))]))"
    by (simp add: utf8_ok_def is_surrogate_def U_def compact_style_def no_indent_def quoted_def esc_ascii_def)
  then show "utf8_encode (dump compact_style 0 (JObj [(U ''sub'', JStr (U ''alice''))])) =
      Some (the (utf8_encode (dump compact_style 0 (JObj [(U ''sub'', JStr (U ''alice''))]))))"
    using utf8_encode_Some_iff by (metis option.sel)
qed (simp_all add: U_def)

text \<open>For every other token the page shows an empty object: a token
  without exactly two dots, a payload segment that is not base64, bytes that are not UTF-8, a
  text that is not JSON, and JSON that is not an object all give \<open>{}\<close>. Only the interpreter's
  \<open>RecursionError\<close> leaves the function.\<close>

theorem token_view_total:
  "(\<exists>ms. decoded_access_token env token = Inr ms \<and>
      (ms = [] \<or> (\<exists>h p q bs s. token = JStr (h @ 46 # p @ 46 # q) \<and> 46 \<notin> set (h @ p @ q)
         \<and> urlsafe_b64decode (p @ b64_padding p) = Some bs \<and> utf8_decode bs = Some s
         \<and> loads env s = Inr (JObj ms))))
   \<or> (decoded_access_token env token = Inl RecursionError \<and>
      (\<exists>h p q bs s. token = JStr (h @ 46 # p @ 46 # q)
         \<and> urlsafe_b64decode (p @ b64_padding p) = Some bs \<and> utf8_decode bs = Some s
         \<and> loads env s = Inl RecursionError))"
proof (cases "\<exists>t. token = JStr t \<and> count_list t 46 = 2")
  case False
  then have "decoded_access_token env token = Inr []"
    by (auto simp: decoded_access_token_def split: json.splits)
  then show ?thesis by blast
next
  case True
  then obtain h p q where t: "token = JStr (h @ 46 # p @ 46 # q)"
    "46 \<notin> set h" "46 \<notin> set p" "46 \<notin> set q" using jwt_two_dots by metis
  have e: "decoded_access_token env token =
      (case Option.bind (urlsafe_b64decode (p @ b64_padding p)) utf8_decode of
         None \<Rightarrow> Inr []
       | Some s \<Rightarrow> (case loads env s of Inr (JObj ms) \<Rightarrow> Inr ms | Inr _ \<Rightarrow> Inr []
                    | Inl RecursionError \<Rightarrow> Inl RecursionError | Inl _ \<Rightarrow> Inr []))"
    using t by (simp add: decoded_access_token_def count_dots)
  show ?thesis
  proof (cases "Option.bind (urlsafe_b64decode (p @ b64_padding p)) utf8_decode")
    case None
    then have "decoded_access_token env token = Inr []" by (simp add: e)
    then show ?thesis by blast
  next
    case (Some s)
    then obtain bs where b: "urlsafe_b64decode (p @ b64_padding p) = Some bs" "utf8_decode bs = Some s"
      by (auto simp: bind_eq_Some_conv)
    have c: "decoded_access_token env token = Inr [] \<or> (\<exists>ms. loads env s = Inr (JObj ms)
        \<and> decoded_access_token env token = Inr ms) \<or> (loads env s = Inl RecursionError \<and>
          decoded_access_token env token = Inl RecursionError)"
      by (simp add: e Some split: sum.splits json.splits json_exc.splits)
    from t have d: "46 \<notin> set (h @ p @ q)" by simp
    from c show ?thesis using t(1) d b by blast
  qed
qed

section \<open>The exceptions that leave the form handlers\<close>

text \<open>A request object with one member, an integer of \<open>n\<close> digits.\<close>

definition long_int_text :: "nat \<Rightarrow> ustr" where
  "long_int_text n = [123, 34, 97, 34, 58] @ replicate n 49 @ [125]"

lemma match_number_long:
  assumes "max_int_digits < n"
  shows "match_number env (replicate n 49 @ [125]) = Inl IntDigits"
proof -
  obtain m where m: "n = Suc m" using assms by (cases n) simp_all
  have d: "is_digit 49" "\<not> is_digit 125" by (simp_all add: is_digit_def)
  have t: "takeWhile is_digit (replicate m 49 @ [125]) = replicate m 49"
    "dropWhile is_digit (replicate m 49 @ [125]) = [125]"
    using d by (induction m) simp_all
  show ?thesis using assms d t by (simp add: match_number_def m Let_def)
qed

lemma loads_long_int:
  assumes "max_int_digits < n" "0 < scan_depth env"
  shows "loads env (long_int_text n) = Inl IntDigits"
proof -
  obtain m where m: "n = Suc m" using assms by (cases n) simp_all
  have w: "skip_ws (replicate n 49 @ [125]) = replicate n 49 @ [125]"
    by (simp add: m skip_ws_def is_ws_def)
  have mn: "match_number env (replicate n 49 @ [125]) = Inl IntDigits"
    by (rule match_number_long [OF assms(1)])
  have sc: "scan (Suc k) env d (replicate n 49 @ [125]) = Inl IntDigits" for k d
    using mn by (simp add: m U_def)
  have w': "skip_ws (c # t) = c # t" if "\<not> is_ws c" for c t using that by (simp add: skip_ws_def)
  have nw: "\<not> is_ws 34" "\<not> is_ws 58" by (simp_all add: is_ws_def)
  have mem: "members (Suc (Suc k)) env d [] ([34, 97, 34, 58] @ replicate n 49 @ [125]) = Inl IntDigits" for k d
    by (simp add: w' nw w sc Let_def del: scan.simps)
  have s: "scan (Suc (Suc (Suc k))) env (scan_depth env) (long_int_text n) = Inl IntDigits" for k
    using assms(2) mem [of k "scan_depth env - 1"]
    by (simp add: long_int_text_def w' nw del: members.simps)
  have "skip_ws (long_int_text n) = long_int_text n"
    by (simp add: long_int_text_def skip_ws_def is_ws_def)
  moreover have "scan_fuel_for (long_int_text n) = Suc (Suc (Suc (2 * n + 11)))"
    by (simp add: scan_fuel_for_def long_int_text_def)
  moreover have "\<not> head_is 0xFEFF (long_int_text n)" by (simp add: long_int_text_def)
  ultimately show ?thesis
    by (simp only: loads_def s if_False sum.case json_exc.case)
qed

text \<open>C17: the handlers catch every failure of the form but two. Text
  that is valid UTF-8 makes \<open>parse_claims\<close> raise something other than \<open>ClaimsValidationError\<close>
  exactly when \<open>json.loads\<close> raises a plain \<open>ValueError\<close> (an integer of more than 4300
  digits) or a \<open>RecursionError\<close> on it; and such texts are within the size limit: every
  object holding an integer of 4301 to 60,000 digits is one.\<close>

theorem parse_claims_uncaught:
  assumes "utf8_ok s"
  shows "((\<exists>e. parse_claims env (Some s) = Inl e \<and> (\<forall>m. e \<noteq> ClaimsValidationError m)) \<longleftrightarrow>
            strip s \<noteq> [] \<and> (\<exists>bs. utf8_encode s = Some bs \<and> length bs \<le> 64000)
            \<and> loads env s \<in> {Inl IntDigits, Inl RecursionError})
       \<and> (\<forall>n. 4300 < n \<and> n \<le> 60000 \<and> 0 < scan_depth env \<longrightarrow>
            parse_claims env (Some (long_int_text n)) = Inl (JsonFailure IntDigits))"
proof (intro conjI allI impI)
  obtain bs where b: "utf8_encode s = Some bs" using assms utf8_encode_Some_iff by blast
  show "(\<exists>e. parse_claims env (Some s) = Inl e \<and> (\<forall>m. e \<noteq> ClaimsValidationError m)) \<longleftrightarrow>
            strip s \<noteq> [] \<and> (\<exists>bs. utf8_encode s = Some bs \<and> length bs \<le> 64000)
            \<and> loads env s \<in> {Inl IntDigits, Inl RecursionError}"
    using b loads_not_fuel [of env s]
    by (auto simp: parse_claims_def split: sum.splits json_exc.splits json.splits)
next
  fix n :: nat assume n: "4300 < n \<and> n \<le> 60000 \<and> 0 < scan_depth env"
  have a: "\<forall>c \<in> set (long_int_text n). c < 128" by (simp add: long_int_text_def)
  have st: "strip (long_int_text n) \<noteq> []"
    unfolding strip_empty_iff by (simp add: long_int_text_def is_space_def)
  have len: "length (map byte (long_int_text n)) \<le> 64000" using n by (simp add: long_int_text_def)
  have "loads env (long_int_text n) = Inl IntDigits"
    using n by (intro loads_long_int) (simp_all add: max_int_digits_def)
  then show "parse_claims env (Some (long_int_text n)) = Inl (JsonFailure IntDigits)"
    by (simp add: parse_claims_Some [OF st utf8_encode_ascii [OF a] len])
qed

theorem parse_claims_uncaught_witness:
  "parse_claims sample_env (Some (long_int_text 5000)) = Inl (JsonFailure IntDigits)"
proof -
  have "utf8_ok (U ''x'')" by (simp add: U_def utf8_ok_def is_surrogate_def)
  from parse_claims_uncaught [OF this, THEN conjunct2, rule_format] show ?thesis by simp
qed

end
