(* ===== verification/Discovery.thy ===== *)
theory Discovery
  imports Py_Json_Text "HOL-Library.List_Lexorder"
begin

text \<open>
  Discovery in the test client (test-client/app.py): \<open>discovery_metadata\<close>, the members of the
  issuer document shown on a result page, and \<open>builder_discovery_metadata\<close>, the normal form
  the visual request editor works on. The HTTP request of \<open>issuer_discovery_document\<close> is an
  argument: the document it returned, or the exception it raised.

  Proved: the first is exactly a selection of members; the second never fails on an object,
  whatever its members are, its identifiers are sorted and complete, and every entry has the
  shape the editor reads.
\<close>

section \<open>The functions\<close>

text \<open>
  \<open>requests.get\<close>, \<open>raise_for_status\<close> and \<open>response.json\<close> raise subclasses of
  \<open>RequestException\<close>; \<open>.items()\<close> and \<open>.get\<close> on a document that is not an object raise
  \<open>AttributeError\<close>. \<open>OtherException\<close> is what \<open>response.json\<close> raises beyond those (a \<open>RecursionError\<close>).
\<close>

datatype disc_exc = RequestException | AttributeError | OtherException

definition as_document :: "disc_exc + json \<Rightarrow> disc_exc + (ustr, json) dict" where
  "as_document d = rbind d (\<lambda>v. case v of JObj ms \<Rightarrow> Inr ms | _ \<Rightarrow> Inl AttributeError)"

definition shown_member :: "ustr \<Rightarrow> bool" where
  "shown_member name \<longleftrightarrow> name = U ''claims_supported'' \<or> startswith name (U ''amr_'')
     \<or> startswith name (U ''pwd_'') \<or> startswith name (U ''otp_'') \<or> startswith name (U ''pop_'')"

definition discovery_metadata :: "disc_exc + json \<Rightarrow> disc_exc + (ustr, json) dict" where
  "discovery_metadata d =
     rbind (as_document d) (\<lambda>document. Inr (filter (\<lambda>(name, _). shown_member name) document))"

text \<open>\<open>document.get(name, [])\<close>, replaced by an empty list when it is no list.\<close>

definition list_member :: "(ustr, json) dict \<Rightarrow> ustr \<Rightarrow> json list" where
  "list_member document name =
     (case map_of document name of Some (JArr vs) \<Rightarrow> vs | _ \<Rightarrow> [])"

text \<open>The two inner loops: the names of a list that are text, each with its suggested values.\<close>

fun named_values :: "(ustr, json) dict \<Rightarrow> json list \<Rightarrow> (ustr, json) dict \<Rightarrow> (ustr, json) dict" where
  "named_values document [] acc = acc"
| "named_values document (JStr name # names) acc =
     named_values document names
       (AList.update name
         (JObj [(U ''values'', JArr (list_member document (name @ U ''_values_supported'')))]) acc)"
| "named_values document (_ # names) acc = named_values document names acc"

definition method_entry :: "(ustr, json) dict \<Rightarrow> ustr \<Rightarrow> json" where
  "method_entry document identifier =
     (let property_names = list_member document (identifier @ U ''_properties_supported'');
          metadata_names = list_member document (identifier @ U ''_metadata_supported'');
          properties = named_values document property_names [];
          metadata = named_values document metadata_names [] in
      JObj [(U ''metadata'', JObj metadata), (U ''properties'', JObj properties)])"

fun methods_of :: "(ustr, json) dict \<Rightarrow> json list \<Rightarrow> (ustr, json) dict \<Rightarrow> (ustr, json) dict" where
  "methods_of document [] acc = acc"
| "methods_of document (JStr identifier # ids) acc =
     methods_of document ids (AList.update identifier (method_entry document identifier) acc)"
| "methods_of document (_ # ids) acc = methods_of document ids acc"

definition builder_discovery_metadata :: "disc_exc + json \<Rightarrow> disc_exc + json" where
  "builder_discovery_metadata d =
     rbind (as_document d) (\<lambda>document.
       let methods = methods_of document (list_member document (U ''amr_identifiers_supported'')) [] in
       Inr (JObj [(U ''identifiers'', JArr (map JStr (sort (map fst methods)))),
                  (U ''methods'', JObj methods)]))"

section \<open>Lemmas\<close>

text \<open>The text members of a list.\<close>

fun texts_of :: "json list \<Rightarrow> ustr list" where
  "texts_of [] = []"
| "texts_of (JStr s # vs) = s # texts_of vs"
| "texts_of (_ # vs) = texts_of vs"

lemma in_texts_of: "s \<in> set (texts_of vs) \<longleftrightarrow> JStr s \<in> set vs"
  by (induction vs rule: texts_of.induct) auto

definition suggestion :: "(ustr, json) dict \<Rightarrow> ustr \<Rightarrow> json" where
  "suggestion document name =
     JObj [(U ''values'', JArr (list_member document (name @ U ''_values_supported'')))]"

text \<open>Both loops fill a dictionary with a function of the name.\<close>

definition tabulate :: "(ustr \<Rightarrow> json) \<Rightarrow> ustr list \<Rightarrow> (ustr, json) dict \<Rightarrow> (ustr, json) dict" where
  "tabulate f names acc = fold (\<lambda>s. AList.update s (f s)) names acc"

lemma named_values_tabulate: "named_values document vs acc = tabulate (suggestion document) (texts_of vs) acc"
  by (induction document vs acc rule: named_values.induct) (simp_all add: tabulate_def suggestion_def)

lemma methods_of_tabulate: "methods_of document vs acc = tabulate (method_entry document) (texts_of vs) acc"
  by (induction document vs acc rule: methods_of.induct) (simp_all add: tabulate_def)

lemma dict_ok_tabulate: "dict_ok acc \<Longrightarrow> dict_ok (tabulate f names acc)"
  by (induction names arbitrary: acc) (auto simp: tabulate_def)

lemma map_of_tabulate:
  "map_of (tabulate f names acc) k = (if k \<in> set names then Some (f k) else map_of acc k)"
  by (induction names arbitrary: acc) (auto simp: tabulate_def map_of_update)

lemma dom_tabulate: "set (map fst (tabulate f names acc)) = fst ` set acc \<union> set names"
proof -
  have "dom (map_of (tabulate f names acc)) = dom (map_of acc) \<union> set names"
    by (auto simp: map_of_tabulate split: if_splits)
  then show ?thesis by (simp add: dom_map_of_conv_image_fst)
qed

lemma discovery_metadata_error:
  "discovery_metadata d = Inl e \<longleftrightarrow>
     d = Inl e \<or> (e = AttributeError \<and> (\<exists>v. d = Inr v \<and> (\<forall>ms. v \<noteq> JObj ms)))"
proof (cases d)
  case (Inr v)
  then show ?thesis by (cases v) (auto simp: discovery_metadata_def as_document_def)
qed (simp add: discovery_metadata_def as_document_def)

section \<open>Properties\<close>

text \<open>The result page shows a member of the discovery document exactly when
  it is \<open>claims_supported\<close> or has one of the four prefixes, with the document's value and in
  the document's order.\<close>

theorem discovery_metadata_selects:
  assumes "dict_ok document"
  shows "\<exists>shown. discovery_metadata (Inr (JObj document)) = Inr shown \<and> dict_ok shown
    \<and> (\<forall>k. map_of shown k = (if shown_member k then map_of document k else None))
    \<and> map fst shown = filter shown_member (map fst document)
"
proof -
  let ?s = "filter (\<lambda>(name, _). shown_member name) document"
  have "\<forall>k. map_of ?s k = (if shown_member k then map_of document k else None)"
    using assms by (auto simp: map_of_filter_dict split: option.splits)
  moreover have "map fst ?s = filter shown_member (map fst document)"
    by (induction document) auto
  ultimately show ?thesis
    using dict_ok_filter [OF assms] by (simp add: discovery_metadata_def as_document_def)
qed

theorem discovery_metadata_selects_witness:
  "\<exists>shown. discovery_metadata (Inr (JObj [(U ''issuer'', JNull), (U ''pop_values_supported'', JArr [])])) = Inr shown
    \<and> dict_ok shown
    \<and> (\<forall>k. map_of shown k = (if shown_member k
          then map_of [(U ''issuer'', JNull), (U ''pop_values_supported'', JArr [])] k else None))
    \<and> map fst shown = filter shown_member (map fst [(U ''issuer'', JNull), (U ''pop_values_supported'', JArr [])])"
  by (rule discovery_metadata_selects) (simp add: dict_ok_def)

text \<open>The editor's view of a document that is an object, as the endpoint sends it.\<close>

definition editor_view :: "(ustr, json) dict \<Rightarrow> ustr list \<Rightarrow> (ustr, json) dict \<Rightarrow> bool" where
  "editor_view document ids methods \<longleftrightarrow>
     sorted ids \<and> distinct ids \<and> set ids = set (map fst methods) \<and> dict_ok methods
     \<and> set ids = {s. JStr s \<in> set (list_member document (U ''amr_identifiers_supported''))}
     \<and> (\<forall>s \<in> set ids. \<exists>md pr. map_of methods s = Some (JObj [(U ''metadata'', JObj md), (U ''properties'', JObj pr)])
          \<and> dict_ok md \<and> dict_ok pr
          \<and> (\<forall>k. map_of md k = (if JStr k \<in> set (list_member document (s @ U ''_metadata_supported''))
                                  then Some (suggestion document k) else None))
          \<and> (\<forall>k. map_of pr k = (if JStr k \<in> set (list_member document (s @ U ''_properties_supported''))
                                  then Some (suggestion document k) else None)))"

lemma builder_discovery_normal:
  "\<exists>ids methods. builder_discovery_metadata (Inr (JObj document)) =
       Inr (JObj [(U ''identifiers'', JArr (map JStr ids)), (U ''methods'', JObj methods)])
     \<and> editor_view document ids methods"
proof -
  define names where "names = texts_of (list_member document (U ''amr_identifiers_supported''))"
  define methods where "methods = tabulate (method_entry document) names []"
  define ids where "ids = sort (map fst methods)"
  have b: "builder_discovery_metadata (Inr (JObj document)) =
      Inr (JObj [(U ''identifiers'', JArr (map JStr ids)), (U ''methods'', JObj methods)])"
    by (simp add: builder_discovery_metadata_def as_document_def Let_def methods_of_tabulate
        ids_def methods_def names_def)
  have ok: "dict_ok methods" by (simp add: methods_def dict_ok_tabulate)
  then have i: "sorted ids" "distinct ids" "set ids = set (map fst methods)"
    by (simp_all add: ids_def dict_ok_def)
  have n: "set (map fst methods) = set names" unfolding methods_def by (subst dom_tabulate) simp_all
  then have s: "set ids = {s. JStr s \<in> set (list_member document (U ''amr_identifiers_supported''))}"
    using i(3) by (auto simp: names_def in_texts_of)
  have m: "map_of methods s = Some (method_entry document s)" if "s \<in> set ids" for s
    using that i(3) n by (simp add: methods_def map_of_tabulate)
  show ?thesis
    unfolding editor_view_def
  proof (intro exI conjI ballI)
    fix s assume "s \<in> set ids"
    then show "map_of methods s = Some (JObj [
        (U ''metadata'', JObj (tabulate (suggestion document) (texts_of (list_member document (s @ U ''_metadata_supported''))) [])),
        (U ''properties'', JObj (tabulate (suggestion document) (texts_of (list_member document (s @ U ''_properties_supported''))) []))])"
      by (simp add: m method_entry_def Let_def named_values_tabulate)
  qed (use b i ok s in \<open>simp_all add: dict_ok_tabulate map_of_tabulate in_texts_of\<close>)
qed

text \<open>The editor's view nests the suggested values four levels deeper than the document does.\<close>

lemma list_member_fits: "fits d (JObj document) \<Longrightarrow> list_member document k \<noteq> [] \<Longrightarrow>
    2 \<le> d \<and> (\<forall>v \<in> set (list_member document k). fits (d - 2) v)"
  by (fastforce simp: list_member_def numeral_2_eq_2 dest: map_of_SomeD split: option.splits json.splits)

lemma suggestion_fits: "fits d (JObj document) \<Longrightarrow> 2 \<le> d \<Longrightarrow> fits d (suggestion document k)"
proof -
  assume f: "fits d (JObj document)" and d: "2 \<le> d"
  have "\<forall>v \<in> set (list_member document (k @ U ''_values_supported'')). fits (d - 2) v"
    using list_member_fits [OF f, of "k @ U ''_values_supported''"]
    by (cases "list_member document (k @ U ''_values_supported'') = []") auto
  then show "fits d (suggestion document k)" using d by (simp add: suggestion_def numeral_2_eq_2)
qed

lemma editor_view_fits:
  assumes "editor_view document ids methods" "fits (d - 4) (JObj document)"
  shows "fits d (JObj [(U ''identifiers'', JArr (map JStr ids)), (U ''methods'', JObj methods)])"
proof -
  have ok: "dict_ok methods" "set ids = set (map fst methods)"
    "set ids = {s. JStr s \<in> set (list_member document (U ''amr_identifiers_supported''))}"
    using assms(1) unfolding editor_view_def by blast+
  have "0 < d - 4" using assms(2) by simp
  then have d: "5 \<le> d" by linarith
  have "fits (d - 2) m" if m: "(s, m) \<in> set methods" for s m
  proof -
    have s: "s \<in> set ids" using m ok(2) by force
    then have "list_member document (U ''amr_identifiers_supported'') \<noteq> []" using ok(3) by auto
    then have d2: "2 \<le> d - 4" using list_member_fits [OF assms(2)] by blast
    have "map_of methods s = Some m" using m ok(1) by (simp add: dict_ok_def)
    moreover from assms(1) s obtain md pr where
      mp: "map_of methods s = Some (JObj [(U ''metadata'', JObj md), (U ''properties'', JObj pr)])" "dict_ok md" "dict_ok pr"
      and e: "\<And>k. map_of md k = (if JStr k \<in> set (list_member document (s @ U ''_metadata_supported''))
          then Some (suggestion document k) else None)"
        "\<And>k. map_of pr k = (if JStr k \<in> set (list_member document (s @ U ''_properties_supported''))
          then Some (suggestion document k) else None)"
      unfolding editor_view_def by blast
    ultimately have m': "m = JObj [(U ''metadata'', JObj md), (U ''properties'', JObj pr)]" by simp
    have "fits (d - 4) v" if "(k, v) \<in> set md \<or> (k, v) \<in> set pr" for k v
    proof -
      have "map_of md k = Some v \<or> map_of pr k = Some v" using that mp(2,3) by (auto simp: dict_ok_def)
      then have "v = suggestion document k" unfolding e by (auto split: if_splits)
      then show ?thesis using suggestion_fits [OF assms(2) d2] by simp
    qed
    note deep = this
    have "\<forall>kv \<in> set md. fits (d - 4) (snd kv)" "\<forall>kv \<in> set pr. fits (d - 4) (snd kv)"
      using deep by (metis prod.collapse)+
    moreover have "d - 2 - 1 = Suc (d - 4)" "d - 2 = Suc (Suc (d - 4))" using d2 by simp_all
    ultimately show ?thesis by (simp add: m')
  qed
  moreover have "d - 1 - 1 = d - 2" "0 < d" "0 < d - 1" using d by simp_all
  ultimately show ?thesis by auto
qed

end
