(* ===== verification/Client_App.thy ===== *)
theory Client_App
  imports Cache_Store Client_Claims Discovery
begin

text \<open>
  The relying party of the laboratory (test-client/app.py): its two caches, \<open>prune_caches\<close>,
  \<open>home_response\<close>, \<open>render_result\<close> and the handlers \<open>discovery\<close>, \<open>home\<close>, \<open>preview\<close>,
  \<open>login\<close>, \<open>callback\<close> and \<open>refresh\<close>, each as one step of an explicit state. This theory
  holds the definitions; Client_App_Props has their theorems.

  Authlib, the issuer, the clock and the random source are outside the repository: what they
  answer while one request is handled is the record \<open>world\<close>, an argument of every handler.
  An exception of a call is \<open>None\<close> (or an \<open>Inl\<close> where the code tells exceptions apart), and
  one that no handler catches ends in \<open>Failure\<close>, Flask's answer with status 500.
\<close>

section \<open>State, requests, answers\<close>

text \<open>The entries of AUTHORIZATION_CACHE and TOKEN_CACHE.\<close>

record auth_entry =
  auth_claims :: "(ustr, json) dict"
  auth_nonce :: ustr
  auth_created :: rat

record token_entry =
  refresh_token :: json
  token_claims :: "(ustr, json) dict"
  token_created :: rat

record client_state =
  auth_cache :: "(ustr, auth_entry) dict"
  token_cache :: "(ustr, token_entry) dict"

text \<open>The module's configuration, and what \<open>url_for("callback", _external=True)\<close> gives.\<close>

record config =
  issuer :: ustr
  smtp4dev_url :: ustr
  public_url :: ustr
  external_callback :: ustr

text \<open>
  What is outside while one request is handled: the calls of \<open>oauth.keycloak\<close>, the fetched
  discovery document, \<open>time.time()\<close> in \<open>prune_caches\<close> and when an entry is stored, and the
  texts of \<open>secrets.token_urlsafe\<close>.
\<close>

record world =
  authorize_redirect :: "ustr \<Rightarrow> ustr \<Rightarrow> (ustr, ustr) dict \<Rightarrow> ustr option"
  authorize_access_token :: "(ustr, ustr) dict \<Rightarrow> (ustr, json) dict option"
  fetch_access_token :: "json \<Rightarrow> (ustr, json) dict option"
  parse_id_token :: "(ustr, json) dict \<Rightarrow> ustr option \<Rightarrow> (ustr, json) dict option"
  userinfo :: "(ustr, json) dict \<Rightarrow> (ustr, json) dict option"
  issuer_document :: "disc_exc + json"
  prune_time :: rat
  store_time :: rat
  fresh_nonce :: ustr
  fresh_context :: ustr
  fresh_result :: ustr

record result_view =
  view_claims :: ustr
  view_discovery :: ustr
  view_id_token :: ustr
  view_access_token :: ustr
  view_userinfo :: ustr
  view_allow_refresh :: bool
  view_source :: ustr
  view_result_id :: ustr

datatype page = HomePage ustr ustr ustr "ustr option" | PreviewPage ustr
  | ErrorPage ustr ustr | ResultPage result_view

datatype response = Page nat page | JsonBody nat json | Redirect ustr | Failure

section \<open>Caches and pages\<close>

text \<open>\<open>prune_caches\<close>: \<open>cutoff = time.time() - CACHE_TTL_SECONDS\<close>, both caches in turn.\<close>

definition prune_caches :: "rat \<Rightarrow> client_state \<Rightarrow> client_state" where
  "prune_caches now st =
     (let cutoff = now - CACHE_TTL_SECONDS in
      st\<lparr>auth_cache := evict_dict (\<lambda>e. auth_created e < cutoff) (auth_cache st),
         token_cache := evict_dict (\<lambda>e. token_created e < cutoff) (token_cache st)\<rparr>)"

definition home_response ::
  "py_env \<Rightarrow> config \<Rightarrow> world \<Rightarrow> client_state \<Rightarrow> ustr option \<Rightarrow> ustr option \<Rightarrow> nat \<Rightarrow> client_state \<times> response" where
  "home_response env cfg w st raw_claims error status =
     (let st' = prune_caches (prune_time w) st;
          shown = (case raw_claims of Some raw \<Rightarrow> Inr raw | None \<Rightarrow> pretty_json env (JObj DEFAULT_CLAIMS)) in
      case shown of
        Inl e \<Rightarrow> (st', Failure)
      | Inr raw \<Rightarrow> (st', Page status (HomePage (issuer cfg) (smtp4dev_url cfg) raw error)))"

definition render_result ::
  "py_env \<Rightarrow> world \<Rightarrow> (ustr, json) dict \<Rightarrow> (ustr, json) dict \<Rightarrow> (ustr, json) dict \<Rightarrow> json \<Rightarrow> bool
     \<Rightarrow> ustr \<Rightarrow> ustr \<Rightarrow> response" where
  "render_result env w claims id_token info access_token allow_refresh source result_id =
     (case pretty_json env (JObj claims) of Inl _ \<Rightarrow> Failure | Inr c \<Rightarrow>
      case discovery_metadata (issuer_document w) of Inl _ \<Rightarrow> Failure | Inr document \<Rightarrow>
      case pretty_json env (JObj document) of Inl _ \<Rightarrow> Failure | Inr d \<Rightarrow>
      case pretty_json env (JObj id_token) of Inl _ \<Rightarrow> Failure | Inr i \<Rightarrow>
      case decoded_access_token env access_token of Inl _ \<Rightarrow> Failure | Inr payload \<Rightarrow>
      case pretty_json env (JObj payload) of Inl _ \<Rightarrow> Failure | Inr a \<Rightarrow>
      case pretty_json env (JObj info) of Inl _ \<Rightarrow> Failure | Inr u \<Rightarrow>
        Page 200 (ResultPage \<lparr>view_claims = c, view_discovery = d, view_id_token = i,
          view_access_token = a, view_userinfo = u, view_allow_refresh = allow_refresh,
          view_source = source, view_result_id = result_id\<rparr>))"

section \<open>Handlers\<close>

definition get_member :: "(ustr, json) dict \<Rightarrow> string \<Rightarrow> json" where
  "get_member d k = (case map_of d (U k) of None \<Rightarrow> JNull | Some v \<Rightarrow> v)"

definition field_on :: "(ustr, ustr) dict \<Rightarrow> string \<Rightarrow> bool" where
  "field_on form k \<longleftrightarrow> map_of form (U k) = Some (U ''on'')"

text \<open>\<open>jsonify\<close> prints its value with the C encoder, which raises \<open>RecursionError\<close> on deep ones; the member of
  the error answer is a text.\<close>

definition discovery :: "py_env \<Rightarrow> world \<Rightarrow> response" where
  "discovery env w =
     (case builder_discovery_metadata (issuer_document w) of
        Inr v \<Rightarrow> (case dumps_compact env v of Inl _ \<Rightarrow> Failure | Inr _ \<Rightarrow> JsonBody 200 v)
      | Inl RequestException \<Rightarrow>
          JsonBody 502 (JObj [(U ''error'', JStr (U ''The issuer discovery document is unavailable.''))])
      | Inl _ \<Rightarrow> Failure)"

definition home :: "py_env \<Rightarrow> config \<Rightarrow> world \<Rightarrow> client_state \<Rightarrow> client_state \<times> response" where
  "home env cfg w st = home_response env cfg w st None None 200"

definition preview ::
  "py_env \<Rightarrow> config \<Rightarrow> world \<Rightarrow> (ustr, ustr) dict \<Rightarrow> client_state \<Rightarrow> client_state \<times> response" where
  "preview env cfg w form st =
     (let raw_claims = map_of form (U ''claims_json'') in
      case parse_claims env raw_claims of
        Inl (ClaimsValidationError message) \<Rightarrow> home_response env cfg w st raw_claims (Some message) 400
      | Inl _ \<Rightarrow> (st, Failure)
      | Inr claims \<Rightarrow>
          (case pretty_json env (JObj claims) of
             Inl _ \<Rightarrow> (st, Failure)
           | Inr t \<Rightarrow> (st, Page 200 (PreviewPage t))))"

definition callback_url :: "config \<Rightarrow> ustr" where
  "callback_url cfg =
     (if public_url cfg \<noteq> [] then public_url cfg @ U ''/callback'' else external_callback cfg)"

text \<open>The part of \<open>login\<close> after the form: the context is cached, then the redirect is built.\<close>

definition begin_authorization ::
  "py_env \<Rightarrow> config \<Rightarrow> world \<Rightarrow> (ustr, ustr) dict \<Rightarrow> (ustr, json) dict \<Rightarrow> client_state \<Rightarrow> client_state \<times> response" where
  "begin_authorization env cfg w form claims st =
     (let st1 = prune_caches (prune_time w) st;
          st2 = st1\<lparr>auth_cache := AList.update (fresh_context w)
                 \<lparr>auth_claims = claims, auth_nonce = fresh_nonce w, auth_created = store_time w\<rparr>
                 (auth_cache st1)\<rparr>;
          nonce = [(U ''nonce'', fresh_nonce w)];
          scope = (if field_on form ''offline_access''
                   then [(U ''scope'', U ''openid profile email offline_access'')] else []);
          dumped = (if field_on form ''omit_claims'' then Inr []
                    else rbind (dumps_compact env (JObj claims)) (\<lambda>t. Inr [(U ''claims'', t)]));
          prompt = (if field_on form ''prompt_login'' then [(U ''prompt'', U ''login'')] else []) in
      case dumped of
        Inl _ \<Rightarrow> (st2, Failure)
      | Inr claims_parameter \<Rightarrow>
          (case authorize_redirect w (callback_url cfg) (fresh_context w)
                  (nonce @ scope @ claims_parameter @ prompt) of
             None \<Rightarrow> (st2, Failure)
           | Some url \<Rightarrow> (st2, Redirect url)))"

definition login ::
  "py_env \<Rightarrow> config \<Rightarrow> world \<Rightarrow> (ustr, ustr) dict \<Rightarrow> client_state \<Rightarrow> client_state \<times> response" where
  "login env cfg w form st =
     (let raw_claims = map_of form (U ''claims_json'') in
      if field_on form ''omit_claims'' then begin_authorization env cfg w form [] st
      else (case parse_claims env raw_claims of
          Inl (ClaimsValidationError message) \<Rightarrow> home_response env cfg w st raw_claims (Some message) 400
        | Inl _ \<Rightarrow> (st, Failure)
        | Inr claims \<Rightarrow> begin_authorization env cfg w form claims st))"

text \<open>
  The \<open>session\<close> of the browser holds at most \<open>oidc4ac_result\<close>; \<open>callback\<close> returns it
  with the new state. The three calls of the \<open>try\<close> run in this order; the first failure
  ends in the error page.
\<close>

definition verified_response ::
  "world \<Rightarrow> (ustr, json) dict option \<Rightarrow> ustr option
     \<Rightarrow> ((ustr, json) dict \<times> (ustr, json) dict \<times> (ustr, json) dict) option" where
  "verified_response w token nonce =
     Option.bind token (\<lambda>t.
     Option.bind (parse_id_token w t nonce) (\<lambda>i.
     Option.bind (userinfo w t) (\<lambda>u. Some (t, i, u))))"

definition callback ::
  "py_env \<Rightarrow> world \<Rightarrow> (ustr, ustr) dict \<Rightarrow> client_state \<Rightarrow> ustr option
     \<Rightarrow> client_state \<times> ustr option \<times> response" where
  "callback env w args st session =
     (let error = (case map_of args (U ''error'') of None \<Rightarrow> [] | Some e \<Rightarrow> e) in
      if error \<noteq> [] then
        (st, session, Page 200 (ErrorPage error
           (case map_of args (U ''error_description'') of
              None \<Rightarrow> U ''No public description was returned.'' | Some d \<Rightarrow> d)))
      else
        (let context_id = (case map_of args (U ''state'') of None \<Rightarrow> [] | Some i \<Rightarrow> i);
             context = (if context_id \<noteq> [] then map_of (auth_cache st) context_id else None);
             st1 = (if context_id \<noteq> []
                    then st\<lparr>auth_cache := AList.delete context_id (auth_cache st)\<rparr> else st) in
         case context of
           None \<Rightarrow> (st1, session, Page 400 (ErrorPage (U ''missing_context'')
                      (U ''The local relying-party session has expired.'')))
         | Some c \<Rightarrow>
             (case verified_response w (authorize_access_token w args) (Some (auth_nonce c)) of
                None \<Rightarrow> (st1, session, Page 400 (ErrorPage (U ''token_validation_failed'')
                           (U ''The authorization response could not be verified.'')))
              | Some (token, id_token, info) \<Rightarrow>
                  (let result_id = fresh_result w;
                       st2 = st1\<lparr>token_cache := AList.update result_id
                              \<lparr>refresh_token = get_member token ''refresh_token'',
                               token_claims = auth_claims c, token_created = store_time w\<rparr>
                              (token_cache st1)\<rparr> in
                   (st2, Some result_id,
                    render_result env w (auth_claims c) id_token info (get_member token ''access_token'')
                      True (U ''Authorization code response'') result_id)))))"

text \<open>\<open>request.form.get("result_id") or session.get("oidc4ac_result")\<close>\<close>

definition chosen_result :: "(ustr, ustr) dict \<Rightarrow> ustr option \<Rightarrow> ustr option" where
  "chosen_result form session =
     (case map_of form (U ''result_id'') of
        None \<Rightarrow> session
      | Some r \<Rightarrow> if r \<noteq> [] then Some r else session)"

definition refresh ::
  "py_env \<Rightarrow> world \<Rightarrow> (ustr, ustr) dict \<Rightarrow> client_state \<Rightarrow> ustr option \<Rightarrow> client_state \<times> response" where
  "refresh env w form st session =
     (let st1 = prune_caches (prune_time w) st;
          missing = Page 400 (ErrorPage (U ''no_refresh_token'')
                      (U ''Start a new authorization request to test refresh.'')) in
      case chosen_result form session of
        None \<Rightarrow> (st1, missing)
      | Some result_id \<Rightarrow>
          (case map_of (token_cache st1) result_id of
             None \<Rightarrow> (st1, missing)
           | Some cached \<Rightarrow>
               (if \<not> truthy (refresh_token cached) then (st1, missing)
                else (case verified_response w (fetch_access_token w (refresh_token cached)) None of
                    None \<Rightarrow> (st1, Page 400 (ErrorPage (U ''refresh_failed'')
                              (U ''The refreshed token response could not be verified.'')))
                  | Some (token, id_token, info) \<Rightarrow>
                      (let cached1 = cached\<lparr>refresh_token :=
                             (case map_of token (U ''refresh_token'') of
                                None \<Rightarrow> refresh_token cached | Some r \<Rightarrow> r)\<rparr>;
                           cached2 = cached1\<lparr>token_created := store_time w\<rparr>;
                           st2 = st1\<lparr>token_cache := AList.update result_id cached2 (token_cache st1)\<rparr> in
                       (st2, render_result env w (token_claims cached2) id_token info
                               (get_member token ''access_token'') True
                               (U ''Refresh token response'') result_id))))))"

section \<open>The client as a machine\<close>

datatype client_request = Home | Preview "(ustr, ustr) dict" | Login "(ustr, ustr) dict"
  | Callback "(ustr, ustr) dict" "ustr option" | Refresh "(ustr, ustr) dict" "ustr option"
  | Discovery

definition initial_state :: client_state where
  "initial_state = \<lparr>auth_cache = [], token_cache = []\<rparr>"

fun serve :: "py_env \<Rightarrow> config \<Rightarrow> world \<Rightarrow> client_request \<Rightarrow> client_state \<Rightarrow> client_state \<times> response" where
  "serve env cfg w Home st = home env cfg w st"
| "serve env cfg w (Preview form) st = preview env cfg w form st"
| "serve env cfg w (Login form) st = login env cfg w form st"
| "serve env cfg w (Callback args session) st =
     (case callback env w args st session of (st', _, r) \<Rightarrow> (st', r))"
| "serve env cfg w (Refresh form session) st = refresh env w form st session"
| "serve env cfg w Discovery st = (st, discovery env w)"

text \<open>A run: each request with the world it met and the answer it got.\<close>

inductive run :: "py_env \<Rightarrow> config \<Rightarrow> (world \<times> client_request \<times> response) list \<Rightarrow> client_state \<Rightarrow> bool"
  for env cfg where
  start: "run env cfg [] initial_state"
| step: "run env cfg tr st \<Longrightarrow> serve env cfg w req st = (st', r) \<Longrightarrow>
     run env cfg (tr @ [(w, req, r)]) st'"

end
