(* ===== verification/Client_App_Props.thy ===== *)
theory Client_App_Props
  imports Client_App
begin

text \<open>
  The lemmas about the relying party of Client_App: what each handler does to the two caches
  (one lemma per handler, by cases of its outcome), where an entry of the caches comes from, the
  invariants of runs, and a sample session for witnesses. Client_Theorems states the theorems.
\<close>

section \<open>What a handler does to the caches\<close>

definition state_ok :: "client_state \<Rightarrow> bool" where
  "state_ok st \<longleftrightarrow> dict_ok (auth_cache st) \<and> dict_ok (token_cache st)"

definition pending :: "client_state \<Rightarrow> ustr \<Rightarrow> auth_entry option" where
  "pending st = map_of (auth_cache st)"

definition granted :: "client_state \<Rightarrow> ustr \<Rightarrow> token_entry option" where
  "granted st = map_of (token_cache st)"

lemma prune_ok: "state_ok st \<Longrightarrow> state_ok (prune_caches now st)"
  by (simp add: state_ok_def prune_caches_def Let_def dict.valid_evict)

lemma prune_pending:
  "state_ok st \<Longrightarrow> pending (prune_caches now st) k = Some e \<longleftrightarrow>
     pending st k = Some e \<and> now - CACHE_TTL_SECONDS \<le> auth_created e"
  by (simp add: state_ok_def pending_def prune_caches_def Let_def dict.evict_subset not_less)

lemma prune_granted:
  "state_ok st \<Longrightarrow> granted (prune_caches now st) k = Some e \<longleftrightarrow>
     granted st k = Some e \<and> now - CACHE_TTL_SECONDS \<le> token_created e"
  by (simp add: state_ok_def granted_def prune_caches_def Let_def dict.evict_subset not_less)

lemma home_response_state: "fst (home_response env cfg w st raw error status) = prune_caches (prune_time w) st"
  by (simp add: home_response_def Let_def split: sum.splits option.splits)

lemma preview_state:
  "fst (preview env cfg w form st) = st \<or> fst (preview env cfg w form st) = prune_caches (prune_time w) st"
  by (simp add: preview_def Let_def home_response_state split: sum.splits claims_exc.splits)

text \<open>The entry a login stores, and the logins that store one.\<close>

definition login_entry :: "world \<Rightarrow> (ustr, json) dict \<Rightarrow> auth_entry" where
  "login_entry w claims = \<lparr>auth_claims = claims, auth_nonce = fresh_nonce w, auth_created = store_time w\<rparr>"

definition requested_claims :: "py_env \<Rightarrow> (ustr, ustr) dict \<Rightarrow> (ustr, json) dict option" where
  "requested_claims env form =
     (if field_on form ''omit_claims'' then Some []
      else (case parse_claims env (map_of form (U ''claims_json'')) of Inl _ \<Rightarrow> None | Inr ms \<Rightarrow> Some ms))"

definition with_context :: "world \<Rightarrow> (ustr, json) dict \<Rightarrow> client_state \<Rightarrow> client_state" where
  "with_context w claims st =
     (let st1 = prune_caches (prune_time w) st in
      st1\<lparr>auth_cache := AList.update (fresh_context w) (login_entry w claims) (auth_cache st1)\<rparr>)"

lemma fst_answers:
  "fst (case x of Inl a \<Rightarrow> (s, f) | Inr b \<Rightarrow> (case g b of None \<Rightarrow> (s, f) | Some u \<Rightarrow> (s, k u))) = s"
  by (simp split: sum.splits option.splits)

lemma begin_state: "fst (begin_authorization env cfg w form claims st) = with_context w claims st"
  by (simp only: begin_authorization_def with_context_def login_entry_def Let_def fst_answers)

lemma login_state:
  "fst (login env cfg w form st) =
     (case requested_claims env form of
        Some claims \<Rightarrow> with_context w claims st
      | None \<Rightarrow> (case parse_claims env (map_of form (U ''claims_json'')) of
                  Inl (ClaimsValidationError _) \<Rightarrow> prune_caches (prune_time w) st
                | _ \<Rightarrow> st))"
  by (simp add: login_def requested_claims_def Let_def begin_state home_response_state
      split: sum.splits claims_exc.splits)

lemma with_context_pending:
  "state_ok st \<Longrightarrow> pending (with_context w claims st) k =
     (if k = fresh_context w then Some (login_entry w claims) else pending (prune_caches (prune_time w) st) k)"
  by (simp add: pending_def with_context_def Let_def dict.lookup_put)

lemma with_context_granted: "granted (with_context w claims st) = granted (prune_caches (prune_time w) st)"
  by (simp add: granted_def with_context_def Let_def)

lemma with_context_ok: "state_ok st \<Longrightarrow> state_ok (with_context w claims st)"
  using prune_ok [of st "prune_time w"] by (simp add: with_context_def Let_def state_ok_def dict.valid_put)

text \<open>The context a callback names, and the two ways it ends before the token exchange.\<close>

definition named_context :: "(ustr, ustr) dict \<Rightarrow> ustr option" where
  "named_context args =
     (case map_of args (U ''error'') of
        Some (c # s) \<Rightarrow> None
      | _ \<Rightarrow> (case map_of args (U ''state'') of Some (c # s) \<Rightarrow> Some (c # s) | _ \<Rightarrow> None))"

definition missing_context :: response where
  "missing_context = Page 400 (ErrorPage (U ''missing_context'')
     (U ''The local relying-party session has expired.''))"

definition without_context :: "ustr \<Rightarrow> client_state \<Rightarrow> client_state" where
  "without_context k st = st\<lparr>auth_cache := AList.delete k (auth_cache st)\<rparr>"

definition grant_entry :: "world \<Rightarrow> (ustr, json) dict \<Rightarrow> (ustr, json) dict \<Rightarrow> token_entry" where
  "grant_entry w token claims =
     \<lparr>refresh_token = get_member token ''refresh_token'', token_claims = claims, token_created = store_time w\<rparr>"

definition public_description :: "(ustr, ustr) dict \<Rightarrow> ustr" where
  "public_description args =
     (case map_of args (U ''error_description'') of
        None \<Rightarrow> U ''No public description was returned.'' | Some d \<Rightarrow> d)"

lemma callback_cases:
  obtains
    (refused) e where "map_of args (U ''error'') = Some e" "e \<noteq> []"
      "callback env w args st session = (st, session, Page 200 (ErrorPage e (public_description args)))"
      "named_context args = None"
  | (missing) "named_context args = None \<or> (\<exists>k. named_context args = Some k \<and> pending st k = None)"
      "callback env w args st session =
         ((case named_context args of None \<Rightarrow> st | Some k \<Rightarrow> without_context k st), session, missing_context)"
      "map_of args (U ''error'') = None \<or> map_of args (U ''error'') = Some []"
  | (invalid) k c where "named_context args = Some k" "pending st k = Some c"
      "verified_response w (authorize_access_token w args) (Some (auth_nonce c)) = None"
      "callback env w args st session = (without_context k st, session,
         Page 400 (ErrorPage (U ''token_validation_failed'') (U ''The authorization response could not be verified.'')))"
  | (valid) k c token id_token info where "named_context args = Some k" "pending st k = Some c"
      "verified_response w (authorize_access_token w args) (Some (auth_nonce c)) = Some (token, id_token, info)"
      "callback env w args st session =
         ((without_context k st)\<lparr>token_cache := AList.update (fresh_result w)
              (grant_entry w token (auth_claims c)) (token_cache st)\<rparr>,
          Some (fresh_result w),
          render_result env w (auth_claims c) id_token info (get_member token ''access_token'') True
            (U ''Authorization code response'') (fresh_result w))"
proof (cases "map_of args (U ''error'') = None \<or> map_of args (U ''error'') = Some []")
  case False
  then obtain x e where e: "map_of args (U ''error'') = Some (x # e)" by (metis list.exhaust not_None_eq)
  then show thesis by (intro refused [OF e]) (simp_all add: callback_def named_context_def public_description_def)
next
  case True
  show thesis
  proof (cases "map_of args (U ''state'')")
    case None
    with True show thesis
      by (intro missing) (auto simp: callback_def named_context_def missing_context_def Let_def)
  next
    case (Some i)
    show thesis
    proof (cases i)
      case Nil
      with True Some show thesis
        by (intro missing) (auto simp: callback_def named_context_def missing_context_def Let_def)
    next
      case (Cons a b)
      then have n: "named_context args = Some i" using True Some by (auto simp: named_context_def)
      note s = True Some Cons
      show thesis
      proof (cases "pending st i")
        case None
        with s n show thesis
          by (intro missing) (auto simp: callback_def missing_context_def pending_def without_context_def Let_def)
      next
        case (Some c)
        show thesis
        proof (cases "verified_response w (authorize_access_token w args) (Some (auth_nonce c))")
          case None
          with s n Some show thesis
            by (intro invalid [OF n Some])
               (auto simp: callback_def pending_def without_context_def Let_def)
        next
          case v: (Some r)
          obtain token id_token info where r: "r = (token, id_token, info)" by (cases r) auto
          with s n Some v show thesis
            by (intro valid [OF n Some, of token id_token info])
               (auto simp: callback_def pending_def without_context_def grant_entry_def Let_def)
        qed
      qed
    qed
  qed
qed

text \<open>Likewise for a refresh, on the state it has pruned.\<close>

definition no_refresh_token :: response where
  "no_refresh_token = Page 400 (ErrorPage (U ''no_refresh_token'')
     (U ''Start a new authorization request to test refresh.''))"

definition refreshed_entry :: "world \<Rightarrow> (ustr, json) dict \<Rightarrow> token_entry \<Rightarrow> token_entry" where
  "refreshed_entry w token c =
     c\<lparr>refresh_token := (case map_of token (U ''refresh_token'') of None \<Rightarrow> refresh_token c | Some r \<Rightarrow> r),
       token_created := store_time w\<rparr>"

lemma refresh_cases:
  fixes w st
  defines "st1 \<equiv> prune_caches (prune_time w) st"
  obtains
    (absent) "\<And>k c. chosen_result form session = Some k \<Longrightarrow> granted st1 k = Some c \<Longrightarrow> \<not> truthy (refresh_token c)"
      "refresh env w form st session = (st1, no_refresh_token)"
  | (invalid) k c where "chosen_result form session = Some k" "granted st1 k = Some c" "truthy (refresh_token c)"
      "verified_response w (fetch_access_token w (refresh_token c)) None = None"
      "refresh env w form st session = (st1, Page 400 (ErrorPage (U ''refresh_failed'')
         (U ''The refreshed token response could not be verified.'')))"
  | (valid) k c token id_token info where "chosen_result form session = Some k" "granted st1 k = Some c"
      "truthy (refresh_token c)"
      "verified_response w (fetch_access_token w (refresh_token c)) None = Some (token, id_token, info)"
      "refresh env w form st session =
         (st1\<lparr>token_cache := AList.update k (refreshed_entry w token c) (token_cache st1)\<rparr>,
          render_result env w (token_claims c) id_token info (get_member token ''access_token'') True
            (U ''Refresh token response'') k)"
proof -
  consider (none) "chosen_result form session = None"
    | (gone) k where "chosen_result form session = Some k" "granted st1 k = None"
    | (found) k c where "chosen_result form session = Some k" "granted st1 k = Some c"
    by (metis not_None_eq)
  then show thesis
  proof cases
    case none
    then show thesis
      by (intro absent) (auto simp: refresh_def no_refresh_token_def st1_def Let_def)
  next
    case gone
    then show thesis
      by (intro absent) (auto simp: refresh_def no_refresh_token_def st1_def granted_def Let_def)
  next
    case found
    show thesis
    proof (cases "truthy (refresh_token c)")
      case False
      with found show thesis
        by (intro absent) (auto simp: refresh_def no_refresh_token_def st1_def granted_def Let_def)
    next
      case True
      show thesis
      proof (cases "verified_response w (fetch_access_token w (refresh_token c)) None")
        case None
        with found True show thesis
          by (intro invalid [OF found True]) (auto simp: refresh_def st1_def granted_def Let_def)
      next
        case (Some r)
        obtain token id_token info where r: "r = (token, id_token, info)" by (cases r) auto
        with found True Some show thesis
          by (intro valid [OF found True, of token id_token info])
             (auto simp: refresh_def st1_def granted_def refreshed_entry_def Let_def)
      qed
    qed
  qed
qed

lemma state_ok_simps [simp]:
  "state_ok st \<Longrightarrow> state_ok (without_context k st)"
  "state_ok st \<Longrightarrow> state_ok (st\<lparr>token_cache := AList.update k e (token_cache st)\<rparr>)"
  "state_ok st \<Longrightarrow> state_ok ((without_context k st)\<lparr>token_cache := AList.update r e (token_cache st)\<rparr>)"
  by (simp_all add: state_ok_def without_context_def dict.valid_put dict.valid_drop)

lemma cache_simps [simp]:
  "pending (without_context k st) k' = (if k' = k then None else pending st k')"
  "granted (without_context k st) = granted st"
  "pending (st\<lparr>token_cache := tc\<rparr>) = pending st"
  "granted (st\<lparr>token_cache := AList.update k e (token_cache st)\<rparr>) k' = (if k' = k then Some e else granted st k')"
  "granted ((without_context i st)\<lparr>token_cache := AList.update k e (token_cache st)\<rparr>) k' =
     (if k' = k then Some e else granted st k')"
  by (simp_all add: pending_def granted_def without_context_def dict.lookup_put dict.lookup_drop)

section \<open>One step of the machine\<close>

lemma callback_state_ok: "state_ok st \<Longrightarrow> state_ok (fst (callback env w args st session))"
  by (cases rule: callback_cases [of args env w st session]) (simp_all split: option.splits)

lemma refresh_state_ok: "state_ok st \<Longrightarrow> state_ok (fst (refresh env w form st session))"
  by (cases rule: refresh_cases [of form session w st env]) (simp_all add: prune_ok)

lemma serve_callback:
  "serve env cfg w (Callback args session) st =
     (fst (callback env w args st session), snd (snd (callback env w args st session)))"
  by (simp split: prod.splits)

lemma serve_state_ok: "state_ok st \<Longrightarrow> state_ok (fst (serve env cfg w req st))"
proof (cases req)
  case (Callback args session)
  then show "state_ok st \<Longrightarrow> ?thesis"
    by (simp only: serve_callback fst_conv callback_state_ok)
next
  case (Preview form)
  then show "state_ok st \<Longrightarrow> ?thesis"
    using preview_state [of env cfg w form st] by (auto simp: prune_ok)
qed (auto simp: home_def home_response_state prune_ok login_state with_context_ok refresh_state_ok
      split: option.splits sum.splits claims_exc.splits)

text \<open>Where the entries after a step come from.\<close>

lemma serve_pending:
  assumes "state_ok st" "pending (fst (serve env cfg w req st)) k = Some e"
  shows "pending st k = Some e \<and>
           (\<forall>args s. req = Callback args s \<longrightarrow> named_context args \<noteq> Some k) \<or>
         (\<exists>form claims. req = Login form \<and> requested_claims env form = Some claims
            \<and> k = fresh_context w \<and> e = login_entry w claims)"
proof (cases req)
  case Home
  with assms show ?thesis by (auto simp: home_def home_response_state prune_pending)
next
  case (Preview form)
  with assms preview_state [of env cfg w form st] show ?thesis by (auto simp: prune_pending)
next
  case (Login form)
  with assms show ?thesis
    by (auto simp: login_state with_context_pending prune_pending
        split: option.splits if_splits sum.splits claims_exc.splits)
next
  case (Callback args s)
  with assms have "pending (fst (callback env w args st s)) k = Some e" by (simp add: serve_callback del: serve.simps)
  then show ?thesis
    by (cases rule: callback_cases [of args env w st s])
       (use Callback in \<open>auto split: option.splits if_splits\<close>)
next
  case (Refresh form s)
  with assms have "pending (fst (refresh env w form st s)) k = Some e" by simp
  then show ?thesis
    by (cases rule: refresh_cases [of form s w st env]) (use Refresh assms(1) in \<open>auto simp: prune_pending\<close>)
next
  case Discovery
  with assms show ?thesis by simp
qed

lemma serve_granted:
  assumes "state_ok st" "granted (fst (serve env cfg w req st)) k = Some e"
  shows "(\<exists>e'. granted st k = Some e' \<and> token_claims e = token_claims e') \<or>
         (\<exists>args s i c. req = Callback args s \<and> named_context args = Some i \<and> pending st i = Some c
            \<and> k = fresh_result w \<and> token_claims e = auth_claims c)"
proof (cases req)
  case Home
  with assms show ?thesis by (auto simp: home_def home_response_state prune_granted)
next
  case (Preview form)
  with assms preview_state [of env cfg w form st] show ?thesis by (auto simp: prune_granted)
next
  case (Login form)
  with assms show ?thesis
    by (auto simp: login_state with_context_granted prune_granted
        split: option.splits if_splits sum.splits claims_exc.splits)
next
  case (Callback args s)
  with assms have "granted (fst (callback env w args st s)) k = Some e" by (simp add: serve_callback del: serve.simps)
  then show ?thesis
    by (cases rule: callback_cases [of args env w st s])
       (use Callback in \<open>auto simp: grant_entry_def split: option.splits if_splits\<close>)
next
  case (Refresh form s)
  with assms have "granted (fst (refresh env w form st s)) k = Some e" by simp
  then show ?thesis
    by (cases rule: refresh_cases [of form s w st env])
       (use Refresh assms(1) in \<open>auto simp: prune_granted refreshed_entry_def split: if_splits\<close>)
next
  case Discovery
  with assms show ?thesis by simp
qed

section \<open>Runs\<close>

lemma run_state_ok: "run env cfg tr st \<Longrightarrow> state_ok st"
proof (induction rule: run.induct)
  case start
  show ?case by (simp add: initial_state_def state_ok_def)
next
  case (step tr st w req st' r)
  then show ?case by (metis fst_conv serve_state_ok)
qed

text \<open>A login of the trace that was accepted, with the context it opened.\<close>

definition opened :: "py_env \<Rightarrow> ustr \<Rightarrow> world \<times> client_request \<times> response \<Rightarrow> bool" where
  "opened env k ev \<longleftrightarrow> (case ev of (w, req, r) \<Rightarrow>
     (case req of Login form \<Rightarrow> requested_claims env form \<noteq> None \<and> fresh_context w = k | _ \<Rightarrow> False))"

text \<open>A callback of the trace that found its context.\<close>

definition redeemed :: "ustr \<Rightarrow> world \<times> client_request \<times> response \<Rightarrow> bool" where
  "redeemed k ev \<longleftrightarrow> (case ev of (w, req, r) \<Rightarrow>
     (case req of Callback args _ \<Rightarrow> named_context args = Some k \<and> r \<noteq> missing_context | _ \<Rightarrow> False))"

definition opened_as :: "py_env \<Rightarrow> ustr \<Rightarrow> auth_entry \<Rightarrow> world \<times> client_request \<times> response \<Rightarrow> bool" where
  "opened_as env k e ev \<longleftrightarrow> (case ev of (w, req, r) \<Rightarrow>
     (case req of
        Login form \<Rightarrow> fresh_context w = k \<and> requested_claims env form = Some (auth_claims e)
          \<and> auth_nonce e = fresh_nonce w \<and> auth_created e = store_time w
      | _ \<Rightarrow> False))"

lemma opened_as_opened: "opened_as env k e ev \<Longrightarrow> opened env k ev"
  by (auto simp: opened_as_def opened_def split: client_request.splits)

lemma run_pending:
  "run env cfg tr st \<Longrightarrow> pending st k = Some e \<Longrightarrow> \<exists>ev \<in> set tr. opened_as env k e ev"
proof (induction arbitrary: k e rule: run.induct)
  case start
  then show ?case by (simp add: initial_state_def pending_def)
next
  case (step tr st w req st' r)
  have "pending (fst (serve env cfg w req st)) k = Some e" using step.hyps(2) step.prems by simp
  from serve_pending [OF run_state_ok [OF step.hyps(1)] this] show ?case
    using step.IH [of k e] by (auto simp: opened_as_def login_entry_def)
qed

lemma run_granted:
  "run env cfg tr st \<Longrightarrow> granted st k = Some e \<Longrightarrow>
     \<exists>ev \<in> set tr. \<exists>i c. opened_as env i c ev \<and> auth_claims c = token_claims e"
proof (induction arbitrary: k e rule: run.induct)
  case start
  then show ?case by (simp add: initial_state_def granted_def)
next
  case (step tr st w req st' r)
  have "granted (fst (serve env cfg w req st)) k = Some e" using step.hyps(2) step.prems by simp
  from serve_granted [OF run_state_ok [OF step.hyps(1)] this] show ?case
  proof (elim disjE exE conjE)
    fix e' assume "granted st k = Some e'" "token_claims e = token_claims e'"
    with step.IH [of k e'] show ?case by auto
  next
    fix args s i c
    assume "pending st i = Some c" "token_claims e = auth_claims c"
    with run_pending [OF step.hyps(1)] show ?case by (metis Un_iff set_append)
  qed
qed

lemma render_not_missing [simp]:
  "render_result env w cl i u a b s k \<noteq> missing_context"
  by (simp add: render_result_def missing_context_def split: sum.splits)

lemma callback_redeems:
  assumes "named_context args = Some k"
  shows "snd (snd (callback env w args st s)) \<noteq> missing_context \<longleftrightarrow> pending st k \<noteq> None"
    and "pending (fst (callback env w args st s)) k = None"
  using assms
  by (cases rule: callback_cases [of args env w st s];
      auto simp: missing_context_def [symmetric] split: option.splits;
      simp add: missing_context_def U_def)+

text \<open>
  At most one callback succeeds for each login: counting the pending context too.
\<close>

definition times :: "('a \<Rightarrow> bool) \<Rightarrow> 'a list \<Rightarrow> nat" where
  "times P xs = length (filter P xs)"

lemma times_simps [simp]: "times P [] = 0" "times P (xs @ [x]) = times P xs + (if P x then 1 else 0)"
  by (simp_all add: times_def)

lemma run_single_use:
  "run env cfg tr st \<Longrightarrow>
     times (redeemed k) tr + (if pending st k = None then 0 else 1) \<le> times (opened env k) tr"
proof (induction rule: run.induct)
  case start
  show ?case by (simp add: initial_state_def pending_def)
next
  case (step tr st w req st' r)
  have ok: "state_ok st" by (rule run_state_ok [OF step.hyps(1)])
  have st': "st' = fst (serve env cfg w req st)" "r = snd (serve env cfg w req st)" using step.hyps(2) by simp_all
  have new: "pending st' k = None \<or> pending st k \<noteq> None \<or> opened env k (w, req, r)"
  proof (rule ccontr)
    assume n: "\<not> ?thesis"
    then obtain e where "pending st' k = Some e" by auto
    with serve_pending [OF ok, of env cfg w req k e] n st'(1) show False by (auto simp: opened_def)
  qed
  show ?case
  proof (cases "redeemed k (w, req, r)")
    case True
    then obtain args s where c: "req = Callback args s" "named_context args = Some k" "r \<noteq> missing_context"
      by (auto simp: redeemed_def split: client_request.splits)
    with st' have "pending st k \<noteq> None" "pending st' k = None"
      using callback_redeems [OF c(2), of env w st s] by (simp_all add: serve_callback del: serve.simps)
    with step.IH True show ?thesis by (simp split: if_splits)
  next
    case False
    with step.IH new show ?thesis by (auto split: if_splits)
  qed
qed

section \<open>A sample session\<close>

text \<open>One login without a claims object and its callback, for the witnesses below.\<close>

definition sample_config :: config where
  "sample_config = \<lparr>issuer = U ''http://op'', smtp4dev_url = U ''http://mail'', public_url = [],
     external_callback = U ''http://rp/callback''\<rparr>"

definition sample_world :: world where
  "sample_world = \<lparr>authorize_redirect = (\<lambda>cb s ps. Some (cb @ s)),
     authorize_access_token = (\<lambda>args. Some [(U ''access_token'', JStr (U ''opaque'')), (U ''refresh_token'', JStr (U ''r1''))]),
     fetch_access_token = (\<lambda>t. Some [(U ''access_token'', JStr (U ''opaque''))]),
     parse_id_token = (\<lambda>t n. Some [(U ''sub'', JStr (U ''alice''))]),
     userinfo = (\<lambda>t. Some [(U ''sub'', JStr (U ''alice''))]),
     issuer_document = Inr (JObj [(U ''claims_supported'', JArr [])]),
     prune_time = 1000, store_time = 1001,
     fresh_nonce = U ''n1'', fresh_context = U ''c1'', fresh_result = U ''t1''\<rparr>"

definition sample_form :: "(ustr, ustr) dict" where
  "sample_form = [(U ''omit_claims'', U ''on'')]"

definition sample_args :: "(ustr, ustr) dict" where
  "sample_args = [(U ''state'', U ''c1''), (U ''code'', U ''x'')]"

definition sample_opened :: client_state where
  "sample_opened = \<lparr>auth_cache = [(U ''c1'', \<lparr>auth_claims = [], auth_nonce = U ''n1'', auth_created = 1001\<rparr>)],
     token_cache = []\<rparr>"

definition sample_granted :: client_state where
  "sample_granted = \<lparr>auth_cache = [], token_cache = [(U ''t1'',
     \<lparr>refresh_token = JStr (U ''r1''), token_claims = [], token_created = 1001\<rparr>)]\<rparr>"

lemma sample_login:
  "serve sample_env sample_config sample_world (Login sample_form) initial_state =
     (sample_opened, Redirect (U ''http://rp/callbackc1''))"
  by (simp add: login_def sample_form_def field_on_def begin_authorization_def Let_def sample_world_def
      sample_config_def callback_url_def prune_caches_def initial_state_def sample_opened_def
      evict_dict_def expired_keys_def pop_all_def U_append [symmetric])

lemma sample_callback:
  "\<exists>v. serve sample_env sample_config sample_world (Callback sample_args None) sample_opened =
     (sample_granted, Page 200 (ResultPage v))"
proof -
  have p: "\<exists>t. pretty_json sample_env (JObj []) = Inr t" "\<exists>t. pretty_json sample_env (JObj [(U ''sub'', JStr (U ''alice''))]) = Inr t"
    "\<exists>t. pretty_json sample_env (JObj [(U ''claims_supported'', JArr [])]) = Inr t"
    by (simp_all add: pretty_json_def dumps_indent_def)
  have d: "decoded_access_token sample_env (JStr (U ''opaque'')) = Inr []"
    by (simp add: decoded_access_token_def U_def)
  show ?thesis
    using p d
    by (auto simp: callback_def sample_args_def sample_opened_def sample_world_def Let_def verified_response_def
        get_member_def render_result_def discovery_metadata_def as_document_def shown_member_def sample_granted_def)
qed

lemma sample_run_1:
  "run sample_env sample_config [(sample_world, Login sample_form, Redirect (U ''http://rp/callbackc1''))] sample_opened"
  using run.step [OF run.start sample_login] by simp

lemma sample_state_ok: "state_ok initial_state" "state_ok sample_opened" "state_ok sample_granted"
  by (simp_all add: state_ok_def initial_state_def sample_opened_def sample_granted_def dict_ok_def)

lemma sample_run_2: "\<exists>r. run sample_env sample_config
  [(sample_world, Login sample_form, Redirect (U ''http://rp/callbackc1'')),
   (sample_world, Callback sample_args None, r)] sample_granted"
  using run.step [OF sample_run_1] sample_callback by fastforce

end
