(* ===== verification/Client_Theorems.thy ===== *)
theory Client_Theorems
  imports Client_App_Props
begin

text \<open>
  The theorems about the relying party (test-client/app.py): pruning, the agreement between
  a result page and the login it answers, the single use of a context, the isolation of
  concurrent tabs, the outcome of every callback and refresh, the parameters of a login, and
  what of a token can reach a page.
\<close>

section \<open>Properties\<close>

text \<open>C15: pruning removes exactly the entries of both caches that are older than
  fifteen minutes, whatever the order of the entries, keeps every other entry unchanged and in
  its place, and never fails.\<close>

theorem prune_caches_exact:
  assumes "state_ok st"
  shows "auth_cache (prune_caches now st) = filter (\<lambda>(k, e). now - 900 \<le> auth_created e) (auth_cache st)
       \<and> token_cache (prune_caches now st) = filter (\<lambda>(k, e). now - 900 \<le> token_created e) (token_cache st)"
  using assms
  by (simp add: state_ok_def prune_caches_def Let_def evict_dict_filter CACHE_TTL_SECONDS_def not_less)

theorem prune_caches_exact_witness:
  "auth_cache (prune_caches 2000 sample_opened) = []
   \<and> auth_cache (prune_caches 1901 sample_opened) = auth_cache sample_opened"
  using prune_caches_exact [OF sample_state_ok(2), of 2000] prune_caches_exact [OF sample_state_ok(2), of 1901]
  by (simp add: sample_opened_def)

text \<open>C1: a result page for an authorization response comes from a login of this
  client. In every run, when a callback is answered with such a page, an accepted login
  of the same run opened the context the callback names; the token response passed validation
  with that login's nonce; the page shows that login's claims and exactly the ID Token
  and UserInfo that were verified; and the stored result carries the same claims.\<close>

theorem callback_agrees_with_login:
  assumes "run env cfg tr st" and "serve env cfg w (Callback args s) st = (st', Page 200 (ResultPage v))"
  shows "\<exists>k e token id_token info. named_context args = Some k
    \<and> (\<exists>ev \<in> set tr. opened_as env k e ev)
    \<and> authorize_access_token w args = Some token
    \<and> parse_id_token w token (Some (auth_nonce e)) = Some id_token \<and> userinfo w token = Some info
    \<and> pretty_json env (JObj (auth_claims e)) = Inr (view_claims v)
    \<and> pretty_json env (JObj id_token) = Inr (view_id_token v)
    \<and> pretty_json env (JObj info) = Inr (view_userinfo v)
    \<and> granted st' (view_result_id v) = Some (grant_entry w token (auth_claims e))
    \<and> pending st' k = None"
proof -
  have c: "snd (snd (callback env w args st s)) = Page 200 (ResultPage v)" "st' = fst (callback env w args st s)"
    using assms(2) by (simp_all add: serve_callback del: serve.simps)
  show ?thesis
  proof (cases rule: callback_cases [of args env w st s])
    case (valid k e token id_token info)
    have "\<exists>ev \<in> set tr. opened_as env k e ev" by (rule run_pending [OF assms(1) valid(2)])
    moreover have "render_result env w (auth_claims e) id_token info (get_member token ''access_token'') True
        (U ''Authorization code response'') (fresh_result w) = Page 200 (ResultPage v)"
      using c(1) valid(4) by simp
    then have "pretty_json env (JObj (auth_claims e)) = Inr (view_claims v)"
      "pretty_json env (JObj id_token) = Inr (view_id_token v)"
      "pretty_json env (JObj info) = Inr (view_userinfo v)" "view_result_id v = fresh_result w"
      by (auto simp: render_result_def split: sum.splits)
    ultimately show ?thesis
      using valid c(2) by (auto simp: verified_response_def bind_eq_Some_conv)
  qed (use c in \<open>auto simp: missing_context_def\<close>)
qed

theorem callback_agrees_with_login_witness:
  "\<exists>(v :: result_view) k e token id_token info. named_context sample_args = Some k
    \<and> (\<exists>ev \<in> set [(sample_world, Login sample_form, Redirect (U ''http://rp/callbackc1''))].
          opened_as sample_env k e ev)
    \<and> authorize_access_token sample_world sample_args = Some token
    \<and> parse_id_token sample_world token (Some (auth_nonce e)) = Some id_token
    \<and> userinfo sample_world token = Some info
    \<and> pretty_json sample_env (JObj (auth_claims e)) = Inr (view_claims v)
    \<and> pretty_json sample_env (JObj id_token) = Inr (view_id_token v)
    \<and> pretty_json sample_env (JObj info) = Inr (view_userinfo v)
    \<and> granted sample_granted (view_result_id v) = Some (grant_entry sample_world token (auth_claims e))
    \<and> pending sample_granted k = None"
proof -
  obtain v where r: "serve sample_env sample_config sample_world (Callback sample_args None) sample_opened =
     (sample_granted, Page 200 (ResultPage v))" using sample_callback by blast
  show ?thesis by (rule exI [of _ v]) (rule callback_agrees_with_login [OF sample_run_1 r])
qed

text \<open>C2: an authorization context is used at most once. In every run and for every
  context id, the callbacks that got past the missing-context page are at most as many
  as the accepted logins that were given that id, and one fewer while a context with that id
  is still pending: a replayed or guessed state value is always refused.\<close>

theorem context_single_use:
  assumes "run env cfg tr st"
  shows "times (redeemed k) tr + (if pending st k = None then 0 else 1) \<le> times (opened env k) tr"
  using assms by (rule run_single_use)

theorem context_single_use_witness:
  "times (redeemed (U ''c1'')) [(sample_world, Login sample_form, Redirect (U ''http://rp/callbackc1''))]
     + (if pending sample_opened (U ''c1'') = None then 0 else 1)
   \<le> times (opened sample_env (U ''c1'')) [(sample_world, Login sample_form, Redirect (U ''http://rp/callbackc1''))]"
  by (rule context_single_use [OF sample_run_1])

text \<open>The claims attached to a stored result, which every later refresh page
  shows, are those of an accepted login of the run; refreshing never changes them.\<close>

theorem stored_claims_origin:
  assumes "run env cfg tr st" and "granted st k = Some e"
  shows "\<exists>ev \<in> set tr. \<exists>i c. opened_as env i c ev \<and> auth_claims c = token_claims e"
  using assms by (rule run_granted)

theorem stored_claims_origin_witness:
  "\<exists>r. \<exists>ev \<in> set [(sample_world, Login sample_form, Redirect (U ''http://rp/callbackc1'')),
                    (sample_world, Callback sample_args None, r)].
      \<exists>i c. opened_as sample_env i c ev \<and> auth_claims c = []"
proof -
  obtain r where r: "run sample_env sample_config
    [(sample_world, Login sample_form, Redirect (U ''http://rp/callbackc1'')),
     (sample_world, Callback sample_args None, r)] sample_granted" using sample_run_2 by blast
  have "granted sample_granted (U ''t1'') =
      Some \<lparr>refresh_token = JStr (U ''r1''), token_claims = [], token_created = 1001\<rparr>"
    by (simp add: sample_granted_def granted_def)
  from stored_claims_origin [OF r this] show ?thesis by auto
qed

text \<open>C14: concurrent tabs do not disturb each other. An accepted login adds its own
  context, with the claims and the nonce of that login, and leaves every other context and
  every result as it was, unless it is older than fifteen minutes; a callback removes only the
  context it names, touches no other, and adds at most its own result.\<close>

theorem tabs_isolated:
  assumes "state_ok st"
  shows "(\<forall>form claims. requested_claims env form = Some claims \<longrightarrow>
      (\<forall>k e. pending (fst (login env cfg w form st)) k = Some e \<longleftrightarrow>
          (if k = fresh_context w
           then e = \<lparr>auth_claims = claims, auth_nonce = fresh_nonce w, auth_created = store_time w\<rparr>
           else pending st k = Some e \<and> prune_time w - 900 \<le> auth_created e))
      \<and> (\<forall>k e. granted (fst (login env cfg w form st)) k = Some e \<longleftrightarrow>
          granted st k = Some e \<and> prune_time w - 900 \<le> token_created e))
    \<and> (\<forall>args s k. named_context args \<noteq> Some k \<longrightarrow>
          pending (fst (callback env w args st s)) k = pending st k)
    \<and> (\<forall>args s k. k \<noteq> fresh_result w \<longrightarrow> granted (fst (callback env w args st s)) k = granted st k)"
proof (intro conjI allI impI)
  fix form claims and k :: ustr and e :: auth_entry assume r: "requested_claims env form = Some claims"
  show "pending (fst (login env cfg w form st)) k = Some e \<longleftrightarrow>
          (if k = fresh_context w
           then e = \<lparr>auth_claims = claims, auth_nonce = fresh_nonce w, auth_created = store_time w\<rparr>
           else pending st k = Some e \<and> prune_time w - 900 \<le> auth_created e)"
    using assms by (auto simp: login_state r with_context_pending login_entry_def prune_pending CACHE_TTL_SECONDS_def)
next
  fix form claims and k :: ustr and e :: token_entry assume r: "requested_claims env form = Some claims"
  show "granted (fst (login env cfg w form st)) k = Some e \<longleftrightarrow>
          granted st k = Some e \<and> prune_time w - 900 \<le> token_created e"
    using assms by (simp add: login_state r with_context_granted prune_granted CACHE_TTL_SECONDS_def)
next
  fix args s k assume "named_context args \<noteq> Some k"
  then show "pending (fst (callback env w args st s)) k = pending st k"
    by (cases rule: callback_cases [of args env w st s]) (auto split: option.splits)
next
  fix args s k assume "k \<noteq> fresh_result w"
  then show "granted (fst (callback env w args st s)) k = granted st k"
    by (cases rule: callback_cases [of args env w st s]) (auto split: option.splits)
qed

theorem tabs_isolated_witness:
  "pending (fst (callback sample_env sample_world [(U ''state'', U ''other'')] sample_opened None)) (U ''c1'')
     = pending sample_opened (U ''c1'')"
proof -
  have "named_context [(U ''state'', U ''other'')] \<noteq> Some (U ''c1'')"
    by (simp add: named_context_def U_def)
  with tabs_isolated [OF sample_state_ok(2), THEN conjunct2, THEN conjunct1] show ?thesis by blast
qed

text \<open>C11: a callback ends in one of four ways, by what it was given. An
  issuer error is shown and changes nothing; a missing, empty or unknown state is refused with
  400; a token response that Authlib rejects (no token, an ID Token that fails validation
  against the login's nonce, no UserInfo) is refused with 400, the context is used up and no
  result is stored; otherwise the result is stored under the new id, which the session
  remembers.\<close>

theorem callback_outcomes:
  "(case map_of args (U ''error'') of
      Some (c # e) \<Rightarrow> callback env w args st session = (st, session, Page 200 (ErrorPage (c # e) (public_description args)))
    | _ \<Rightarrow>
      (case named_context args of
         None \<Rightarrow> callback env w args st session = (st, session, missing_context)
       | Some k \<Rightarrow>
         (case pending st k of
            None \<Rightarrow> callback env w args st session = (without_context k st, session, missing_context)
          | Some c \<Rightarrow>
            (case verified_response w (authorize_access_token w args) (Some (auth_nonce c)) of
               None \<Rightarrow> (\<exists>d. callback env w args st session =
                  (without_context k st, session, Page 400 (ErrorPage (U ''token_validation_failed'') d)))
             | Some (token, i, u) \<Rightarrow>
                 (\<exists>st' r. callback env w args st session = (st', Some (fresh_result w), r)
                   \<and> auth_cache st' = AList.delete k (auth_cache st)
                   \<and> (\<forall>x. granted st' x = (if x = fresh_result w
                        then Some (grant_entry w token (auth_claims c)) else granted st x)))))))"
proof (cases rule: callback_cases [of args env w st session])
  case (refused e)
  then show ?thesis by (cases e) auto
next
  case missing
  then show ?thesis
    by (auto simp: named_context_def split: option.splits list.splits)
next
  case (invalid k c)
  then show ?thesis by (auto simp: named_context_def split: option.splits list.splits)
next
  case (valid k c token id_token info)
  then show ?thesis
    by (auto simp: named_context_def without_context_def dict.lookup_put granted_def split: option.splits list.splits)
qed

text \<open>C12: a refresh prunes first, so a result older than fifteen minutes is as
  good as none. Without a result, or with one that has no refresh token, it answers 400 and
  asks for a new authorization; a token response that fails validation is refused with 400 and
  the stored result is kept; otherwise the stored result keeps its claims, gets the new
  refresh token or keeps the old one when the issuer sent none, becomes fresh, and no other
  result changes.\<close>

theorem refresh_outcomes:
  fixes st w
  defines "st1 \<equiv> prune_caches (prune_time w) st"
  shows "auth_cache (fst (refresh env w form st session)) = auth_cache st1
    \<and> (case Option.bind (chosen_result form session) (granted st1) of
        None \<Rightarrow> refresh env w form st session = (st1, no_refresh_token)
      | Some c \<Rightarrow>
         (if \<not> truthy (refresh_token c) then refresh env w form st session = (st1, no_refresh_token)
          else (case verified_response w (fetch_access_token w (refresh_token c)) None of
             None \<Rightarrow> (\<exists>d. refresh env w form st session = (st1, Page 400 (ErrorPage (U ''refresh_failed'') d)))
           | Some (token, i, u) \<Rightarrow>
               (\<forall>x. granted (fst (refresh env w form st session)) x =
                  (if Some x = chosen_result form session
                   then Some \<lparr>refresh_token = (case map_of token (U ''refresh_token'') of
                                None \<Rightarrow> refresh_token c | Some r \<Rightarrow> r),
                              token_claims = token_claims c, token_created = store_time w\<rparr>
                   else granted st1 x))
               \<and> (\<exists>k. chosen_result form session = Some k \<and>
                   snd (refresh env w form st session) = render_result env w (token_claims c) i u
                     (get_member token ''access_token'') True (U ''Refresh token response'') k))))"
proof (cases rule: refresh_cases [of form session w st env])
  case absent
  have "truthy (refresh_token c) \<Longrightarrow> False"
    if "Option.bind (chosen_result form session) (granted st1) = Some c" for c
    using that absent(1) by (auto simp: st1_def bind_eq_Some_conv)
  with absent(2) show ?thesis by (auto simp: st1_def split: option.splits)
next
  case (invalid k c)
  then show ?thesis by (auto simp: st1_def)
next
  case (valid k c token id_token info)
  then show ?thesis by (auto simp: st1_def refreshed_entry_def)
qed

lemma snd_answers:
  "snd (case x of Inl a \<Rightarrow> (s, Failure)
     | Inr b \<Rightarrow> (case g b of None \<Rightarrow> (s, Failure) | Some u \<Rightarrow> (s, Redirect u))) =
   (case x of Inl a \<Rightarrow> Failure | Inr b \<Rightarrow> (case g b of None \<Rightarrow> Failure | Some u \<Rightarrow> Redirect u))"
  by (simp split: sum.splits option.splits)

text \<open>C10: what an accepted login sends to the issuer. Authlib is called with the
  configured callback address, the context id as state, the nonce that was cached with that
  context, the offline scope and the login prompt exactly when asked for; and, unless the
  claims were omitted, a claims parameter that is ASCII and reads back as exactly the
  claims object that was cached. Only a claims object nested too deeply for the encoder or a
  failing Authlib keeps the redirect from being sent.\<close>

theorem login_request:
  assumes "state_ok st" "float_env env" "requested_claims env form = Some claims"
  shows "\<exists>params answer. login env cfg w form st = (with_context w claims st, answer)
    \<and> pending (fst (login env cfg w form st)) (fresh_context w) = Some (login_entry w claims)
    \<and> map_of params (U ''nonce'') = Some (auth_nonce (login_entry w claims))
    \<and> map_of params (U ''scope'') = (if field_on form ''offline_access''
          then Some (U ''openid profile email offline_access'') else None)
    \<and> map_of params (U ''prompt'') = (if field_on form ''prompt_login'' then Some (U ''login'') else None)
    \<and> (if field_on form ''omit_claims'' then map_of params (U ''claims'') = None
       else \<exists>t. map_of params (U ''claims'') = Some t \<and> loads env t = Inr (JObj claims) \<and> (\<forall>c \<in> set t. c < 128))
    \<and> (answer = (case authorize_redirect w (callback_url cfg) (fresh_context w) params of
                    None \<Rightarrow> Failure | Some url \<Rightarrow> Redirect url)
       \<or> (answer = Failure \<and> \<not> fits (c_enc_depth env) (JObj claims)))"
proof -
  define t where "t = dump compact_style 0 (JObj claims)"
  define params where "params = (U ''nonce'', fresh_nonce w)
    # (if field_on form ''offline_access'' then [(U ''scope'', U ''openid profile email offline_access'')] else [])
    @ (if field_on form ''omit_claims'' then [] else [(U ''claims'', t)])
    @ (if field_on form ''prompt_login'' then [(U ''prompt'', U ''login'')] else [])"
  have l: "login env cfg w form st = begin_authorization env cfg w form claims st"
    using assms(3) by (auto simp: requested_claims_def login_def Let_def split: if_splits sum.splits)
  have ok: "json_ok env (scan_depth env) (JObj claims)" if "\<not> field_on form ''omit_claims''"
  proof -
    have "parse_claims env (map_of form (U ''claims_json'')) = Inr claims"
      using assms(3) that by (auto simp: requested_claims_def split: sum.splits)
    then show ?thesis by (rule parse_claims_ok) (rule assms(2))
  qed
  have t: "loads env t = Inr (JObj claims) \<and> (\<forall>c \<in> set t. c < 128)" if "\<not> field_on form ''omit_claims''"
    unfolding t_def using loads_dump [OF style_ok_compact ok [OF that]]
      dump_ascii [OF style_ok_compact _ ok [OF that]] by (simp add: compact_style_def)
  have a: "snd (login env cfg w form st) = (case authorize_redirect w (callback_url cfg) (fresh_context w) params of
                    None \<Rightarrow> Failure | Some url \<Rightarrow> Redirect url)
       \<or> (snd (login env cfg w form st) = Failure \<and> \<not> fits (c_enc_depth env) (JObj claims))"
    unfolding l begin_authorization_def Let_def snd_answers params_def t_def
    by (cases "field_on form ''omit_claims''") (auto simp: dumps_compact_def)
  show ?thesis
  proof (intro exI conjI)
    show "login env cfg w form st = (with_context w claims st, snd (login env cfg w form st))"
      by (simp add: prod_eq_iff l begin_state)
    show "pending (fst (login env cfg w form st)) (fresh_context w) = Some (login_entry w claims)"
      by (simp add: l begin_state with_context_pending assms(1))
    show "map_of params (U ''nonce'') = Some (auth_nonce (login_entry w claims))"
      by (simp add: params_def login_entry_def)
    show "if field_on form ''omit_claims'' then map_of params (U ''claims'') = None
       else \<exists>t. map_of params (U ''claims'') = Some t \<and> loads env t = Inr (JObj claims) \<and> (\<forall>c \<in> set t. c < 128)"
      using t by (simp add: params_def)
  qed (use a in \<open>simp_all add: params_def\<close>)
qed

theorem login_request_witness:
  "\<exists>params answer. login sample_env sample_config sample_world sample_form initial_state
       = (with_context sample_world [] initial_state, answer)
     \<and> map_of params (U ''nonce'') = Some (auth_nonce (login_entry sample_world []))
     \<and> map_of params (U ''claims'') = None"
proof -
  have r: "requested_claims sample_env sample_form = Some []"
    by (simp add: requested_claims_def sample_form_def field_on_def)
  from login_request [OF sample_state_ok(1) sample_env_float r, of sample_config sample_world] show ?thesis
    by (auto simp: sample_form_def field_on_def)
qed

text \<open>C13: neither the bearer token nor the refresh token reaches a page. Two token
  responses for which validation and UserInfo agree, and whose access tokens have the same
  payload segment, give the same answer byte for byte: the header and the signature of the
  access token, without which it cannot be used, and the refresh token leave no trace in it.\<close>

theorem bearer_not_rendered:
  assumes "authorize_access_token w args = Some t" "authorize_access_token w' args = Some t'"
    and "w' = w\<lparr>authorize_access_token := authorize_access_token w'\<rparr>"
    and "parse_id_token w t = parse_id_token w t'" "userinfo w t = userinfo w t'"
    and "get_member t ''access_token'' = JStr (h @ 46 # p @ 46 # q)"
    and "get_member t' ''access_token'' = JStr (h' @ 46 # p @ 46 # q')"
    and "46 \<notin> set (h @ h' @ p @ q @ q')"
  shows "snd (callback env w args st session) = snd (callback env w' args st session)"
proof -
  have d: "decoded_access_token env (get_member t ''access_token'') =
      decoded_access_token env (get_member t' ''access_token'')"
    using assms(6-8) by (simp add: decoded_access_token_def count_dots)
  have f: "parse_id_token w' = parse_id_token w" "userinfo w' = userinfo w"
    "issuer_document w' = issuer_document w" "fresh_result w' = fresh_result w"
    by (subst assms(3), simp)+
  have v: "verified_response w' (Some t') n = map_option (\<lambda>(_, i, u). (t', i, u)) (verified_response w (Some t) n)" for n
    using assms(4,5) by (auto simp: verified_response_def f split: Option.bind_splits)
  have r: "render_result env w' cl i u a b s k = render_result env w cl i u a b s k" for cl i u a b s k
    unfolding render_result_def f by (rule refl)
  have rd: "render_result env w cl i u (get_member t ''access_token'') b s k =
      render_result env w cl i u (get_member t' ''access_token'') b s k" for cl i u b s k
    unfolding render_result_def d by (rule refl)
  have tt: "fst x = t" if "verified_response w (Some t) n = Some x" for x n
    using that by (auto simp: verified_response_def bind_eq_Some_conv)
  show ?thesis
    by (cases rule: callback_cases [of args env w st session];
        cases rule: callback_cases [of args env w' st session])
       (auto simp: assms(1,2) v f r rd dest!: tt)
qed

definition bearer_world :: "ustr \<Rightarrow> ustr \<Rightarrow> world" where
  "bearer_world signature rt = sample_world\<lparr>authorize_access_token := (\<lambda>args.
     Some [(U ''access_token'', JStr (U ''a'' @ 46 # U ''e30'' @ 46 # signature)), (U ''refresh_token'', JStr rt)])\<rparr>"

theorem bearer_not_rendered_witness:
  "snd (callback sample_env (bearer_world (U ''sig1'') (U ''r1'')) sample_args sample_opened None)
   = snd (callback sample_env (bearer_world (U ''sig2'') (U ''r2'')) sample_args sample_opened None)"
proof (rule bearer_not_rendered)
  show "authorize_access_token (bearer_world (U ''sig1'') (U ''r1'')) sample_args = Some [(U ''access_token'',
      JStr (U ''a'' @ 46 # U ''e30'' @ 46 # U ''sig1'')), (U ''refresh_token'', JStr (U ''r1''))]"
    by (simp add: bearer_world_def)
  show "authorize_access_token (bearer_world (U ''sig2'') (U ''r2'')) sample_args = Some [(U ''access_token'',
      JStr (U ''a'' @ 46 # U ''e30'' @ 46 # U ''sig2'')), (U ''refresh_token'', JStr (U ''r2''))]"
    by (simp add: bearer_world_def)
qed (simp_all add: bearer_world_def sample_world_def get_member_def, simp add: U_def)

text \<open>The callback does not look at the age of a context. \<open>created_at\<close> only
  counts when some other request prunes; a callback whose context is still in the dictionary
  gets the same answer, whatever \<open>created_at\<close> says and whatever the time is.\<close>

theorem callback_ignores_age:
  assumes "\<forall>k. pending st' k = map_option (\<lambda>c. c\<lparr>auth_created := age k\<rparr>) (pending st k)"
    and "w' = w\<lparr>prune_time := t\<rparr>"
  shows "snd (callback env w' args st' session) = snd (callback env w args st session)"
proof -
  have f: "parse_id_token w' = parse_id_token w" "userinfo w' = userinfo w" "authorize_access_token w' = authorize_access_token w"
    "issuer_document w' = issuer_document w" "fresh_result w' = fresh_result w"
    by (simp_all add: assms(2))
  have v: "verified_response w' x n = verified_response w x n" for x n
    by (simp add: verified_response_def f)
  have r: "render_result env w' cl i u a b s k = render_result env w cl i u a b s k" for cl i u a b s k
    unfolding render_result_def f by (rule refl)
  show ?thesis
    by (cases rule: callback_cases [of args env w st session];
        cases rule: callback_cases [of args env w' st' session])
       (auto simp: assms(1) v f r)
qed

theorem callback_ignores_age_witness:
  "snd (callback sample_env (sample_world\<lparr>prune_time := 1000000\<rparr>) sample_args
      \<lparr>auth_cache = [(U ''c1'', \<lparr>auth_claims = [], auth_nonce = U ''n1'', auth_created = -5\<rparr>)], token_cache = []\<rparr> None)
   = snd (callback sample_env sample_world sample_args sample_opened None)"
  by (rule callback_ignores_age [where age = "\<lambda>_. -5"]) (simp_all add: pending_def sample_opened_def)

text \<open>When the discovery document cannot be fetched, a valid authorization
  response is lost to the user. The callback has used the context up and stored the result
  before \<open>render_result\<close> fetches the document, and no handler catches that exception: the
  answer is a server error, and repeating the callback is refused.\<close>

theorem callback_discovery_failure:
  assumes "named_context args = Some k" "pending st k = Some c"
    and "verified_response w (authorize_access_token w args) (Some (auth_nonce c)) = Some (token, i, u)"
    and "issuer_document w = Inl e"
  shows "snd (snd (callback env w args st session)) = Failure
    \<and> granted (fst (callback env w args st session)) (fresh_result w) = Some (grant_entry w token (auth_claims c))
    \<and> snd (snd (callback env w' args (fst (callback env w args st session)) session')) = missing_context"
proof -
  have r: "render_result env w cl x y a b s n = Failure" for cl x y a b s n
    using assms(4) by (simp add: render_result_def discovery_metadata_def as_document_def split: sum.splits)
  have p: "pending (fst (callback env w args st session)) k = None"
    by (rule callback_redeems(2) [OF assms(1)])
  show ?thesis
    using assms p callback_redeems(1) [OF assms(1), of env w' "fst (callback env w args st session)" session']
    by (cases rule: callback_cases [of args env w st session]) (simp_all add: r)
qed

theorem callback_discovery_failure_witness:
  "snd (snd (callback sample_env (sample_world\<lparr>issuer_document := Inl RequestException\<rparr>) sample_args sample_opened None)) = Failure
   \<and> snd (snd (callback sample_env sample_world sample_args
        (fst (callback sample_env (sample_world\<lparr>issuer_document := Inl RequestException\<rparr>) sample_args sample_opened None)) None))
      = missing_context"
proof -
  have n: "named_context sample_args = Some (U ''c1'')" by (simp add: named_context_def sample_args_def U_def)
  have p: "pending sample_opened (U ''c1'') = Some \<lparr>auth_claims = [], auth_nonce = U ''n1'', auth_created = 1001\<rparr>"
    by (simp add: pending_def sample_opened_def)
  have v: "verified_response (sample_world\<lparr>issuer_document := Inl RequestException\<rparr>)
      (authorize_access_token (sample_world\<lparr>issuer_document := Inl RequestException\<rparr>) sample_args)
      (Some (auth_nonce \<lparr>auth_claims = [], auth_nonce = U ''n1'', auth_created = 1001\<rparr>))
     = Some ([(U ''access_token'', JStr (U ''opaque'')), (U ''refresh_token'', JStr (U ''r1''))],
             [(U ''sub'', JStr (U ''alice''))], [(U ''sub'', JStr (U ''alice''))])"
    by (simp add: verified_response_def sample_world_def)
  from callback_discovery_failure [OF n p v, of RequestException sample_env None sample_world None]
  show ?thesis by simp
qed

text \<open>C19: \<open>/discovery\<close> gives the request editor its normal form. For a
  document that is an object, members of the wrong type count as
  empty: the identifiers are sorted, distinct and exactly the text members of
  \<open>amr_identifiers_supported\<close>, which are the keys of \<open>methods\<close>, and each method has exactly the
  text members of its two lists, with the suggested values of that name. This is answered with
  status 200 exactly if the encoder can print it, which is a server error otherwise; as the suggested values move four
  levels down, it can print it for every document that nests four levels less deeply than its limit.
  An issuer that cannot be reached gives status 502 and an error member; a document that is no
  object is a server error.\<close>

theorem discovery_endpoint:
  "(\<forall>document. issuer_document w = Inr (JObj document) \<longrightarrow>
      (\<exists>ids methods. let v = JObj [(U ''identifiers'', JArr (map JStr ids)), (U ''methods'', JObj methods)] in
         editor_view document ids methods
       \<and> discovery env w = (if fits (c_enc_depth env) v then JsonBody 200 v else Failure)
       \<and> (fits (c_enc_depth env - 4) (JObj document) \<longrightarrow> discovery env w = JsonBody 200 v)))
   \<and> (issuer_document w = Inl RequestException \<longrightarrow>
      (\<exists>m. discovery env w = JsonBody 502 (JObj [(U ''error'', JStr m)])))
   \<and> (\<forall>v. issuer_document w = Inr v \<longrightarrow> (\<forall>document. v \<noteq> JObj document) \<longrightarrow> discovery env w = Failure)"
proof (intro conjI allI impI)
  fix document assume d: "issuer_document w = Inr (JObj document)"
  obtain ids methods where b: "builder_discovery_metadata (Inr (JObj document)) =
       Inr (JObj [(U ''identifiers'', JArr (map JStr ids)), (U ''methods'', JObj methods)])"
    "editor_view document ids methods" using builder_discovery_normal by blast
  let ?v = "JObj [(U ''identifiers'', JArr (map JStr ids)), (U ''methods'', JObj methods)]"
  have a: "discovery env w = (if fits (c_enc_depth env) ?v then JsonBody 200 ?v else Failure)"
    using b(1) d by (simp add: discovery_def dumps_compact_def del: fits.simps)
  have "fits (c_enc_depth env) ?v" if "fits (c_enc_depth env - 4) (JObj document)"
    by (rule editor_view_fits [OF b(2) that])
  with a b(2) show "\<exists>ids methods. let v = JObj [(U ''identifiers'', JArr (map JStr ids)), (U ''methods'', JObj methods)] in
         editor_view document ids methods
       \<and> discovery env w = (if fits (c_enc_depth env) v then JsonBody 200 v else Failure)
       \<and> (fits (c_enc_depth env - 4) (JObj document) \<longrightarrow> discovery env w = JsonBody 200 v)"
    by (intro exI [of _ ids] exI [of _ methods]) (simp add: Let_def del: fits.simps)
next
  fix v assume "issuer_document w = Inr v" "\<forall>document. v \<noteq> JObj document"
  then show "discovery env w = Failure"
    by (cases v) (simp_all add: discovery_def builder_discovery_metadata_def as_document_def)
qed (simp add: discovery_def builder_discovery_metadata_def as_document_def)

theorem discovery_endpoint_witness:
  "\<exists>ids methods. discovery sample_env sample_world =
      JsonBody 200 (JObj [(U ''identifiers'', JArr (map JStr ids)), (U ''methods'', JObj methods)])
    \<and> editor_view [(U ''claims_supported'', JArr [])] ids methods"
proof -
  have "issuer_document sample_world = Inr (JObj [(U ''claims_supported'', JArr [])])"
    by (simp add: sample_world_def)
  from discovery_endpoint [of sample_world, THEN conjunct1, rule_format, OF this, of sample_env]
  show ?thesis by (auto simp: Let_def sample_env_def)
qed



section \<open>A pending authorization waits for its callback\<close>

fun serve_all :: "py_env \<Rightarrow> config \<Rightarrow> (world \<times> client_request) list \<Rightarrow> client_state \<Rightarrow> client_state" where
  "serve_all env cfg [] st = st"
| "serve_all env cfg ((w, req) # rest) st = serve_all env cfg rest (fst (serve env cfg w req st))"

text \<open>A request of somebody else while the context \<open>k\<close> is at most fifteen minutes old.\<close>

definition unrelated :: "py_env \<Rightarrow> ustr \<Rightarrow> rat \<Rightarrow> world \<times> client_request \<Rightarrow> bool" where
  "unrelated env k created ev \<longleftrightarrow> (case ev of (w, req) \<Rightarrow>
     prune_time w \<le> created + 900 \<and>
     (case req of
        Login form \<Rightarrow> fresh_context w \<noteq> k
      | Callback args _ \<Rightarrow> named_context args \<noteq> Some k
      | _ \<Rightarrow> True))"

lemma serve_keeps:
  assumes ok: "state_ok st" and p: "pending st k = Some e" and u: "unrelated env k (auth_created e) (w, req)"
  shows "pending (fst (serve env cfg w req st)) k = Some e"
proof -
  have t: "prune_time w - CACHE_TTL_SECONDS \<le> auth_created e"
    using u by (simp add: unrelated_def CACHE_TTL_SECONDS_def)
  have pr: "pending (prune_caches (prune_time w) st) k = Some e"
    using prune_pending [OF ok] p t by blast
  show ?thesis
  proof (cases req)
    case (Preview form)
    with preview_state [of env cfg w form st] p pr show ?thesis by auto
  next
    case (Login form)
    with u p pr ok show ?thesis
      by (auto simp: login_state with_context_pending unrelated_def split: option.splits sum.splits claims_exc.splits)
  next
    case (Callback args s)
    have "pending (fst (callback env w args st s)) k = pending st k"
      by (cases rule: callback_cases [of args env w st s])
         (use u Callback in \<open>auto simp: unrelated_def split: option.splits\<close>)
    with Callback p show ?thesis by (simp add: serve_callback del: serve.simps)
  next
    case (Refresh form s)
    from pr show ?thesis by (cases rule: refresh_cases [of form s w st env]) (use Refresh in auto)
  qed (use p pr in \<open>simp_all add: home_def home_response_state\<close>)
qed

lemma serve_all_keeps:
  "state_ok st \<Longrightarrow> pending st k = Some e \<Longrightarrow> \<forall>ev \<in> set evs. unrelated env k (auth_created e) ev \<Longrightarrow>
     pending (serve_all env cfg evs st) k = Some e"
proof (induction evs arbitrary: st)
  case (Cons ev evs)
  obtain w req where ev: "ev = (w, req)" by (cases ev)
  from Cons.prems ev have "pending (fst (serve env cfg w req st)) k = Some e"
    by (intro serve_keeps) simp_all
  with Cons.IH [OF serve_state_ok [OF Cons.prems(1)]] Cons.prems(3) ev show ?case by simp
qed simp

text \<open>C7: an authorization that is under way is not lost. After an accepted login, however
  many other requests of other tabs are served in between, as long as no pruning happens
  more than fifteen minutes after the login and nobody is given or uses the same context id, the
  callback with that id finds the context: the token response is checked against the login's nonce
  and, when it is valid and the page can be rendered, the answer is the result page.\<close>

theorem authorization_waits:
  assumes "state_ok st" "requested_claims env form = Some claims"
    and "\<forall>ev \<in> set evs. unrelated env (fresh_context w) (store_time w) ev"
    and "named_context args = Some (fresh_context w)"
    and "verified_response w' (authorize_access_token w' args) (Some (fresh_nonce w)) = Some (token, i, u)"
  shows "snd (serve env cfg w' (Callback args s)
            (serve_all env cfg evs (fst (serve env cfg w (Login form) st))))
       = render_result env w' claims i u (get_member token ''access_token'') True
           (U ''Authorization code response'') (fresh_result w')"
proof -
  define st1 where "st1 = fst (serve env cfg w (Login form) st)"
  have ok: "state_ok st1" unfolding st1_def by (rule serve_state_ok [OF assms(1)])
  have p1: "pending st1 (fresh_context w) = Some (login_entry w claims)"
    using assms(1,2) by (simp add: st1_def login_state with_context_pending)
  have p: "pending (serve_all env cfg evs st1) (fresh_context w) = Some (login_entry w claims)"
    using serve_all_keeps [OF ok p1] assms(3) by (simp add: login_entry_def)
  show ?thesis unfolding st1_def [symmetric]
    by (cases rule: callback_cases [of args env w' "serve_all env cfg evs st1" s])
       (use p assms(4,5) in \<open>auto simp: serve_callback login_entry_def simp del: serve.simps\<close>)
qed

theorem authorization_waits_witness:
  "snd (serve sample_env sample_config sample_world (Callback sample_args None)
      (serve_all sample_env sample_config
         [(sample_world\<lparr>prune_time := 1901\<rparr>, Home), (sample_world\<lparr>fresh_context := U ''c2''\<rparr>, Login sample_form)]
         (fst (serve sample_env sample_config sample_world (Login sample_form) initial_state))))
   = render_result sample_env sample_world [] [(U ''sub'', JStr (U ''alice''))] [(U ''sub'', JStr (U ''alice''))]
       (get_member [(U ''access_token'', JStr (U ''opaque'')), (U ''refresh_token'', JStr (U ''r1''))] ''access_token'')
       True (U ''Authorization code response'') (fresh_result sample_world)"
proof (rule authorization_waits)
  show "state_ok initial_state" by (rule sample_state_ok)
  show "requested_claims sample_env sample_form = Some []"
    by (simp add: requested_claims_def sample_form_def field_on_def)
  show "named_context sample_args = Some (fresh_context sample_world)"
    by (simp add: named_context_def sample_args_def sample_world_def U_def)
qed (simp_all add: unrelated_def sample_world_def verified_response_def)

end
