(* ===== verification/Client_Spec.thy ===== *)
theory Client_Spec
  imports Client_App_Props
begin

text \<open>
  What the relying party promises, without dictionaries, clocks, forms and pages: a set of open
  authorization contexts and a set of granted results. A context can be opened, redeemed once
  into a result that keeps its claims, or forgotten; a result can be forgotten. \<open>permitted\<close> says
  which opening or redemption a request may cause; the client of Client_App causes no other.
\<close>

section \<open>The abstract machine\<close>

type_synonym claim_object = "(ustr, json) dict"

record spec_state =
  open_contexts :: "ustr \<Rightarrow> (claim_object \<times> ustr) option"
  results :: "ustr \<Rightarrow> claim_object option"

definition spec_initial :: spec_state where
  "spec_initial = \<lparr>open_contexts = Map.empty, results = Map.empty\<rparr>"

text \<open>\<open>OpenContext k claims nonce\<close>, and \<open>RedeemContext k i\<close>, which turns context \<open>k\<close> into result \<open>i\<close>.\<close>

datatype spec_action = Forget | OpenContext ustr claim_object ustr | RedeemContext ustr ustr

inductive spec_step :: "spec_state \<Rightarrow> spec_action \<Rightarrow> spec_state \<Rightarrow> bool" where
  forget: "oc \<subseteq>\<^sub>m open_contexts s \<Longrightarrow> rs \<subseteq>\<^sub>m results s \<Longrightarrow>
     spec_step s Forget \<lparr>open_contexts = oc, results = rs\<rparr>"
| open_context: "spec_step s (OpenContext k cl n) (s\<lparr>open_contexts := (open_contexts s)(k \<mapsto> (cl, n))\<rparr>)"
| redeem: "open_contexts s k = Some (cl, n) \<Longrightarrow>
     spec_step s (RedeemContext k i)
       \<lparr>open_contexts = (open_contexts s)(k := None), results = (results s)(i \<mapsto> cl)\<rparr>"

inductive spec_path :: "spec_state \<Rightarrow> spec_action list \<Rightarrow> spec_state \<Rightarrow> bool" where
  stay: "spec_path s [] s"
| move: "spec_step s a t \<Longrightarrow> spec_path t acts u \<Longrightarrow> spec_path s (a # acts) u"

inductive_cases spec_stepE: "spec_step s a t"
inductive_simps spec_redeem_iff: "spec_step s (RedeemContext k i) t"

text \<open>The openings and redemptions a request may cause: at most one of them.\<close>

fun permitted :: "py_env \<Rightarrow> world \<Rightarrow> client_request \<Rightarrow> spec_action list" where
  "permitted env w (Login form) =
     (case requested_claims env form of
        None \<Rightarrow> [] | Some cl \<Rightarrow> [OpenContext (fresh_context w) cl (fresh_nonce w)])"
| "permitted env w (Callback args s) =
     (case named_context args of None \<Rightarrow> [] | Some k \<Rightarrow> [RedeemContext k (fresh_result w)])"
| "permitted env w _ = []"

section \<open>Abstraction\<close>

definition abs_state :: "client_state \<Rightarrow> spec_state" where
  "abs_state st =
     \<lparr>open_contexts = (\<lambda>k. map_option (\<lambda>e. (auth_claims e, auth_nonce e)) (pending st k)),
      results = (\<lambda>k. map_option token_claims (granted st k))\<rparr>"

lemma abs_prune: "state_ok st \<Longrightarrow> spec_step (abs_state st) Forget (abs_state (prune_caches now st))"
  unfolding abs_state_def
  by (intro forget) (auto simp: map_le_def dom_def prune_pending prune_granted)

lemma abs_open:
  "state_ok st \<Longrightarrow> abs_state (with_context w cl st) =
     (abs_state (prune_caches (prune_time w) st))\<lparr>open_contexts :=
        (open_contexts (abs_state (prune_caches (prune_time w) st)))(fresh_context w \<mapsto> (cl, fresh_nonce w))\<rparr>"
  by (auto simp: abs_state_def with_context_pending with_context_granted login_entry_def fun_eq_iff)

lemma abs_drop: "spec_step (abs_state st) Forget (abs_state (without_context k st))"
  unfolding abs_state_def by (intro forget) (auto simp: map_le_def dom_def)

lemma abs_redeem:
  assumes "pending st k = Some c"
  shows "spec_step (abs_state st) (RedeemContext k i)
    (abs_state ((without_context k st)\<lparr>token_cache := AList.update i (grant_entry w t (auth_claims c)) (token_cache st)\<rparr>))"
proof -
  have "open_contexts (abs_state st) k = Some (auth_claims c, auth_nonce c)"
    by (simp add: abs_state_def assms)
  from redeem [OF this, of i] show ?thesis
    by (simp add: abs_state_def fun_upd_def grant_entry_def if_distrib cong: if_cong)
qed

lemma abs_refresh:
  "granted st k = Some c \<Longrightarrow>
     abs_state (st\<lparr>token_cache := AList.update k (refreshed_entry w t c) (token_cache st)\<rparr>) = abs_state st"
  by (auto simp: abs_state_def refreshed_entry_def fun_eq_iff)

lemma abs_login:
  assumes "state_ok st"
  shows "spec_path (abs_state st) [Forget, OpenContext (fresh_context w) cl (fresh_nonce w)] (abs_state (with_context w cl st))"
  unfolding abs_open [OF assms]
  by (rule move [OF abs_prune [OF assms, of "prune_time w"] move [OF open_context stay]])

section \<open>Simulation\<close>

text \<open>What one request may do to the abstract state: forget, and then the one permitted action.\<close>

definition simulated :: "py_env \<Rightarrow> world \<Rightarrow> client_request \<Rightarrow> client_state \<Rightarrow> client_state \<Rightarrow> bool" where
  "simulated env w req st st' \<longleftrightarrow>
     (\<exists>acts. spec_path (abs_state st) acts (abs_state st')
        \<and> (acts = [] \<or> acts = [Forget] \<or> acts = permitted env w req \<or> acts = Forget # permitted env w req))"

lemma simulated_stay: "simulated env w req st st"
  by (auto simp: simulated_def intro: stay)

lemma simulated_forget: "spec_step (abs_state st) Forget (abs_state st') \<Longrightarrow> simulated env w req st st'"
  by (auto simp: simulated_def intro: move [OF _ stay])

lemma simulated_prune: "state_ok st \<Longrightarrow> simulated env w req st (prune_caches now st)"
  by (rule simulated_forget [OF abs_prune])

lemma simulated_refresh:
  "state_ok st \<Longrightarrow> granted (prune_caches now st) k = Some c \<Longrightarrow> simulated env w req st
     ((prune_caches now st)\<lparr>token_cache := AList.update k (refreshed_entry w t c) (token_cache (prune_caches now st))\<rparr>)"
  using simulated_prune [of st env w req now] by (simp add: simulated_def abs_refresh)

lemma simulated_open:
  "state_ok st \<Longrightarrow> requested_claims env form = Some cl \<Longrightarrow> simulated env w (Login form) st (with_context w cl st)"
  unfolding simulated_def by (rule exI, rule conjI, rule abs_login) simp_all

lemma simulated_redeem:
  assumes "named_context args = Some k" "pending st k = Some c"
  shows "simulated env w (Callback args s) st
    ((without_context k st)\<lparr>token_cache := AList.update (fresh_result w) (grant_entry w t (auth_claims c)) (token_cache st)\<rparr>)"
  unfolding simulated_def
  by (rule exI, rule conjI, rule move [OF abs_redeem [OF assms(2)] stay]) (simp add: assms(1))

text \<open>C6: the client refines this machine. Whatever request is served, in whatever world
  and in whatever well-formed state, the abstract state changes only by forgetting and by the one
  action the request permits: a login with accepted claims may open its fresh context with
  exactly those claims and its nonce, a callback may redeem the context it names into a result
  with that context's claims, and no other request opens or redeems anything.\<close>

theorem client_refines_spec:
  assumes "state_ok st"
  shows "\<exists>acts. spec_path (abs_state st) acts (abs_state (fst (serve env cfg w req st)))
    \<and> (acts = [] \<or> acts = [Forget] \<or> acts = permitted env w req \<or> acts = Forget # permitted env w req)"
  unfolding simulated_def [symmetric]
proof (cases req)
  case (Preview form)
  with preview_state [of env cfg w form st] show "simulated env w req st (fst (serve env cfg w req st))"
    using simulated_prune [OF assms] simulated_stay by auto
next
  case (Login form)
  with simulated_prune [OF assms] simulated_stay simulated_open [OF assms]
  show "simulated env w req st (fst (serve env cfg w req st))"
    by (auto simp: login_state split: option.splits sum.splits claims_exc.splits)
next
  case (Callback args s)
  have "simulated env w (Callback args s) st (fst (callback env w args st s))"
    by (cases rule: callback_cases [of args env w st s])
       (use simulated_stay simulated_forget [OF abs_drop] simulated_redeem in \<open>auto split: option.splits\<close>)
  with Callback show "simulated env w req st (fst (serve env cfg w req st))"
    by (simp add: serve_callback del: serve.simps)
next
  case (Refresh form s)
  show "simulated env w req st (fst (serve env cfg w req st))"
    by (cases rule: refresh_cases [of form s w st env])
       (use Refresh simulated_prune [OF assms] simulated_refresh [OF assms] in simp_all)
qed (use simulated_prune [OF assms] simulated_stay in \<open>auto simp: home_def home_response_state\<close>)

theorem client_refines_spec_witness:
  "\<exists>acts. spec_path (abs_state sample_opened) acts
      (abs_state (fst (serve sample_env sample_config sample_world (Callback sample_args None) sample_opened)))
    \<and> (acts = [] \<or> acts = [Forget] \<or> acts = permitted sample_env sample_world (Callback sample_args None)
       \<or> acts = Forget # permitted sample_env sample_world (Callback sample_args None))"
  by (rule client_refines_spec [OF sample_state_ok(2)])

end
