(* ===== verification/Client_Threads.thy ===== *)
theory Client_Threads
  imports Client_App_Props
begin

text \<open>
  The handlers of the test client when requests are served by several threads. A request is
  cut where other threads can run: between two holds of \<open>CACHE_LOCK\<close>, around the calls to the issuer, and
  at the unlocked reads and writes of \<open>refresh\<close>. \<open>TOKEN_CACHE\<close> maps to objects in a store, because
  \<open>refresh\<close> keeps a reference to an entry that another thread may prune or change meanwhile.

  Proved: a request served alone does what \<open>serve\<close> says; contexts stay single-use and result pages
  agree with their login under every interleaving.
\<close>

section \<open>Shared state and phases\<close>

record shared =
  contexts :: "(ustr, auth_entry) dict"
  token_refs :: "(ustr, nat) dict"
  objects :: "token_entry list"

text \<open>How far a request has come. The results of the calls already made are kept, as locals are.\<close>

datatype phase =
    Serve client_request
  | StoreContext "(ustr, ustr) dict" "(ustr, json) dict"
  | VerifyCallback "(ustr, ustr) dict" auth_entry
  | StoreResult auth_entry "(ustr, json) dict" "(ustr, json) dict" "(ustr, json) dict"
  | LookupResult "(ustr, ustr) dict" "ustr option"
  | CheckToken ustr nat
  | FetchToken ustr nat
  | ReadToken ustr nat "(ustr, json) dict" "(ustr, json) dict" "(ustr, json) dict"
  | WriteToken ustr nat json "(ustr, json) dict" "(ustr, json) dict" "(ustr, json) dict"
  | TouchResult ustr nat "(ustr, json) dict" "(ustr, json) dict" "(ustr, json) dict"
  | Finished response

definition prune_shared :: "rat \<Rightarrow> shared \<Rightarrow> shared" where
  "prune_shared now sh =
     (let cutoff = now - CACHE_TTL_SECONDS in
      sh\<lparr>contexts := evict_dict (\<lambda>e. auth_created e < cutoff) (contexts sh),
         token_refs := evict_dict (\<lambda>r. token_created (objects sh ! r) < cutoff) (token_refs sh)\<rparr>)"

text \<open>The sequential state this stands for, which the parts of a handler without shared state read.\<close>

definition view :: "shared \<Rightarrow> client_state" where
  "view sh = \<lparr>auth_cache = contexts sh,
     token_cache = map (\<lambda>(k, r). (k, objects sh ! r)) (token_refs sh)\<rparr>"

definition no_refresh_page :: response where
  "no_refresh_page = Page 400 (ErrorPage (U ''no_refresh_token'')
     (U ''Start a new authorization request to test refresh.''))"

fun advance :: "py_env \<Rightarrow> config \<Rightarrow> world \<Rightarrow> phase \<Rightarrow> shared \<Rightarrow> shared \<times> phase" where
  "advance env cfg w (Serve Home) sh =
     (prune_shared (prune_time w) sh, Finished (snd (home env cfg w (view sh))))"
| "advance env cfg w (Serve (Preview form)) sh =
     ((case parse_claims env (map_of form (U ''claims_json'')) of
         Inl (ClaimsValidationError _) \<Rightarrow> prune_shared (prune_time w) sh | _ \<Rightarrow> sh),
      Finished (snd (preview env cfg w form (view sh))))"
| "advance env cfg w (Serve (Login form)) sh =
     (let raw_claims = map_of form (U ''claims_json'') in
      if field_on form ''omit_claims'' then (prune_shared (prune_time w) sh, StoreContext form [])
      else (case parse_claims env raw_claims of
          Inl (ClaimsValidationError message) \<Rightarrow>
            (prune_shared (prune_time w) sh,
             Finished (snd (home_response env cfg w (view sh) raw_claims (Some message) 400)))
        | Inl _ \<Rightarrow> (sh, Finished Failure)
        | Inr claims \<Rightarrow> (prune_shared (prune_time w) sh, StoreContext form claims)))"
| "advance env cfg w (StoreContext form claims) sh =
     (sh\<lparr>contexts := AList.update (fresh_context w)
           \<lparr>auth_claims = claims, auth_nonce = fresh_nonce w, auth_created = store_time w\<rparr> (contexts sh)\<rparr>,
      Finished (snd (begin_authorization env cfg w form claims (view sh))))"
| "advance env cfg w (Serve (Callback args s)) sh =
     (let error = (case map_of args (U ''error'') of None \<Rightarrow> [] | Some e \<Rightarrow> e) in
      if error \<noteq> [] then (sh, Finished (Page 200 (ErrorPage error (public_description args))))
      else
        (let context_id = (case map_of args (U ''state'') of None \<Rightarrow> [] | Some i \<Rightarrow> i);
             context = (if context_id \<noteq> [] then map_of (contexts sh) context_id else None);
             sh' = (if context_id \<noteq> [] then sh\<lparr>contexts := AList.delete context_id (contexts sh)\<rparr> else sh) in
         (sh', case context of None \<Rightarrow> Finished missing_context | Some c \<Rightarrow> VerifyCallback args c)))"
| "advance env cfg w (VerifyCallback args c) sh =
     (sh, case verified_response w (authorize_access_token w args) (Some (auth_nonce c)) of
            None \<Rightarrow> Finished (Page 400 (ErrorPage (U ''token_validation_failed'')
                      (U ''The authorization response could not be verified.'')))
          | Some (token, id_token, info) \<Rightarrow> StoreResult c token id_token info)"
| "advance env cfg w (StoreResult c token id_token info) sh =
     (sh\<lparr>objects := objects sh @ [\<lparr>refresh_token = get_member token ''refresh_token'',
             token_claims = auth_claims c, token_created = store_time w\<rparr>],
         token_refs := AList.update (fresh_result w) (length (objects sh)) (token_refs sh)\<rparr>,
      Finished (render_result env w (auth_claims c) id_token info (get_member token ''access_token'')
                  True (U ''Authorization code response'') (fresh_result w)))"
| "advance env cfg w (Serve (Refresh form s)) sh = (prune_shared (prune_time w) sh, LookupResult form s)"
| "advance env cfg w (LookupResult form s) sh =
     (sh, case chosen_result form s of
            None \<Rightarrow> Finished no_refresh_page
          | Some i \<Rightarrow> (case map_of (token_refs sh) i of
                None \<Rightarrow> Finished no_refresh_page | Some r \<Rightarrow> CheckToken i r))"
| "advance env cfg w (CheckToken i r) sh =
     (sh, if truthy (refresh_token (objects sh ! r)) then FetchToken i r else Finished no_refresh_page)"
| "advance env cfg w (FetchToken i r) sh =
     (sh, case verified_response w (fetch_access_token w (refresh_token (objects sh ! r))) None of
            None \<Rightarrow> Finished (Page 400 (ErrorPage (U ''refresh_failed'')
                      (U ''The refreshed token response could not be verified.'')))
          | Some (token, id_token, info) \<Rightarrow> ReadToken i r token id_token info)"
| "advance env cfg w (ReadToken i r token id_token info) sh =
     (sh, WriteToken i r (case map_of token (U ''refresh_token'') of
            None \<Rightarrow> refresh_token (objects sh ! r) | Some t \<Rightarrow> t) token id_token info)"
| "advance env cfg w (WriteToken i r t token id_token info) sh =
     (sh\<lparr>objects := (objects sh)[r := (objects sh ! r)\<lparr>refresh_token := t\<rparr>]\<rparr>,
      TouchResult i r token id_token info)"
| "advance env cfg w (TouchResult i r token id_token info) sh =
     (sh\<lparr>objects := (objects sh)[r := (objects sh ! r)\<lparr>token_created := store_time w\<rparr>]\<rparr>,
      Finished (render_result env w (token_claims (objects sh ! r)) id_token info
                  (get_member token ''access_token'') True (U ''Refresh token response'') i))"
| "advance env cfg w (Serve Discovery) sh = (sh, Finished (discovery env w))"
| "advance env cfg w (Finished r) sh = (sh, Finished r)"

text \<open>One thread for some steps, with no other thread in between.\<close>

fun proceed :: "nat \<Rightarrow> py_env \<Rightarrow> config \<Rightarrow> world \<Rightarrow> phase \<Rightarrow> shared \<Rightarrow> shared \<times> phase" where
  "proceed 0 env cfg w p sh = (sh, p)"
| "proceed (Suc n) env cfg w p sh = (case advance env cfg w p sh of (sh', p') \<Rightarrow> proceed n env cfg w p' sh')"

section \<open>Interleavings\<close>

record thread =
  thread_world :: world
  thread_request :: client_request
  thread_phase :: phase

definition empty_shared :: shared where
  "empty_shared = \<lparr>contexts = [], token_refs = [], objects = []\<rparr>"

text \<open>Requests arrive at any time, and any thread takes the next step.\<close>

inductive interleaved :: "py_env \<Rightarrow> config \<Rightarrow> thread list \<Rightarrow> shared \<Rightarrow> bool" for env cfg where
  idle: "interleaved env cfg [] empty_shared"
| arrive: "interleaved env cfg ts sh \<Longrightarrow>
     interleaved env cfg (ts @ [\<lparr>thread_world = w, thread_request = req, thread_phase = Serve req\<rparr>]) sh"
| turn: "interleaved env cfg ts sh \<Longrightarrow> i < length ts \<Longrightarrow>
     advance env cfg (thread_world (ts ! i)) (thread_phase (ts ! i)) sh = (sh', p) \<Longrightarrow>
     interleaved env cfg (ts[i := (ts ! i)\<lparr>thread_phase := p\<rparr>]) sh'"

section \<open>One thread alone\<close>

definition shared_ok :: "shared \<Rightarrow> bool" where
  "shared_ok sh \<longleftrightarrow> dict_ok (contexts sh) \<and> dict_ok (token_refs sh) \<and> distinct (map snd (token_refs sh))
     \<and> (\<forall>kr \<in> set (token_refs sh). snd kr < length (objects sh))"

lemma map_of_view [simp]: "map_of (token_cache (view sh)) k = map_option ((!) (objects sh)) (map_of (token_refs sh) k)"
  by (simp add: view_def map_of_map)

lemma auth_view [simp]: "auth_cache (view sh) = contexts sh"
  by (simp add: view_def)

lemma dict_ok_view: "dict_ok (token_refs sh) \<Longrightarrow> dict_ok (token_cache (view sh))"
  by (simp add: dict_ok_def view_def comp_def case_prod_beta)

lemma filter_values: "filter (\<lambda>(k, v). P v) (map (\<lambda>(k, r). (k, f r)) d) = map (\<lambda>(k, r). (k, f r)) (filter (\<lambda>(k, r). P (f r)) d)"
  by (induction d) auto

lemma view_prune: "shared_ok sh \<Longrightarrow> view (prune_shared now sh) = prune_caches now (view sh)"
  using dict_ok_view [of sh]
  by (simp add: prune_caches_def prune_shared_def Let_def shared_ok_def evict_dict_filter)
     (simp add: view_def filter_values)

lemma prune_shared_ok: "shared_ok sh \<Longrightarrow> shared_ok (prune_shared now sh)"
  by (auto simp: shared_ok_def prune_shared_def Let_def dict.valid_evict evict_dict_filter distinct_map_filter)

lemma update_map: "AList.update k (f r) (map (\<lambda>(k, r). (k, f r)) d) = map (\<lambda>(k, r). (k, f r)) (AList.update k r d)"
  by (induction d) auto

lemma view_new_result:
  assumes "shared_ok sh"
  shows "view (sh\<lparr>objects := objects sh @ [e], token_refs := AList.update k (length (objects sh)) (token_refs sh)\<rparr>)
     = (view sh)\<lparr>token_cache := AList.update k e (token_cache (view sh))\<rparr>"
proof -
  let ?f = "(!) (objects sh @ [e])"
  have m: "map (\<lambda>(k, r). (k, ?f r)) (token_refs sh) = map (\<lambda>(k, r). (k, objects sh ! r)) (token_refs sh)"
    using assms by (auto simp: shared_ok_def nth_append)
  have u: "map (\<lambda>(k, r). (k, ?f r)) (AList.update k (length (objects sh)) (token_refs sh))
      = AList.update k e (map (\<lambda>(k, r). (k, ?f r)) (token_refs sh))"
    using update_map [of k ?f "length (objects sh)" "token_refs sh"] by simp
  show ?thesis by (simp add: view_def u m)
qed

lemma view_write:
  assumes "shared_ok sh" "map_of (token_refs sh) k = Some r"
  shows "view (sh\<lparr>objects := (objects sh)[r := e]\<rparr>) = (view sh)\<lparr>token_cache := AList.update k e (token_cache (view sh))\<rparr>"
proof -
  have r: "r < length (objects sh)" "(k, r) \<in> set (token_refs sh)"
    using assms by (auto simp: shared_ok_def dest!: map_of_SomeD)
  have ok: "distinct (map fst d) \<Longrightarrow> distinct (map snd d) \<Longrightarrow> (k, r) \<in> set d \<Longrightarrow>
      map (\<lambda>(k, i). (k, (objects sh)[r := e] ! i)) d = AList.update k e (map (\<lambda>(k, i). (k, objects sh ! i)) d)" for d
  proof (induction d)
    case (Cons x d)
    obtain k' i where x: "x = (k', i)" by (cases x)
    show ?case
    proof (cases "k' = k")
      case True
      with Cons.prems x have i: "i = r" by force
      have "map (\<lambda>(k, j). (k, (objects sh)[r := e] ! j)) d = map (\<lambda>(k, j). (k, objects sh ! j)) d"
        using Cons.prems x i by (force simp: nth_list_update)
      then show ?thesis using True x i r(1) by simp
    next
      case False
      with Cons x have "i \<noteq> r" by force
      with Cons False x show ?thesis by auto
    qed
  qed simp
  show ?thesis using ok [of "token_refs sh"] assms(1) r(2) by (simp add: view_def shared_ok_def dict_ok_def)
qed

lemma new_result_ok:
  assumes "shared_ok sh"
  shows "shared_ok (sh\<lparr>objects := objects sh @ [e], token_refs := AList.update k (length (objects sh)) (token_refs sh)\<rparr>)"
proof -
  have u: "snd ` set (AList.update k n d) \<subseteq> insert n (snd ` set d)" for n :: nat and d
    by (induction d) auto
  have d: "distinct (map snd d) \<Longrightarrow> n \<notin> snd ` set d \<Longrightarrow> distinct (map snd (AList.update k n d))" for n :: nat and d
  proof (induction d)
    case (Cons x d)
    then show ?case using u [of n d] by (cases x) auto
  qed simp
  have fresh: "length (objects sh) \<notin> snd ` set (token_refs sh)" using assms by (auto simp: shared_ok_def)
  have "\<forall>n \<in> snd ` set (AList.update k (length (objects sh)) (token_refs sh)). n < Suc (length (objects sh))"
    using u [of "length (objects sh)" "token_refs sh"] assms by (fastforce simp: shared_ok_def)
  then show ?thesis using assms d fresh by (simp add: shared_ok_def dict_ok_update)
qed

lemma write_ok: "shared_ok sh \<Longrightarrow> shared_ok (sh\<lparr>objects := (objects sh)[r := e]\<rparr>)"
  by (simp add: shared_ok_def)

lemma contexts_ok:
  "shared_ok sh \<Longrightarrow> shared_ok (sh\<lparr>contexts := AList.update k c (contexts sh)\<rparr>)"
  "shared_ok sh \<Longrightarrow> shared_ok (sh\<lparr>contexts := AList.delete k (contexts sh)\<rparr>)"
  by (simp_all add: shared_ok_def dict.valid_put dict.valid_drop)

lemma view_contexts:
  "view (sh\<lparr>contexts := c\<rparr>) = (view sh)\<lparr>auth_cache := c\<rparr>"
  by (simp add: view_def)

text \<open>The phases of \<open>refresh\<close> after the token was fetched, as one write.\<close>

lemma proceed_refresh:
  assumes "shared_ok sh" "map_of (token_refs sh) i = Some r"
  shows "\<exists>sh'. proceed 3 env cfg w (ReadToken i r token id_token info) sh
      = (sh', Finished (render_result env w (token_claims (objects sh ! r)) id_token info
          (get_member token ''access_token'') True (U ''Refresh token response'') i))
    \<and> shared_ok sh' \<and> view sh' = (view sh)\<lparr>token_cache :=
        AList.update i (refreshed_entry w token (objects sh ! r)) (token_cache (view sh))\<rparr>"
proof -
  have r: "r < length (objects sh)" using assms by (auto simp: shared_ok_def dest!: map_of_SomeD)
  let ?sh' = "sh\<lparr>objects := (objects sh)[r := refreshed_entry w token (objects sh ! r)]\<rparr>"
  have "proceed 3 env cfg w (ReadToken i r token id_token info) sh
      = (?sh', Finished (render_result env w (token_claims (objects sh ! r)) id_token info
          (get_member token ''access_token'') True (U ''Refresh token response'') i))"
    using r by (simp add: numeral_3_eq_3 refreshed_entry_def Let_def)
  then show ?thesis using view_write [OF assms] write_ok [OF assms(1)] by blast
qed

lemma proceed_finished [simp]: "proceed n env cfg w (Finished r) sh = (sh, Finished r)"
  by (induction n) simp_all

lemma proceed_add:
  "proceed (m + n) env cfg w p sh = (case proceed m env cfg w p sh of (sh', p') \<Rightarrow> proceed n env cfg w p' sh')"
  by (induction m arbitrary: p sh) (simp_all split: prod.splits)

lemma begin_answer: "snd (begin_authorization env cfg w form cl st) = snd (begin_authorization env cfg w form cl st')"
  by (cases "dumps_compact env (JObj cl)"; cases "field_on form ''omit_claims''")
     (simp_all add: begin_authorization_def Let_def split: option.split)

text \<open>What serving a request alone has to give.\<close>

definition served :: "py_env \<Rightarrow> config \<Rightarrow> world \<Rightarrow> client_request \<Rightarrow> shared \<Rightarrow> shared \<times> phase \<Rightarrow> bool" where
  "served env cfg w req sh out \<longleftrightarrow> shared_ok (fst out)
     \<and> view (fst out) = fst (serve env cfg w req (view sh)) \<and> snd out = Finished (snd (serve env cfg w req (view sh)))"

lemma served_case:
  "served env cfg w req sh out \<longleftrightarrow> (case serve env cfg w req (view sh) of (st', r) \<Rightarrow>
     shared_ok (fst out) \<and> view (fst out) = st' \<and> snd out = Finished r)"
  by (simp add: served_def case_prod_beta)

lemma served_login:
  assumes "shared_ok sh"
  shows "served env cfg w (Login form) sh (proceed 2 env cfg w (Serve (Login form)) sh)"
proof -
  let ?entry = "\<lambda>cl. \<lparr>auth_claims = cl, auth_nonce = fresh_nonce w, auth_created = store_time w\<rparr>"
  let ?sh = "prune_shared (prune_time w) sh"
  have p: "prune_caches t (view sh) = view (prune_shared t sh)" for t by (simp add: view_prune [OF assms])
  have b: "fst (begin_authorization env cfg w form cl (view sh))
      = view (?sh\<lparr>contexts := AList.update (fresh_context w) (?entry cl) (contexts ?sh)\<rparr>)" for cl
    by (simp add: begin_state with_context_def login_entry_def Let_def p view_contexts)
  have a: "snd (begin_authorization env cfg w form cl (view ?sh)) = snd (begin_authorization env cfg w form cl (view sh))" for cl
    by (rule begin_answer)
  have h: "fst (home_response env cfg w (view sh) raw e k) = view ?sh" for raw e k
    by (simp add: home_response_state p)
  show ?thesis
    using contexts_ok(1) [OF prune_shared_ok [OF assms]] prune_shared_ok [OF assms] assms
    by (cases "field_on form ''omit_claims''")
       (auto simp: served_def login_def Let_def numeral_2_eq_2 a b h split: sum.split claims_exc.split)
qed

lemma served_callback:
  assumes "shared_ok sh"
  shows "served env cfg w (Callback args s) sh (proceed 3 env cfg w (Serve (Callback args s)) sh)"
proof (cases "named_context args")
  case None
  then show ?thesis
    using assms
    by (auto simp: served_case callback_def Let_def numeral_3_eq_3 named_context_def public_description_def
        missing_context_def split: option.splits list.splits)
next
  case (Some k)
  then have n: "(case map_of args (U ''error'') of None \<Rightarrow> [] | Some e \<Rightarrow> e) = []"
    "(case map_of args (U ''state'') of None \<Rightarrow> [] | Some i \<Rightarrow> i) = k" "k \<noteq> []"
    by (auto simp: named_context_def split: option.splits list.splits)
  let ?sh = "sh\<lparr>contexts := AList.delete k (contexts sh)\<rparr>"
  have ok: "shared_ok ?sh" by (rule contexts_ok(2) [OF assms])
  show ?thesis
    using ok new_result_ok [OF ok] view_new_result [OF ok] n(3)
    by (auto simp: served_case callback_def n Let_def numeral_3_eq_3 missing_context_def view_contexts
        split: option.splits)
qed

lemma served_refresh:
  assumes "shared_ok sh"
  shows "served env cfg w (Refresh form s) sh (proceed 7 env cfg w (Serve (Refresh form s)) sh)"
proof -
  let ?sh = "prune_shared (prune_time w) sh"
  have ok: "shared_ok ?sh" and p: "prune_caches (prune_time w) (view sh) = view ?sh"
    using assms by (simp_all add: prune_shared_ok view_prune)
  have start: "proceed 7 env cfg w (Serve (Refresh form s)) sh = proceed 6 env cfg w (LookupResult form s) ?sh"
    using proceed_add [of 1 6] by simp
  consider (gone) "chosen_result form s = None \<or> (\<exists>i. chosen_result form s = Some i \<and> map_of (token_refs ?sh) i = None)"
    | (found) i r where "chosen_result form s = Some i" "map_of (token_refs ?sh) i = Some r"
    by (metis not_None_eq)
  then show ?thesis
  proof cases
    case gone
    then show ?thesis
      using ok by (auto simp: served_case start refresh_def p no_refresh_page_def Let_def eval_nat_numeral)
  next
    case found
    let ?e = "objects ?sh ! r"
    have look: "proceed 6 env cfg w (LookupResult form s) ?sh = proceed 5 env cfg w (CheckToken i r) ?sh"
      using proceed_add [of 1 5] found by simp
    show ?thesis
    proof (cases "truthy (refresh_token ?e)")
      case False
      then show ?thesis
        using ok found by (simp add: served_case start look refresh_def p no_refresh_page_def Let_def eval_nat_numeral)
    next
      case True
      show ?thesis
      proof (cases "verified_response w (fetch_access_token w (refresh_token ?e)) None")
        case None
        then show ?thesis
          using ok found True by (simp add: served_case start look refresh_def p Let_def eval_nat_numeral)
      next
      case (Some x)
      then obtain token id_token info where v:
        "verified_response w (fetch_access_token w (refresh_token ?e)) None = Some (token, id_token, info)" by (cases x) auto
      have fetch: "proceed 5 env cfg w (CheckToken i r) ?sh = proceed 3 env cfg w (ReadToken i r token id_token info) ?sh"
        using proceed_add [of 2 3 env cfg w "CheckToken i r" ?sh] True v by (simp add: numeral_2_eq_2)
      obtain sh' where "proceed 3 env cfg w (ReadToken i r token id_token info) ?sh
          = (sh', Finished (render_result env w (token_claims ?e) id_token info
              (get_member token ''access_token'') True (U ''Refresh token response'') i))"
        "shared_ok sh'" "view sh' = (view ?sh)\<lparr>token_cache :=
          AList.update i (refreshed_entry w token ?e) (token_cache (view ?sh))\<rparr>"
        using proceed_refresh [OF ok found(2)] by blast
      then show ?thesis
        using found True v
        by (simp add: served_case start look fetch refresh_def p Let_def refreshed_entry_def)
      qed
    qed
  qed
qed

section \<open>What every thread knows\<close>

text \<open>A login thread that has stored its context, and where an entry of the cache comes from.\<close>

definition stored :: "py_env \<Rightarrow> ustr \<Rightarrow> (ustr, json) dict \<Rightarrow> thread \<Rightarrow> bool" where
  "stored env k cl t \<longleftrightarrow> fresh_context (thread_world t) = k \<and> (\<exists>r. thread_phase t = Finished r)
     \<and> (\<exists>form. thread_request t = Login form \<and> requested_claims env form = Some cl)"

definition opened_by :: "py_env \<Rightarrow> thread list \<Rightarrow> ustr \<Rightarrow> auth_entry \<Rightarrow> bool" where
  "opened_by env ts k e \<longleftrightarrow> (\<exists>u \<in> set ts. \<exists>cl. stored env k cl u \<and> e = login_entry (thread_world u) cl)"

text \<open>The page of an authorization response agrees with the login that opened its context.\<close>

definition agrees :: "py_env \<Rightarrow> thread list \<Rightarrow> world \<Rightarrow> (ustr, ustr) dict \<Rightarrow> result_view \<Rightarrow> bool" where
  "agrees env ts w args v \<longleftrightarrow> (\<exists>k c token id_token info. named_context args = Some k \<and> opened_by env ts k c
     \<and> verified_response w (authorize_access_token w args) (Some (auth_nonce c)) = Some (token, id_token, info)
     \<and> pretty_json env (JObj (auth_claims c)) = Inr (view_claims v)
     \<and> pretty_json env (JObj id_token) = Inr (view_id_token v) \<and> pretty_json env (JObj info) = Inr (view_userinfo v))"

fun fits_request :: "py_env \<Rightarrow> thread list \<Rightarrow> world \<Rightarrow> client_request \<Rightarrow> phase \<Rightarrow> bool" where
  "fits_request env ts w req (Serve r) \<longleftrightarrow> r = req"
| "fits_request env ts w req (StoreContext form cl) \<longleftrightarrow> req = Login form \<and> requested_claims env form = Some cl"
| "fits_request env ts w req (VerifyCallback args c) \<longleftrightarrow> (\<exists>s. req = Callback args s)
     \<and> (\<exists>k. named_context args = Some k \<and> opened_by env ts k c)"
| "fits_request env ts w req (StoreResult c token id_token info) \<longleftrightarrow> (\<exists>args s k. req = Callback args s
     \<and> named_context args = Some k \<and> opened_by env ts k c
     \<and> verified_response w (authorize_access_token w args) (Some (auth_nonce c)) = Some (token, id_token, info))"
| "fits_request env ts w req (Finished r) \<longleftrightarrow>
     (\<forall>args s v. req = Callback args s \<longrightarrow> r = Page 200 (ResultPage v) \<longrightarrow> agrees env ts w args v)"
| "fits_request env ts w req p \<longleftrightarrow> (\<exists>form s. req = Refresh form s)"

lemma opened_by_mono:
  assumes "\<And>u k cl. u \<in> set ts \<Longrightarrow> stored env k cl u \<Longrightarrow> u \<in> set ts'"
  shows "opened_by env ts k e \<Longrightarrow> opened_by env ts' k e"
  using assms unfolding opened_by_def by blast

lemma agrees_mono:
  assumes "\<And>k e. opened_by env ts k e \<Longrightarrow> opened_by env ts' k e"
  shows "agrees env ts w args v \<Longrightarrow> agrees env ts' w args v"
  using assms unfolding agrees_def by blast

lemma fits_mono:
  assumes "\<And>k e. opened_by env ts k e \<Longrightarrow> opened_by env ts' k e"
  shows "fits_request env ts w req p \<Longrightarrow> fits_request env ts' w req p"
  using assms agrees_mono [OF assms] by (cases p) (simp_all, blast+)

text \<open>How one step changes the contexts: entries disappear, or the thread stores its own.\<close>

lemma prune_contexts:
  "dict_ok (contexts sh) \<Longrightarrow> dict_ok (contexts (prune_shared now sh))"
  "dict_ok (contexts sh) \<Longrightarrow> map_of (contexts (prune_shared now sh)) k = Some e \<Longrightarrow> map_of (contexts sh) k = Some e"
  by (simp_all add: prune_shared_def Let_def dict.valid_evict dict.evict_subset)

lemma advance_contexts:
  assumes "dict_ok (contexts sh)" "advance env cfg w p sh = (sh', p')"
  shows "dict_ok (contexts sh')"
    and "map_of (contexts sh') k = Some e \<Longrightarrow> map_of (contexts sh) k = Some e
      \<or> (\<exists>form cl. p = StoreContext form cl \<and> k = fresh_context w \<and> e = login_entry w cl)"
proof -
  have "dict_ok (contexts sh') \<and> (map_of (contexts sh') k = Some e \<longrightarrow> map_of (contexts sh) k = Some e
      \<or> (\<exists>form cl. p = StoreContext form cl \<and> k = fresh_context w \<and> e = login_entry w cl))" for k e
  proof (cases p)
    case (Serve req)
    with assms prune_contexts [OF assms(1), of "prune_time w"] show ?thesis
      by (cases req)
         (auto simp: Let_def dict.valid_drop dict.lookup_drop split: if_splits sum.splits claims_exc.splits option.splits)
  qed (use assms in \<open>auto simp: dict.valid_put dict.lookup_put login_entry_def split: if_splits\<close>)
  then show "dict_ok (contexts sh')"
    and "map_of (contexts sh') k = Some e \<Longrightarrow> map_of (contexts sh) k = Some e
      \<or> (\<exists>form cl. p = StoreContext form cl \<and> k = fresh_context w \<and> e = login_entry w cl)" by auto
qed

lemma rendered_views:
  assumes "render_result env w cl i u a b s k = Page 200 (ResultPage v)"
  shows "pretty_json env (JObj cl) = Inr (view_claims v)" "pretty_json env (JObj i) = Inr (view_id_token v)"
    "pretty_json env (JObj u) = Inr (view_userinfo v)"
  using assms by (auto simp: render_result_def split: sum.splits)

lemma advance_fits:
  assumes "advance env cfg w p sh = (sh', p')" "fits_request env ts w req p"
    and "\<And>k e. map_of (contexts sh) k = Some e \<Longrightarrow> opened_by env ts k e"
  shows "fits_request env ts w req p'"
proof (cases p)
  case (Serve r)
  show ?thesis
  proof (cases r)
    case (Callback args s)
    with Serve assms show ?thesis
      by (auto simp: Let_def named_context_def missing_context_def split: if_splits option.splits list.splits)
  qed (use Serve assms in \<open>auto simp: Let_def requested_claims_def split: if_splits sum.splits claims_exc.splits\<close>)
next
  case (VerifyCallback args c)
  with assms show ?thesis by (auto split: option.splits)
next
  case (StoreResult c token id_token info)
  with assms(2) obtain args s k where c: "req = Callback args s" "named_context args = Some k" "opened_by env ts k c"
    "verified_response w (authorize_access_token w args) (Some (auth_nonce c)) = Some (token, id_token, info)" by auto
  have "agrees env ts w args v" if "p' = Finished (Page 200 (ResultPage v))" for v
  proof -
    have "render_result env w (auth_claims c) id_token info (get_member token ''access_token'') True
        (U ''Authorization code response'') (fresh_result w) = Page 200 (ResultPage v)"
      using that assms(1) StoreResult by simp
    from rendered_views [OF this] c(2-4) show ?thesis unfolding agrees_def by blast
  qed
  with assms(1) StoreResult c(1) show ?thesis by auto
qed (use assms in \<open>auto split: option.splits if_splits\<close>)

definition threads_ok :: "py_env \<Rightarrow> thread list \<Rightarrow> shared \<Rightarrow> bool" where
  "threads_ok env ts sh \<longleftrightarrow> dict_ok (contexts sh)
     \<and> (\<forall>k e. map_of (contexts sh) k = Some e \<longrightarrow> opened_by env ts k e)
     \<and> (\<forall>t \<in> set ts. fits_request env ts (thread_world t) (thread_request t) (thread_phase t))"

lemma turn_opened:
  assumes "i < length ts" "advance env cfg (thread_world (ts ! i)) (thread_phase (ts ! i)) sh = (sh', p)"
    and "opened_by env ts k e"
  shows "opened_by env (ts[i := (ts ! i)\<lparr>thread_phase := p\<rparr>]) k e"
proof (rule opened_by_mono [OF _ assms(3)])
  fix u k cl
  assume u: "u \<in> set ts" "stored env k cl u"
  then obtain j where j: "j < length ts" "u = ts ! j" by (metis in_set_conv_nth)
  have "(ts[i := (ts ! i)\<lparr>thread_phase := p\<rparr>]) ! j = u"
    using u(2) j assms(2) by (cases "i = j") (auto simp: stored_def)
  then show "u \<in> set (ts[i := (ts ! i)\<lparr>thread_phase := p\<rparr>])"
    using j(1) by (metis length_list_update nth_mem)
qed

lemma interleaved_ok: "interleaved env cfg ts sh \<Longrightarrow> threads_ok env ts sh"
proof (induction rule: interleaved.induct)
  case idle
  show ?case by (simp add: threads_ok_def empty_shared_def)
next
  case (arrive ts sh w req)
  let ?ts = "ts @ [\<lparr>thread_world = w, thread_request = req, thread_phase = Serve req\<rparr>]"
  have m: "opened_by env ts k e \<Longrightarrow> opened_by env ?ts k e" for k e by (rule opened_by_mono) auto
  show ?case
    using arrive.IH fits_mono [OF m] m by (auto simp: threads_ok_def)
next
  case (turn ts sh i sh' p)
  let ?t = "ts ! i"
  let ?ts = "ts[i := ?t\<lparr>thread_phase := p\<rparr>]"
  have ok: "dict_ok (contexts sh)" "\<And>k e. map_of (contexts sh) k = Some e \<Longrightarrow> opened_by env ts k e"
    "\<And>t. t \<in> set ts \<Longrightarrow> fits_request env ts (thread_world t) (thread_request t) (thread_phase t)"
    using turn.IH by (auto simp: threads_ok_def)
  have m: "opened_by env ts k e \<Longrightarrow> opened_by env ?ts k e" for k e by (rule turn_opened [OF turn.hyps(2,3)])
  have t: "fits_request env ts (thread_world ?t) (thread_request ?t) (thread_phase ?t)" using ok(3) turn.hyps(2) by simp
  have new: "opened_by env ?ts k e" if e: "map_of (contexts sh') k = Some e" for k e
  proof -
    from advance_contexts(2) [OF ok(1) turn.hyps(3) e] show ?thesis
    proof (elim disjE exE conjE)
      assume "map_of (contexts sh) k = Some e"
      then show ?thesis using ok(2) m by blast
    next
      fix form cl
      assume s: "thread_phase ?t = StoreContext form cl" "k = fresh_context (thread_world ?t)" "e = login_entry (thread_world ?t) cl"
      have "stored env k cl (?t\<lparr>thread_phase := p\<rparr>)" using s t turn.hyps(3) by (auto simp: stored_def)
      moreover have "?t\<lparr>thread_phase := p\<rparr> \<in> set ?ts" using turn.hyps(2) by (simp add: set_update_memI)
      ultimately show ?thesis unfolding opened_by_def using s(3) by force
    qed
  qed
  have "fits_request env ?ts (thread_world u) (thread_request u) (thread_phase u)" if "u \<in> set ?ts" for u
  proof (cases "u \<in> set ts")
    case True
    show ?thesis by (rule fits_mono [OF m ok(3) [OF True]])
  next
    case False
    with that have "u = ?t\<lparr>thread_phase := p\<rparr>" using set_update_subset_insert by fastforce
    then show ?thesis using fits_mono [OF m advance_fits [OF turn.hyps(3) t ok(2)]] by simp
  qed
  with new advance_contexts(1) [OF ok(1) turn.hyps(3)] show ?case by (simp add: threads_ok_def)
qed

section \<open>Single use under interleaving\<close>

text \<open>A callback thread that took context \<open>k\<close>.\<close>

definition holds :: "ustr \<Rightarrow> thread \<Rightarrow> bool" where
  "holds k t \<longleftrightarrow> (\<exists>args s. thread_request t = Callback args s \<and> named_context args = Some k)
     \<and> (\<forall>r. thread_phase t \<noteq> Serve r) \<and> thread_phase t \<noteq> Finished missing_context"

definition is_pending :: "ustr \<Rightarrow> shared \<Rightarrow> nat" where
  "is_pending k sh = (if map_of (contexts sh) k = None then 0 else 1)"

lemma times_update:
  "i < length xs \<Longrightarrow> times P (xs[i := x]) + (if P (xs ! i) then 1 else 0) = times P xs + (if P x then 1 else 0)"
proof (induction xs arbitrary: i)
  case (Cons y xs)
  then show ?case by (cases i) (force simp: times_def)+
qed simp

lemma advance_is_pending:
  assumes "dict_ok (contexts sh)" "advance env cfg w p sh = (sh', p')" "\<And>form cl. p \<noteq> StoreContext form cl"
  shows "is_pending k sh' \<le> is_pending k sh"
  using advance_contexts(2) [OF assms(1,2), of k] assms(3)
  by (cases "map_of (contexts sh') k") (auto simp: is_pending_def)

lemma advance_callback:
  "named_context args = Some k \<Longrightarrow> advance env cfg w (Serve (Callback args s)) sh
     = (sh\<lparr>contexts := AList.delete k (contexts sh)\<rparr>,
        case map_of (contexts sh) k of None \<Rightarrow> Finished missing_context | Some c \<Rightarrow> VerifyCallback args c)"
  "named_context args = None \<Longrightarrow> \<exists>r. advance env cfg w (Serve (Callback args s)) sh = (sh, Finished r)"
  by (auto simp: Let_def named_context_def split: option.splits list.splits)

text \<open>One step of a thread never makes more holders and pending contexts than it stores.\<close>

lemma step_balance:
  fixes t :: thread
  assumes "dict_ok (contexts sh)" "fits_request env ts (thread_world t) (thread_request t) (thread_phase t)"
    and "advance env cfg (thread_world t) (thread_phase t) sh = (sh', p)"
  defines "t' \<equiv> t\<lparr>thread_phase := p\<rparr>"
  shows "(if holds k t' then 1 else 0) + is_pending k sh' + (if \<exists>cl. stored env k cl t then 1 else 0)
    \<le> (if holds k t then 1 else 0) + is_pending k sh + (if \<exists>cl. stored env k cl t' then 1 else (0 :: nat))"
proof (cases "thread_phase t")
  case (Serve r)
  have le: "is_pending k sh' \<le> is_pending k sh" by (rule advance_is_pending [OF assms(1,3)]) (simp add: Serve)
  have req: "thread_request t = r" using assms(2) Serve by simp
  have s: "\<not> stored env k cl t" for cl by (simp add: stored_def Serve)
  show ?thesis
  proof (cases r)
    case (Callback args s)
    then have req: "thread_request t = Callback args s" using req by simp
    have a: "advance env cfg (thread_world t) (Serve (Callback args s)) sh = (sh', p)"
      using assms(3) Serve Callback by simp
    show ?thesis
    proof (cases "named_context args")
      case None
      then have "\<not> holds k t'" "sh' = sh"
        using a advance_callback(2) [OF None, of env cfg "thread_world t" s sh] by (auto simp: holds_def req t'_def)
      then show ?thesis using s by simp
    next
      case (Some k')
      with a have "sh' = sh\<lparr>contexts := AList.delete k' (contexts sh)\<rparr>"
        "p = (case map_of (contexts sh) k' of None \<Rightarrow> Finished missing_context | Some c \<Rightarrow> VerifyCallback args c)"
        unfolding advance_callback(1) [OF Some] by simp_all
      then show ?thesis
        using s Serve by (auto simp: holds_def req t'_def Some is_pending_def dict.lookup_drop split: option.split)
    qed
  qed (use le s in \<open>simp_all add: holds_def t'_def req\<close>)
next
  case (StoreContext form cl)
  with assms show ?thesis
    by (auto simp: t'_def holds_def stored_def is_pending_def dict.lookup_put)
next
  case (VerifyCallback args c)
  with assms show ?thesis
    by (auto simp: t'_def holds_def stored_def is_pending_def split: option.splits)
qed (use assms in \<open>auto simp: t'_def holds_def stored_def is_pending_def split: option.splits if_splits\<close>)

lemma threads_balance:
  "interleaved env cfg ts sh \<Longrightarrow>
     times (holds k) ts + is_pending k sh \<le> times (\<lambda>t. \<exists>cl. stored env k cl t) ts"
proof (induction rule: interleaved.induct)
  case idle
  show ?case by (simp add: is_pending_def empty_shared_def)
next
  case (arrive ts sh w req)
  then show ?case by (simp add: holds_def stored_def)
next
  case (turn ts sh i sh' p)
  let ?t = "ts ! i"
  have ok: "dict_ok (contexts sh)" "fits_request env ts (thread_world ?t) (thread_request ?t) (thread_phase ?t)"
    using interleaved_ok [OF turn.hyps(1)] turn.hyps(2) by (simp_all add: threads_ok_def)
  show ?case
    using step_balance [OF ok turn.hyps(3), of k] turn.IH
      times_update [OF turn.hyps(2), of "holds k" "?t\<lparr>thread_phase := p\<rparr>"]
      times_update [OF turn.hyps(2), of "\<lambda>t. \<exists>cl. stored env k cl t" "?t\<lparr>thread_phase := p\<rparr>"]
    by linarith
qed

section \<open>A pruned result during a refresh\<close>

text \<open>The phases of a refresh that has its reference, and what they leave alone.\<close>

fun past_lookup :: "ustr \<Rightarrow> phase \<Rightarrow> bool" where
  "past_lookup i (ReadToken i' r token id_token info) \<longleftrightarrow> i' = i"
| "past_lookup i (WriteToken i' r t token id_token info) \<longleftrightarrow> i' = i"
| "past_lookup i (TouchResult i' r token id_token info) \<longleftrightarrow> i' = i"
| "past_lookup i p \<longleftrightarrow> False"

lemma past_lookup_finishes:
  assumes "past_lookup i p"
  shows "\<exists>sh' c id_token info a. proceed 3 env cfg w p sh
    = (sh', Finished (render_result env w c id_token info a True (U ''Refresh token response'') i))
    \<and> token_refs sh' = token_refs sh \<and> contexts sh' = contexts sh"
  using assms by (cases p) (auto simp: numeral_3_eq_3)

section \<open>A sample interleaving\<close>

lemma interleaved_proceed:
  "interleaved env cfg (ts @ [t]) sh \<Longrightarrow> proceed n env cfg (thread_world t) (thread_phase t) sh = (sh', p) \<Longrightarrow>
     interleaved env cfg (ts @ [t\<lparr>thread_phase := p\<rparr>]) sh'"
proof (induction n arbitrary: t sh)
  case 0
  then show ?case by (cases t) simp
next
  case (Suc n)
  obtain sh1 p1 where a: "advance env cfg (thread_world t) (thread_phase t) sh = (sh1, p1)"
    by (cases "advance env cfg (thread_world t) (thread_phase t) sh")
  have "interleaved env cfg (ts @ [t\<lparr>thread_phase := p1\<rparr>]) sh1"
    using turn [OF Suc.prems(1), of "length ts"] a by simp
  from Suc.IH [OF this] show ?case using Suc.prems(2) a by simp
qed

text \<open>A login and then its callback, each to its end.\<close>

lemma sample_interleaving:
  "\<exists>sh v r. interleaved sample_env sample_config
      [\<lparr>thread_world = sample_world, thread_request = Login sample_form, thread_phase = Finished r\<rparr>,
       \<lparr>thread_world = sample_world, thread_request = Callback sample_args None,
        thread_phase = Finished (Page 200 (ResultPage v))\<rparr>] sh"
proof -
  have e: "shared_ok empty_shared" "view empty_shared = initial_state"
    by (simp_all add: shared_ok_def empty_shared_def view_def initial_state_def)
  obtain sh1 p1 where l: "proceed 2 sample_env sample_config sample_world (Serve (Login sample_form)) empty_shared = (sh1, p1)"
    by (cases "proceed 2 sample_env sample_config sample_world (Serve (Login sample_form)) empty_shared")
  from served_login [OF e(1), of sample_env sample_config sample_world sample_form]
  have o: "shared_ok sh1" "view sh1 = sample_opened" "\<exists>r. p1 = Finished r"
    unfolding l served_case e(2) sample_login by simp_all
  obtain sh2 p2 where c: "proceed 3 sample_env sample_config sample_world (Serve (Callback sample_args None)) sh1 = (sh2, p2)"
    by (cases "proceed 3 sample_env sample_config sample_world (Serve (Callback sample_args None)) sh1")
  obtain v where v: "serve sample_env sample_config sample_world (Callback sample_args None) sample_opened =
     (sample_granted, Page 200 (ResultPage v))" using sample_callback by blast
  from served_callback [OF o(1), of sample_env sample_config sample_world sample_args None]
  have p2: "p2 = Finished (Page 200 (ResultPage v))"
    unfolding c served_case o(2) v by simp
  let ?login = "\<lparr>thread_world = sample_world, thread_request = Login sample_form, thread_phase = Serve (Login sample_form)\<rparr>"
  let ?callback = "\<lparr>thread_world = sample_world, thread_request = Callback sample_args None,
      thread_phase = Serve (Callback sample_args None)\<rparr>"
  have "interleaved sample_env sample_config ([] @ [?login]) empty_shared" by (rule arrive [OF idle])
  from interleaved_proceed [OF this, of 2 sh1 p1] l
  have "interleaved sample_env sample_config ([] @ [?login\<lparr>thread_phase := p1\<rparr>]) sh1" by simp
  from arrive [OF this] have "interleaved sample_env sample_config ([?login\<lparr>thread_phase := p1\<rparr>] @ [?callback]) sh1" by simp
  from interleaved_proceed [OF this, of 3 sh2 p2] c
  have "interleaved sample_env sample_config ([?login\<lparr>thread_phase := p1\<rparr>] @ [?callback\<lparr>thread_phase := p2\<rparr>]) sh2" by simp
  with o(3) p2 show ?thesis by auto
qed

section \<open>Properties\<close>

text \<open>A request served with no other thread in between does what the handlers of
  Client_App say: for every request it reaches its answer in at most seven atomic steps, the
  answer is that of \<open>serve\<close>, and so is the state of the caches it leaves. Every sequential theorem
  is a theorem about the threaded program whenever requests do not overlap.\<close>

theorem threads_sequential:
  assumes "shared_ok sh"
  shows "\<exists>sh'. proceed 7 env cfg w (Serve req) sh = (sh', Finished (snd (serve env cfg w req (view sh))))
    \<and> view sh' = fst (serve env cfg w req (view sh)) \<and> shared_ok sh'"
proof -
  have extend: "served env cfg w req sh (proceed m env cfg w (Serve req) sh) \<Longrightarrow> m \<le> 7 \<Longrightarrow>
      served env cfg w req sh (proceed 7 env cfg w (Serve req) sh)" for m
    using proceed_add [of m "7 - m" env cfg w "Serve req" sh]
    by (auto simp: served_def split: prod.splits)
  have "served env cfg w req sh (proceed 7 env cfg w (Serve req) sh)"
  proof (cases req)
    case Home
    have "served env cfg w req sh (proceed 1 env cfg w (Serve req) sh)"
      using prune_shared_ok [OF assms] Home by (simp add: served_def home_def home_response_state view_prune [OF assms])
    then show ?thesis by (rule extend) simp
  next
    case (Preview form)
    have "served env cfg w req sh (proceed 1 env cfg w (Serve req) sh)"
      using prune_shared_ok [OF assms] assms Preview
      by (auto simp: served_def preview_def home_response_state view_prune [OF assms] Let_def
          split: sum.split claims_exc.split)
    then show ?thesis by (rule extend) simp
  next
    case (Login form)
    then show ?thesis using served_login [OF assms] by (intro extend [of 2]) simp_all
  next
    case (Callback args s)
    then show ?thesis using served_callback [OF assms] by (intro extend [of 3]) simp_all
  next
    case (Refresh form s)
    then show ?thesis using served_refresh [OF assms] by simp
  next
    case Discovery
    have "served env cfg w req sh (proceed 1 env cfg w (Serve req) sh)"
      using assms Discovery by (simp add: served_def)
    then show ?thesis by (rule extend) simp
  qed
  then show ?thesis by (auto simp: served_def prod_eq_iff)
qed

definition shared_granted :: shared where
  "shared_granted = \<lparr>contexts = [], token_refs = [(U ''t1'', 0)],
     objects = [\<lparr>refresh_token = JStr (U ''r1''), token_claims = [], token_created = 1001\<rparr>]\<rparr>"

theorem threads_sequential_witness:
  "\<exists>sh'. proceed 7 sample_env sample_config sample_world (Serve (Refresh [(U ''result_id'', U ''t1'')] None)) shared_granted
      = (sh', Finished (snd (serve sample_env sample_config sample_world
           (Refresh [(U ''result_id'', U ''t1'')] None) sample_granted)))"
proof -
  have ok: "shared_ok shared_granted" by (simp add: shared_ok_def shared_granted_def dict_ok_def)
  have v: "view shared_granted = sample_granted" by (simp add: view_def shared_granted_def sample_granted_def)
  show ?thesis
    using threads_sequential [OF ok, of sample_env sample_config sample_world "Refresh [(U ''result_id'', U ''t1'')] None"]
    unfolding v by blast
qed

text \<open>C4: under every interleaving of requests a result page for an authorization
  response comes from a login of this client: a login thread stored the context the callback
  names, the token response passed validation with that thread's nonce, and the page shows that
  thread's claims and exactly what was verified.\<close>

theorem threads_agree:
  assumes "interleaved env cfg ts sh" "t \<in> set ts" "thread_request t = Callback args s"
    and "thread_phase t = Finished (Page 200 (ResultPage v))"
  shows "\<exists>k u form cl token id_token info. named_context args = Some k \<and> u \<in> set ts
    \<and> thread_request u = Login form \<and> requested_claims env form = Some cl \<and> fresh_context (thread_world u) = k
    \<and> verified_response (thread_world t) (authorize_access_token (thread_world t) args)
        (Some (fresh_nonce (thread_world u))) = Some (token, id_token, info)
    \<and> pretty_json env (JObj cl) = Inr (view_claims v)
    \<and> pretty_json env (JObj id_token) = Inr (view_id_token v) \<and> pretty_json env (JObj info) = Inr (view_userinfo v)"
proof -
  have "agrees env ts (thread_world t) args v"
    using interleaved_ok [OF assms(1)] assms(2-4) by (force simp: threads_ok_def)
  then obtain k c token id_token info where a: "named_context args = Some k" "opened_by env ts k c"
    "verified_response (thread_world t) (authorize_access_token (thread_world t) args) (Some (auth_nonce c))
       = Some (token, id_token, info)" "pretty_json env (JObj (auth_claims c)) = Inr (view_claims v)"
    "pretty_json env (JObj id_token) = Inr (view_id_token v)" "pretty_json env (JObj info) = Inr (view_userinfo v)"
    unfolding agrees_def by blast
  from a(2) obtain u cl form where "u \<in> set ts" "c = login_entry (thread_world u) cl"
    "thread_request u = Login form" "requested_claims env form = Some cl" "fresh_context (thread_world u) = k"
    unfolding opened_by_def stored_def by blast
  with a show ?thesis by (auto simp: login_entry_def)
qed

theorem threads_agree_witness:
  "\<exists>sh r v cl token id_token info. interleaved sample_env sample_config
      [\<lparr>thread_world = sample_world, thread_request = Login sample_form, thread_phase = Finished r\<rparr>,
       \<lparr>thread_world = sample_world, thread_request = Callback sample_args None,
        thread_phase = Finished (Page 200 (ResultPage v))\<rparr>] sh
    \<and> pretty_json sample_env (JObj cl) = Inr (view_claims v)
    \<and> verified_response sample_world (authorize_access_token sample_world sample_args) (Some (U ''n1''))
        = Some (token, id_token, info)"
proof -
  obtain sh v r where i: "interleaved sample_env sample_config
      [\<lparr>thread_world = sample_world, thread_request = Login sample_form, thread_phase = Finished r\<rparr>,
       \<lparr>thread_world = sample_world, thread_request = Callback sample_args None,
        thread_phase = Finished (Page 200 (ResultPage v))\<rparr>] sh" using sample_interleaving by blast
  have n: "fresh_nonce sample_world = U ''n1''" by (simp add: sample_world_def)
  from threads_agree [OF i, of "\<lparr>thread_world = sample_world, thread_request = Callback sample_args None,
        thread_phase = Finished (Page 200 (ResultPage v))\<rparr>" sample_args None v] i n
  show ?thesis by fastforce
qed

text \<open>C3: contexts stay single-use when callbacks run concurrently. At every moment of
  every interleaving, the callback threads that took context \<open>k\<close> and the context still in the cache are together
  at most as many as the login threads that stored a context under \<open>k\<close>: of two callbacks with the same
  state value, however they overlap, one is answered as if the context had never existed.\<close>

theorem threads_single_use:
  assumes "interleaved env cfg ts sh"
  shows "times (holds k) ts + (if map_of (contexts sh) k = None then 0 else 1)
    \<le> times (\<lambda>t. \<exists>cl. stored env k cl t) ts"
  using threads_balance [OF assms, of k] by (simp add: is_pending_def)

theorem threads_single_use_witness:
  "\<exists>ts sh. interleaved sample_env sample_config ts sh \<and> length ts = 2
    \<and> times (holds (U ''c1'')) ts + (if map_of (contexts sh) (U ''c1'') = None then 0 else 1)
      \<le> times (\<lambda>t. \<exists>cl. stored sample_env (U ''c1'') cl t) ts"
proof -
  obtain sh v r where i: "interleaved sample_env sample_config
      [\<lparr>thread_world = sample_world, thread_request = Login sample_form, thread_phase = Finished r\<rparr>,
       \<lparr>thread_world = sample_world, thread_request = Callback sample_args None,
        thread_phase = Finished (Page 200 (ResultPage v))\<rparr>] sh" using sample_interleaving by blast
  show ?thesis by (intro exI conjI, rule i, simp, rule threads_single_use [OF i])
qed

text \<open>A refresh that overlaps with pruning can lose its result. Once the refresh
  holds its entry and the tokens are verified, another request may prune the entry; the refresh then writes to an
  object no cache refers to and still renders its page for that result, with the refresh
  button, but the result is gone: a second refresh of it is answered with the missing-token page.\<close>

theorem refresh_detached:
  assumes "past_lookup i p" "map_of (token_refs sh) i = None" "shared_ok sh"
    and "chosen_result form s = Some i"
  shows "\<exists>sh' sh'' c id_token info a. proceed 3 env cfg w p sh
      = (sh', Finished (render_result env w c id_token info a True (U ''Refresh token response'') i))
    \<and> map_of (token_refs sh') i = None
    \<and> proceed 2 env cfg w' (Serve (Refresh form s)) sh' = (sh'', Finished no_refresh_page)"
proof -
  obtain sh' c id_token info a where f: "proceed 3 env cfg w p sh
      = (sh', Finished (render_result env w c id_token info a True (U ''Refresh token response'') i))"
    "token_refs sh' = token_refs sh" using past_lookup_finishes [OF assms(1)] by blast
  have "dict_ok (token_refs sh')" using assms(3) f(2) by (simp add: shared_ok_def)
  then have "map_of (token_refs (prune_shared t sh')) i = None" for t
    using assms(2) f(2) by (simp add: prune_shared_def Let_def dict.lookup_evict)
  then have "proceed 2 env cfg w' (Serve (Refresh form s)) sh' = (prune_shared (prune_time w') sh', Finished no_refresh_page)"
    using assms(4) by (simp add: numeral_2_eq_2)
  moreover have "map_of (token_refs sh') i = None" using f(2) assms(2) by simp
  ultimately show ?thesis using f(1) by blast
qed

theorem refresh_detached_witness:
  "\<exists>sh' sh'' c id_token info a.
     proceed 3 sample_env sample_config sample_world (ReadToken (U ''t1'') 0 [] [] []) (prune_shared 3000 shared_granted)
      = (sh', Finished (render_result sample_env sample_world c id_token info a True (U ''Refresh token response'') (U ''t1'')))
    \<and> map_of (token_refs sh') (U ''t1'') = None
    \<and> proceed 2 sample_env sample_config sample_world (Serve (Refresh [] (Some (U ''t1'')))) sh' = (sh'', Finished no_refresh_page)"
proof -
  have ok: "shared_ok (prune_shared 3000 shared_granted)"
    by (rule prune_shared_ok) (simp add: shared_ok_def shared_granted_def dict_ok_def)
  have gone: "map_of (token_refs (prune_shared 3000 shared_granted)) (U ''t1'') = None"
    by (simp add: prune_shared_def shared_granted_def Let_def evict_dict_def expired_keys_def pop_all_def CACHE_TTL_SECONDS_def)
  show ?thesis by (rule refresh_detached [OF _ gone ok]) (simp_all add: chosen_result_def)
qed

end
