(* ===== verification/Client_Threads_Store.thy ===== *)
theory Client_Threads_Store
  imports Client_Threads
begin

text \<open>
  What the shared caches hold under concurrent requests: every reference a thread keeps is valid, and
  every stored claims object was sent by a login thread.
\<close>

section \<open>References and origins\<close>

text \<open>The references to token entries that a request has taken.\<close>

fun refs_ok :: "shared \<Rightarrow> phase \<Rightarrow> bool" where
  "refs_ok sh (CheckToken i r) \<longleftrightarrow> r < length (objects sh)"
| "refs_ok sh (FetchToken i r) \<longleftrightarrow> r < length (objects sh)"
| "refs_ok sh (ReadToken i r token id_token info) \<longleftrightarrow> r < length (objects sh)"
| "refs_ok sh (WriteToken i r t token id_token info) \<longleftrightarrow> r < length (objects sh)"
| "refs_ok sh (TouchResult i r token id_token info) \<longleftrightarrow> r < length (objects sh)"
| "refs_ok sh p \<longleftrightarrow> True"

definition from_login :: "py_env \<Rightarrow> thread list \<Rightarrow> (ustr, json) dict \<Rightarrow> bool" where
  "from_login env ts cl \<longleftrightarrow> (\<exists>u \<in> set ts. \<exists>k. stored env k cl u)"

text \<open>A finished refresh shows the claims of a login.\<close>

definition refresh_shows :: "py_env \<Rightarrow> thread list \<Rightarrow> client_request \<Rightarrow> phase \<Rightarrow> bool" where
  "refresh_shows env ts req p \<longleftrightarrow> (\<forall>form s v. req = Refresh form s \<longrightarrow> p = Finished (Page 200 (ResultPage v)) \<longrightarrow>
     (\<exists>cl. from_login env ts cl \<and> pretty_json env (JObj cl) = Inr (view_claims v)))"

definition store_ok :: "py_env \<Rightarrow> thread list \<Rightarrow> shared \<Rightarrow> bool" where
  "store_ok env ts sh \<longleftrightarrow> shared_ok sh \<and> (\<forall>e \<in> set (objects sh). from_login env ts (token_claims e))
     \<and> (\<forall>t \<in> set ts. refs_ok sh (thread_phase t) \<and> refresh_shows env ts (thread_request t) (thread_phase t))"

lemma refs_ok_mono: "length (objects sh) \<le> length (objects sh') \<Longrightarrow> refs_ok sh p \<Longrightarrow> refs_ok sh' p"
  by (cases p) auto

lemma from_login_opened: "opened_by env ts k e \<Longrightarrow> from_login env ts (auth_claims e)"
  by (simp add: opened_by_def from_login_def login_entry_def) force

section \<open>One step\<close>

lemma advance_shared_ok:
  assumes "shared_ok sh" "advance env cfg w p sh = (sh', p')"
  shows "shared_ok sh'"
proof (cases p)
  case (Serve req)
  then show ?thesis
    using assms prune_shared_ok [OF assms(1)] contexts_ok(2) [OF assms(1)]
    by (cases req) (auto simp: Let_def split: if_splits sum.splits claims_exc.splits)
next
  case (StoreResult c token id_token info)
  then show ?thesis using assms new_result_ok [OF assms(1)] by auto
qed (use assms contexts_ok(1) write_ok in auto)

lemma advance_objects:
  assumes "refs_ok sh p" "advance env cfg w p sh = (sh', p')"
  shows "length (objects sh) \<le> length (objects sh')"
    and "e \<in> set (objects sh') \<Longrightarrow> (\<exists>e' \<in> set (objects sh). token_claims e = token_claims e')
      \<or> (\<exists>c token i u. p = StoreResult c token i u \<and> token_claims e = auth_claims c)"
proof -
  have w: "e \<in> set ((objects sh)[r := f (objects sh ! r)]) \<Longrightarrow> r < length (objects sh) \<Longrightarrow>
      (\<And>x. token_claims (f x) = token_claims x) \<Longrightarrow> \<exists>e' \<in> set (objects sh). token_claims e = token_claims e'" for r f e
    using set_update_subset_insert [of "objects sh" r "f (objects sh ! r)"] by (metis insert_iff nth_mem subsetD)
  have p: "objects (prune_shared t sh) = objects sh" for t by (simp add: prune_shared_def Let_def)
  have "length (objects sh) \<le> length (objects sh') \<and> (e \<in> set (objects sh') \<longrightarrow>
      (\<exists>e' \<in> set (objects sh). token_claims e = token_claims e')
      \<or> (\<exists>c token i u. p = StoreResult c token i u \<and> token_claims e = auth_claims c))" for e
  proof (cases p)
    case (Serve req)
    with assms p show ?thesis by (cases req) (auto simp: Let_def split: if_splits sum.splits claims_exc.splits)
  next
    case (WriteToken i r t token id_token info)
    with assms w [of e r "\<lambda>x. x\<lparr>refresh_token := t\<rparr>"] show ?thesis by auto
  next
    case (TouchResult i r token id_token info)
    with assms w [of e r "\<lambda>x. x\<lparr>token_created := store_time w\<rparr>"] show ?thesis by auto
  qed (use assms in auto)
  then show "length (objects sh) \<le> length (objects sh')"
    and "e \<in> set (objects sh') \<Longrightarrow> (\<exists>e' \<in> set (objects sh). token_claims e = token_claims e')
      \<or> (\<exists>c token i u. p = StoreResult c token i u \<and> token_claims e = auth_claims c)" by auto
qed

lemma advance_refs:
  assumes "shared_ok sh" "refs_ok sh p" "advance env cfg w p sh = (sh', p')"
  shows "refs_ok sh' p'"
proof (cases p)
  case (Serve req)
  with assms(3) show ?thesis
    by (cases req) (auto simp: Let_def split: if_splits sum.splits claims_exc.splits option.splits)
next
  case (LookupResult form s)
  have "map_of (token_refs sh) i = Some r \<Longrightarrow> r < length (objects sh)" for i r
    using assms(1) by (auto simp: shared_ok_def dest!: map_of_SomeD)
  with LookupResult assms(3) show ?thesis by (auto split: option.splits)
qed (use assms in \<open>auto split: option.splits if_splits\<close>)

lemma advance_shows:
  assumes "refs_ok sh p" "advance env cfg w p sh = (sh', p')" "fits_request env ts w req p"
    and "refresh_shows env ts req p" "\<forall>e \<in> set (objects sh). from_login env ts (token_claims e)"
  shows "refresh_shows env ts req p'"
proof (cases p)
  case (Serve r)
  then show ?thesis using assms(2,3)
    by (cases r) (auto simp: refresh_shows_def Let_def split: if_splits sum.splits claims_exc.splits option.splits)
next
  case (TouchResult i r token id_token info)
  have "from_login env ts (token_claims (objects sh ! r))" using assms(1,5) TouchResult by simp
  moreover have "pretty_json env (JObj (token_claims (objects sh ! r))) = Inr (view_claims v)"
    if "p' = Finished (Page 200 (ResultPage v))" for v
    using that assms(2) TouchResult rendered_views(1) by auto
  ultimately show ?thesis unfolding refresh_shows_def by blast
next
  case (Finished r)
  then show ?thesis using assms(2,4) by simp
qed (use assms(2,3) in \<open>auto simp: refresh_shows_def no_refresh_page_def split: option.splits if_splits\<close>)

section \<open>Every interleaving\<close>

lemma from_login_mono:
  assumes "\<And>u k cl. u \<in> set ts \<Longrightarrow> stored env k cl u \<Longrightarrow> u \<in> set ts'"
  shows "from_login env ts cl \<Longrightarrow> from_login env ts' cl"
  using assms unfolding from_login_def by blast

lemma shows_mono:
  assumes "\<And>cl. from_login env ts cl \<Longrightarrow> from_login env ts' cl"
  shows "refresh_shows env ts req p \<Longrightarrow> refresh_shows env ts' req p"
  using assms unfolding refresh_shows_def by blast

lemma turn_login:
  assumes "i < length ts" "advance env cfg (thread_world (ts ! i)) (thread_phase (ts ! i)) sh = (sh', p)"
  shows "from_login env ts cl \<Longrightarrow> from_login env (ts[i := (ts ! i)\<lparr>thread_phase := p\<rparr>]) cl"
proof (rule from_login_mono)
  fix u k cl
  assume u: "u \<in> set ts" "stored env k cl u"
  then obtain j where j: "j < length ts" "u = ts ! j" by (metis in_set_conv_nth)
  have "(ts[i := (ts ! i)\<lparr>thread_phase := p\<rparr>]) ! j = u"
    using u(2) j assms(2) by (cases "i = j") (auto simp: stored_def)
  then show "u \<in> set (ts[i := (ts ! i)\<lparr>thread_phase := p\<rparr>])"
    using j(1) by (metis length_list_update nth_mem)
qed

lemma interleaved_store: "interleaved env cfg ts sh \<Longrightarrow> store_ok env ts sh"
proof (induction rule: interleaved.induct)
  case idle
  show ?case by (simp add: store_ok_def empty_shared_def shared_ok_def)
next
  case (arrive ts sh w req)
  let ?ts = "ts @ [\<lparr>thread_world = w, thread_request = req, thread_phase = Serve req\<rparr>]"
  have m: "from_login env ts cl \<Longrightarrow> from_login env ?ts cl" for cl by (rule from_login_mono) auto
  show ?case using arrive.IH m shows_mono [OF m] by (auto simp: store_ok_def) (simp_all add: refresh_shows_def)
next
  case (turn ts sh i sh' p)
  let ?t = "ts ! i"
  let ?ts = "ts[i := ?t\<lparr>thread_phase := p\<rparr>]"
  have m: "from_login env ts cl \<Longrightarrow> from_login env ?ts cl" for cl by (rule turn_login [OF turn.hyps(2,3)])
  have ok: "shared_ok sh" "\<forall>e \<in> set (objects sh). from_login env ts (token_claims e)"
    "\<And>t. t \<in> set ts \<Longrightarrow> refs_ok sh (thread_phase t) \<and> refresh_shows env ts (thread_request t) (thread_phase t)"
    using turn.IH by (auto simp: store_ok_def)
  have t: "refs_ok sh (thread_phase ?t)" "refresh_shows env ts (thread_request ?t) (thread_phase ?t)"
    "fits_request env ts (thread_world ?t) (thread_request ?t) (thread_phase ?t)"
    using ok(3) interleaved_ok [OF turn.hyps(1)] turn.hyps(2) by (auto simp: threads_ok_def)
  have "from_login env ?ts (token_claims e)" if e: "e \<in> set (objects sh')" for e
    using advance_objects(2) [OF t(1) turn.hyps(3) e]
  proof (elim disjE exE conjE bexE)
    fix e' assume "e' \<in> set (objects sh)" "token_claims e = token_claims e'"
    then show ?thesis using ok(2) m by simp
  next
    fix c token i u assume "thread_phase ?t = StoreResult c token i u" "token_claims e = auth_claims c"
    with t(3) obtain k where "opened_by env ts k c" by auto
    from m [OF from_login_opened [OF this]] \<open>token_claims e = auth_claims c\<close> show ?thesis by simp
  qed
  moreover have "refs_ok sh' (thread_phase u) \<and> refresh_shows env ?ts (thread_request u) (thread_phase u)" if "u \<in> set ?ts" for u
  proof (cases "u \<in> set ts")
    case True
    then show ?thesis
      using ok(3) refs_ok_mono [OF advance_objects(1) [OF t(1) turn.hyps(3)]] shows_mono [OF m] by blast
  next
    case False
    with that have "u = ?t\<lparr>thread_phase := p\<rparr>" using set_update_subset_insert by fastforce
    then show ?thesis
      using advance_refs [OF ok(1) t(1) turn.hyps(3)] shows_mono [OF m advance_shows [OF t(1) turn.hyps(3) t(3,2) ok(2)]]
      by simp
  qed
  ultimately show ?case using advance_shared_ok [OF ok(1) turn.hyps(3)] by (simp add: store_ok_def)
qed

section \<open>Properties\<close>

text \<open>C5: under every interleaving the claims attached to a stored result, which every later
  refresh page shows, are those of a login of this client: every entry any cache or thread refers to
  carries the claims of a login thread that was accepted, and so does the result page of every
  refresh, whatever was pruned or refreshed meanwhile.\<close>

theorem threads_claims_origin:
  assumes "interleaved env cfg ts sh"
  shows "(\<forall>k r. map_of (token_refs sh) k = Some r \<longrightarrow> from_login env ts (token_claims (objects sh ! r)))
    \<and> (\<forall>t form s v. t \<in> set ts \<longrightarrow> thread_request t = Refresh form s \<longrightarrow>
         thread_phase t = Finished (Page 200 (ResultPage v)) \<longrightarrow>
         (\<exists>u \<in> set ts. \<exists>login_form cl. thread_request u = Login login_form \<and> requested_claims env login_form = Some cl
            \<and> pretty_json env (JObj cl) = Inr (view_claims v)))"
proof (intro conjI allI impI)
  note ok = interleaved_store [OF assms, unfolded store_ok_def]
  show "from_login env ts (token_claims (objects sh ! r))" if "map_of (token_refs sh) k = Some r" for k r
    using ok that by (force simp: shared_ok_def dest!: map_of_SomeD)
  fix t form s v
  assume "t \<in> set ts" "thread_request t = Refresh form s" "thread_phase t = Finished (Page 200 (ResultPage v))"
  with ok obtain cl where "from_login env ts cl" "pretty_json env (JObj cl) = Inr (view_claims v)"
    unfolding refresh_shows_def by blast
  then show "\<exists>u \<in> set ts. \<exists>login_form cl. thread_request u = Login login_form \<and> requested_claims env login_form = Some cl
      \<and> pretty_json env (JObj cl) = Inr (view_claims v)" unfolding from_login_def stored_def by blast
qed

theorem threads_claims_origin_witness:
  "\<exists>ts sh. interleaved sample_env sample_config ts sh \<and> length ts = 2
    \<and> (\<forall>k r. map_of (token_refs sh) k = Some r \<longrightarrow> from_login sample_env ts (token_claims (objects sh ! r)))"
proof -
  obtain sh v r where i: "interleaved sample_env sample_config
      [\<lparr>thread_world = sample_world, thread_request = Login sample_form, thread_phase = Finished r\<rparr>,
       \<lparr>thread_world = sample_world, thread_request = Callback sample_args None,
        thread_phase = Finished (Page 200 (ResultPage v))\<rparr>] sh" using sample_interleaving by blast
  show ?thesis by (intro exI conjI, rule i, simp, rule threads_claims_origin [OF i, THEN conjunct1])
qed

text \<open>The shared state always has its type. Under every interleaving the two caches are dicts
  with distinct keys, every reference in the token cache and in a running request is one of an existing
  entry, no two keys share an entry, and every cached claims object is a well-formed JSON value
  within the scanner's depth (distinct member names, integers and floats as the scanner makes them), so it
  can always be printed, sent and parsed again.\<close>

theorem threads_store_typed:
  assumes "float_env env" "0 < scan_depth env" "interleaved env cfg ts sh"
  shows "shared_ok sh \<and> (\<forall>t \<in> set ts. refs_ok sh (thread_phase t))
    \<and> (\<forall>k e. map_of (contexts sh) k = Some e \<longrightarrow> json_ok env (scan_depth env) (JObj (auth_claims e)))
    \<and> (\<forall>e \<in> set (objects sh). json_ok env (scan_depth env) (JObj (token_claims e)))"
proof -
  have ok: "json_ok env (scan_depth env) (JObj cl)" if "from_login env ts cl" for cl
  proof -
    from that obtain form where "requested_claims env form = Some cl" unfolding from_login_def stored_def by blast
    then show ?thesis
      using assms(1,2) parse_claims_ok [of env "map_of form (U ''claims_json'')" cl]
      by (auto simp: requested_claims_def dict_ok_def split: if_splits sum.splits)
  qed
  show ?thesis
    using interleaved_store [OF assms(3)] interleaved_ok [OF assms(3)] ok from_login_opened
    unfolding store_ok_def threads_ok_def by blast
qed

theorem threads_store_typed_witness:
  "\<exists>ts sh. interleaved sample_env sample_config ts sh \<and> length ts = 2 \<and> shared_ok sh
    \<and> (\<forall>e \<in> set (objects sh). json_ok sample_env (scan_depth sample_env) (JObj (token_claims e)))"
proof -
  obtain sh v r where i: "interleaved sample_env sample_config
      [\<lparr>thread_world = sample_world, thread_request = Login sample_form, thread_phase = Finished r\<rparr>,
       \<lparr>thread_world = sample_world, thread_request = Callback sample_args None,
        thread_phase = Finished (Page 200 (ResultPage v))\<rparr>] sh" using sample_interleaving by blast
  have d: "0 < scan_depth sample_env" by simp
  note typed = threads_store_typed [OF sample_env_float d i]
  show ?thesis
    by (intro exI conjI, rule i, simp, rule typed [THEN conjunct1],
        rule typed [THEN conjunct2, THEN conjunct2, THEN conjunct2])
qed

end
