(* ===== verification/Py_Hmac.thy ===== *)
theory Py_Hmac
  imports Py_Codec
begin

text \<open>
  \<open>hmac.new(key, msg, hashlib.sha1).digest()\<close>: SHA-1 (FIPS 180-4) and HMAC (RFC 2104) on
  bytes, executable, and the length of a digest, which the TOTP truncation indexes into.
  \<open>hash_function\<close> is the contract HMAC has with a hash: digests of one length.
\<close>

unbundle bit_operations_syntax

section \<open>HMAC over any hash\<close>

definition xor_byte :: "8 word \<Rightarrow> bytes \<Rightarrow> bytes" where
  "xor_byte b = map (\<lambda>x. x XOR b)"

text \<open>The key, hashed when it is longer than a block, filled with zeros to a block.\<close>

definition hmac_key :: "(bytes \<Rightarrow> bytes) \<Rightarrow> nat \<Rightarrow> bytes \<Rightarrow> bytes" where
  "hmac_key H blk key =
     (let k = (if blk < length key then H key else key) in k @ replicate (blk - length k) 0)"

definition hmac :: "(bytes \<Rightarrow> bytes) \<Rightarrow> nat \<Rightarrow> bytes \<Rightarrow> bytes \<Rightarrow> bytes" where
  "hmac H blk key msg =
     (let k = hmac_key H blk key in H (xor_byte 0x5C k @ H (xor_byte 0x36 k @ msg)))"

locale hash_function =
  fixes H :: "bytes \<Rightarrow> bytes" and blk len :: nat
  assumes digest_length: "length (H x) = len"
    and fits_block: "len \<le> blk"
begin

lemma length_hmac_key: "length (hmac_key H blk key) = blk"
  using fits_block by (auto simp: hmac_key_def Let_def digest_length)

lemma length_hmac: "length (hmac H blk key msg) = len"
  by (simp add: hmac_def Let_def digest_length)

text \<open>Keys up to a block are used as they are: trailing zero bytes do not matter.\<close>

lemma hmac_zero_padded:
  "length key < blk \<Longrightarrow> hmac H blk (key @ [0]) msg = hmac H blk key msg"
proof -
  assume "length key < blk"
  then have "replicate (blk - length key) (0 :: 8 word) = 0 # replicate (blk - Suc (length key)) 0"
    by (metis Suc_diff_Suc replicate_Suc)
  with \<open>length key < blk\<close> show ?thesis by (simp add: hmac_def hmac_key_def Let_def)
qed

end

section \<open>SHA-1\<close>

type_synonym u32 = "32 word"

definition be32 :: "8 word \<Rightarrow> 8 word \<Rightarrow> 8 word \<Rightarrow> 8 word \<Rightarrow> u32" where
  "be32 a b c d = ((ucast a * 256 + ucast b) * 256 + ucast c) * 256 + ucast d"

definition bytes_of_u32 :: "u32 \<Rightarrow> bytes" where
  "bytes_of_u32 w = [ucast (drop_bit 24 w), ucast (drop_bit 16 w), ucast (drop_bit 8 w), ucast w]"

definition rotl :: "nat \<Rightarrow> u32 \<Rightarrow> u32" where
  "rotl n w = push_bit n w OR drop_bit (32 - n) w"

text \<open>The 64-bit big-endian length in bits that ends the padding.\<close>

fun be_bytes :: "nat \<Rightarrow> int \<Rightarrow> bytes" where
  "be_bytes 0 n = []"
| "be_bytes (Suc k) n = be_bytes k (n div 256) @ [word_of_int (n mod 256)]"

lemma be_bytes_numeral [simp]:
  "be_bytes (numeral k) n = be_bytes (pred_numeral k) (n div 256) @ [word_of_int (n mod 256)]"
  by (simp add: numeral_eq_Suc)

lemma length_be_bytes [simp]: "length (be_bytes k n) = k"
  by (induction k arbitrary: n) auto

definition sha1_pad :: "bytes \<Rightarrow> bytes" where
  "sha1_pad m = m @ 0x80 # replicate ((119 - length m mod 64) mod 64) 0 @ be_bytes 8 (8 * int (length m))"

fun words_of :: "bytes \<Rightarrow> u32 list" where
  "words_of (a # b # c # d # r) = be32 a b c d # words_of r"
| "words_of _ = []"

text \<open>
  The schedule is kept newest first, so that each new word reads positions 2, 7, 13 and 15
  of the list of the last sixteen.
\<close>

fun sha1_expand :: "nat \<Rightarrow> u32 list \<Rightarrow> u32 list" where
  "sha1_expand 0 w = w"
| "sha1_expand (Suc n) w =
     sha1_expand n (rotl 1 ((w ! 2) XOR (w ! 7) XOR (w ! 13) XOR (w ! 15)) # w)"

lemma sha1_expand_numeral [simp]:
  "sha1_expand (numeral n) w =
     sha1_expand (pred_numeral n) (rotl 1 ((w ! 2) XOR (w ! 7) XOR (w ! 13) XOR (w ! 15)) # w)"
  by (simp add: numeral_eq_Suc)

definition sha1_schedule :: "u32 list \<Rightarrow> u32 list" where
  "sha1_schedule blk = rev (sha1_expand 64 (rev blk))"

definition sha1_f :: "nat \<Rightarrow> u32 \<Rightarrow> u32 \<Rightarrow> u32 \<Rightarrow> u32" where
  "sha1_f t b c d =
     (if t < 20 then (b AND c) OR (NOT b AND d)
      else if t < 40 then b XOR c XOR d
      else if t < 60 then (b AND c) OR (b AND d) OR (c AND d)
      else b XOR c XOR d)"

definition sha1_k :: "nat \<Rightarrow> u32" where
  "sha1_k t = (if t < 20 then 0x5A827999 else if t < 40 then 0x6ED9EBA1
     else if t < 60 then 0x8F1BBCDC else 0xCA62C1D6)"

fun sha1_rounds :: "nat \<Rightarrow> u32 list \<Rightarrow> u32 \<times> u32 \<times> u32 \<times> u32 \<times> u32 \<Rightarrow> u32 \<times> u32 \<times> u32 \<times> u32 \<times> u32" where
  "sha1_rounds t [] s = s"
| "sha1_rounds t (w # ws) (a, b, c, d, e) =
     sha1_rounds (Suc t) ws
       (rotl 5 a + sha1_f t b c d + e + sha1_k t + w, a, rotl 30 b, c, d)"

definition sha1_block :: "u32 \<times> u32 \<times> u32 \<times> u32 \<times> u32 \<Rightarrow> u32 list \<Rightarrow> u32 \<times> u32 \<times> u32 \<times> u32 \<times> u32" where
  "sha1_block s blk =
     (case (s, sha1_rounds 0 (sha1_schedule blk) s) of
        ((a, b, c, d, e), (a', b', c', d', e')) \<Rightarrow> (a + a', b + b', c + c', d + d', e + e'))"

fun sha1_blocks :: "nat \<Rightarrow> u32 list \<Rightarrow> u32 \<times> u32 \<times> u32 \<times> u32 \<times> u32 \<Rightarrow> u32 \<times> u32 \<times> u32 \<times> u32 \<times> u32" where
  "sha1_blocks 0 ws s = s"
| "sha1_blocks (Suc n) ws s = sha1_blocks n (drop 16 ws) (sha1_block s (take 16 ws))"

lemma sha1_blocks_numeral [simp]:
  "sha1_blocks (numeral n) ws s = sha1_blocks (pred_numeral n) (drop 16 ws) (sha1_block s (take 16 ws))"
  by (simp add: numeral_eq_Suc)

definition sha1_init :: "u32 \<times> u32 \<times> u32 \<times> u32 \<times> u32" where
  "sha1_init = (0x67452301, 0xEFCDAB89, 0x98BADCFE, 0x10325476, 0xC3D2E1F0)"

definition sha1 :: "bytes \<Rightarrow> bytes" where
  "sha1 m =
     (let ws = words_of (sha1_pad m) in
      case sha1_blocks (length ws div 16) ws sha1_init of
        (a, b, c, d, e) \<Rightarrow> bytes_of_u32 a @ bytes_of_u32 b @ bytes_of_u32 c @ bytes_of_u32 d @ bytes_of_u32 e)"

definition hmac_sha1 :: "bytes \<Rightarrow> bytes \<Rightarrow> bytes" where
  "hmac_sha1 = hmac sha1 64"

lemma length_sha1: "length (sha1 m) = 20"
  by (simp add: sha1_def bytes_of_u32_def Let_def split: prod.split)

interpretation sha1_hash: hash_function sha1 64 20
  by unfold_locales (simp_all add: length_sha1)

lemma length_hmac_sha1 [simp]: "length (hmac_sha1 key msg) = 20"
  unfolding hmac_sha1_def by (rule sha1_hash.length_hmac)

lemma replicate_numeral: "replicate (numeral k) x = x # replicate (pred_numeral k) x"
  by (simp add: numeral_eq_Suc)

text \<open>What the simplifier needs to evaluate a digest.\<close>

lemmas sha1_eval = sha1_def sha1_pad_def sha1_block_def sha1_schedule_def sha1_f_def sha1_k_def
  sha1_init_def rotl_def be32_def bytes_of_u32_def Let_def replicate_numeral

end
