(* ===== verification/Otp_Pages.thy ===== *)
theory Otp_Pages
  imports Totp Client_App
begin

text \<open>
  The factor helpers of the test client (test-client/app.py): the handlers \<open>healthz\<close>,
  \<open>otp_helper\<close>, \<open>factor_tools\<close> and \<open>otp_code\<close>, with the Base32 form of the secret that the
  authenticator page shows. Proved: the shown form decodes to the very key the code is computed
  with, and the JSON endpoint and the page show the same code.
\<close>

section \<open>Base32\<close>

text \<open>\<open>base64.b32encode\<close>: the bits in groups of five, padded with zero bits, RFC 4648 alphabet.\<close>

definition b32_char :: "nat \<Rightarrow> nat" where
  "b32_char v = (if v < 26 then v + 65 else v + 24)"

definition b32_value :: "nat \<Rightarrow> nat option" where
  "b32_value c = (if 65 \<le> c \<and> c \<le> 90 then Some (c - 65)
     else if 50 \<le> c \<and> c \<le> 55 then Some (c - 24) else None)"

fun bits_of :: "nat \<Rightarrow> nat \<Rightarrow> bool list" where
  "bits_of 0 n = []"
| "bits_of (Suc k) n = bits_of k (n div 2) @ [odd n]"

definition of_bits :: "bool list \<Rightarrow> nat" where
  "of_bits bs = foldl (\<lambda>a b. 2 * a + of_bool b) 0 bs"

fun chunks5 :: "bool list \<Rightarrow> ustr" where
  "chunks5 (a # b # c # d # e # r) = b32_char (of_bits [a, b, c, d, e]) # chunks5 r"
| "chunks5 [] = []"
| "chunks5 bs = [b32_char (of_bits (take 5 (bs @ replicate 5 False)))]"

definition pad_to :: "nat \<Rightarrow> ustr \<Rightarrow> ustr" where
  "pad_to k s = s @ replicate (nat ((- int (length s)) mod int k)) 61"

definition b32encode :: "bytes \<Rightarrow> ustr" where
  "b32encode bs = pad_to 8 (chunks5 (concat (map (\<lambda>b. bits_of 8 (unat b)) bs)))"

text \<open>\<open>s.rstrip("=")\<close>\<close>

definition rstrip_eq :: "ustr \<Rightarrow> ustr" where
  "rstrip_eq s = rev (dropWhile (\<lambda>c. c = 61) (rev s))"

section \<open>The handlers\<close>

record otp_view =
  otp_username :: ustr
  otp_shown :: ustr
  otp_remaining :: int
  otp_secret_base32 :: ustr

definition healthz :: response where
  "healthz = JsonBody 200 (JObj [(U ''status'', JStr (U ''ok''))])"

definition otp_helper :: "ustr \<Rightarrow> rat \<Rightarrow> totp_exc + otp_view" where
  "otp_helper secret now =
     rbind (current_totp secret now) (\<lambda>(code, remaining).
     rbind (encode_secret secret) (\<lambda>key.
       Inr \<lparr>otp_username = U ''alice'', otp_shown = code, otp_remaining = remaining,
            otp_secret_base32 = rstrip_eq (b32encode key)\<rparr>))"

definition rstrip_slash :: "ustr \<Rightarrow> ustr" where
  "rstrip_slash s = rev (dropWhile (\<lambda>c. c = 47) (rev s))"

text \<open>The two addresses \<open>tools.html\<close> is rendered with.\<close>

definition factor_tools :: "config \<Rightarrow> ustr \<times> ustr" where
  "factor_tools cfg = (smtp4dev_url cfg, rstrip_slash (issuer cfg) @ U ''/account'')"

definition otp_code :: "ustr \<Rightarrow> rat \<Rightarrow> response" where
  "otp_code secret now =
     (case current_totp secret now of
        Inl _ \<Rightarrow> Failure
      | Inr (code, remaining) \<Rightarrow>
          JsonBody 200 (JObj [(U ''code'', JStr code), (U ''remaining'', JInt remaining)]))"

section \<open>Decoding Base32\<close>

text \<open>What an authenticator does with the shown text: the bits of its characters, in bytes.\<close>

fun bytes_of_bits :: "bool list \<Rightarrow> bytes" where
  "bytes_of_bits bs =
     (if length bs < 8 then [] else byte (of_bits (take 8 bs)) # bytes_of_bits (drop 8 bs))"

declare bytes_of_bits.simps [simp del]

definition b32decode :: "ustr \<Rightarrow> bytes option" where
  "b32decode s =
     (if \<exists>c \<in> set s. b32_value c = None then None
      else Some (bytes_of_bits (concat (map (\<lambda>c. bits_of 5 (the (b32_value c))) s))))"

lemma length_bits_of [simp]: "length (bits_of k n) = k"
  by (induction k arbitrary: n) simp_all

lemma of_bits_append: "of_bits (bs @ [b]) = 2 * of_bits bs + of_bool b"
  by (simp add: of_bits_def)

lemma of_bits_bits_of: "n < 2 ^ k \<Longrightarrow> of_bits (bits_of k n) = n"
proof (induction k arbitrary: n)
  case 0
  then show ?case by (simp add: of_bits_def)
next
  case (Suc k)
  then have "of_bits (bits_of k (n div 2)) = n div 2" by simp
  then show ?case by (simp add: of_bits_append)
qed

lemma bits_of_of_bits: "bits_of (length bs) (of_bits bs) = bs"
proof (induction bs rule: rev_induct)
  case (snoc b bs)
  have "(2 * of_bits bs + of_bool b) div 2 = of_bits bs" by simp
  with snoc show ?case by (simp add: of_bits_append)
qed simp

lemma of_bits_bound: "of_bits bs < 2 ^ length bs"
  by (induction bs rule: rev_induct) (auto simp: of_bits_append of_bits_def [of "[]"])

lemma b32_value_char [simp]: "v < 32 \<Longrightarrow> b32_value (b32_char v) = Some v"
  by (auto simp: b32_value_def b32_char_def)

lemma five_bits: "length bs = 5 \<Longrightarrow> bits_of 5 (of_bits bs) = bs" "length bs = 5 \<Longrightarrow> of_bits bs < 32"
  using bits_of_of_bits [of bs] of_bits_bound [of bs] by simp_all

lemma b32_char_not_pad: "v < 32 \<Longrightarrow> b32_char v \<noteq> 61"
  by (simp add: b32_char_def)

lemma last_chunk:
  assumes "chunks5 bs = [b32_char (of_bits (take 5 (bs @ replicate 5 False)))]" "0 < length bs" "length bs < 5"
  shows "\<exists>z. length z < 5 \<and> concat (map (\<lambda>c. bits_of 5 (the (b32_value c))) (chunks5 bs)) = bs @ z
       \<and> (\<forall>c \<in> set (chunks5 bs). b32_value c \<noteq> None \<and> c \<noteq> 61)"
proof -
  have t: "take 5 (bs @ replicate 5 False) = bs @ replicate (5 - length bs) False" using assms(3) by simp
  have l: "length (bs @ replicate (5 - length bs) False) = 5" using assms(3) by simp
  show ?thesis unfolding assms(1) t
    by (rule exI [of _ "replicate (5 - length bs) False"])
       (use assms(2,3) five_bits [OF l] b32_char_not_pad in simp)
qed

text \<open>The characters carry the bits, and at most four more, all zero.\<close>

lemma chunks5_bits:
  "\<exists>z. length z < 5 \<and> concat (map (\<lambda>c. bits_of 5 (the (b32_value c))) (chunks5 bs)) = bs @ z
       \<and> (\<forall>c \<in> set (chunks5 bs). b32_value c \<noteq> None \<and> c \<noteq> 61)"
proof (induction bs rule: chunks5.induct)
  case (1 a b c d e r)
  then obtain z where z: "length z < 5" "concat (map (\<lambda>c. bits_of 5 (the (b32_value c))) (chunks5 r)) = r @ z"
    "\<forall>c \<in> set (chunks5 r). b32_value c \<noteq> None \<and> c \<noteq> 61" by blast
  have f: "bits_of 5 (of_bits [a, b, c, d, e]) = [a, b, c, d, e]" "of_bits [a, b, c, d, e] < 32"
    by (rule five_bits; simp)+
  have n: "b32_char (of_bits [a, b, c, d, e]) \<noteq> 61" using f(2) by (rule b32_char_not_pad)
  show ?case
    by (rule exI [of _ z]) (use z n in \<open>simp only: chunks5.simps list.map concat.simps list.set
      b32_value_char [OF f(2)] option.sel f(1) append.simps, use b32_value_char [OF f(2)] in simp\<close>)
next
  case 2
  show ?case by simp
qed (rule last_chunk; simp)+

lemma bytes_of_bits_bytes:
  "length z < 8 \<Longrightarrow> bytes_of_bits (concat (map (\<lambda>b. bits_of 8 (unat b)) bs) @ z) = bs"
proof (induction bs)
  case Nil
  then show ?case by (simp add: bytes_of_bits.simps)
next
  case (Cons b bs)
  have "of_bits (bits_of 8 (unat b)) = unat b" by (intro of_bits_bits_of) simp
  with Cons show ?case by (subst bytes_of_bits.simps) simp
qed

lemma rstrip_pad: "\<forall>c \<in> set s. c \<noteq> 61 \<Longrightarrow> rstrip_eq (pad_to k s) = s"
proof -
  assume s: "\<forall>c \<in> set s. c \<noteq> 61"
  have d: "dropWhile (\<lambda>c. c = 61) (replicate n 61 @ t) = dropWhile (\<lambda>c. c = 61) t" for n and t :: ustr
    by (induction n) simp_all
  have "dropWhile (\<lambda>c. c = 61) (rev s) = rev s"
    using s by (cases "rev s") (auto dest!: arg_cong [where f = set])
  then show ?thesis by (simp add: rstrip_eq_def pad_to_def d)
qed

section \<open>Properties\<close>

text \<open>C21: the secret shown on the authenticator page is the one the code comes from.
  For every secret that encodes, decoding the shown Base32 text, which has no padding left, gives
  exactly the key bytes of \<open>current_totp\<close>, and the page and the JSON endpoint show the same
  code and remaining time for the same clock reading.\<close>

theorem otp_page_consistent:
  assumes "utf8_ok secret" "0 \<le> t" "t < 30 * 2 ^ 64"
  shows "\<exists>key view. encode_secret secret = Inr key \<and> otp_helper secret t = Inr view
    \<and> b32decode (otp_secret_base32 view) = Some key
    \<and> hotp key (\<lfloor>t\<rfloor> div 30) = Inr (otp_shown view)
    \<and> otp_code secret t = JsonBody 200 (JObj [(U ''code'', JStr (otp_shown view)),
         (U ''remaining'', JInt (otp_remaining view))])"
proof -
  obtain key where k: "encode_secret secret = Inr key" using encode_secret_ok [OF assms(1)] by blast
  have e: "py_int t = \<lfloor>t\<rfloor>" using assms(2) by (rule py_int_floor)
  obtain code where h: "hotp key (\<lfloor>t\<rfloor> div 30) = Inr code"
    using hotp_total [OF counter_range [OF assms(2,3)]] unfolding e by blast
  have c: "current_totp secret t = Inr (code, 30 - \<lfloor>t\<rfloor> mod 30)"
    by (simp add: current_totp_def k e h Let_def)
  let ?bits = "concat (map (\<lambda>b. bits_of 8 (unat b)) key)"
  obtain z where z: "length z < 5" "concat (map (\<lambda>c. bits_of 5 (the (b32_value c))) (chunks5 ?bits)) = ?bits @ z"
    "\<forall>c \<in> set (chunks5 ?bits). b32_value c \<noteq> None \<and> c \<noteq> 61" using chunks5_bits by blast
  have r: "rstrip_eq (b32encode key) = chunks5 ?bits"
    using z(3) by (simp add: b32encode_def rstrip_pad)
  have "b32decode (rstrip_eq (b32encode key)) = Some key"
    using z by (simp add: b32decode_def r bytes_of_bits_bytes)
  then show ?thesis using k h by (simp add: otp_helper_def otp_code_def c)
qed

theorem otp_page_consistent_witness:
  "\<exists>key view. encode_secret (U ''DJmQfC73VGFhw7D4QJ8A'') = Inr key
    \<and> otp_helper (U ''DJmQfC73VGFhw7D4QJ8A'') 59 = Inr view
    \<and> b32decode (otp_secret_base32 view) = Some key
    \<and> hotp key (\<lfloor>59 :: rat\<rfloor> div 30) = Inr (otp_shown view)
    \<and> otp_code (U ''DJmQfC73VGFhw7D4QJ8A'') 59 = JsonBody 200 (JObj [(U ''code'', JStr (otp_shown view)),
         (U ''remaining'', JInt (otp_remaining view))])"
proof (rule otp_page_consistent)
  show "utf8_ok (U ''DJmQfC73VGFhw7D4QJ8A'')" by (simp add: U_def utf8_ok_def is_surrogate_def)
qed simp_all

end
