(* ===== verification/Client_Settings.thy ===== *)
theory Client_Settings
  imports Otp_Pages
begin

text \<open>
  The settings of the test client (test-client/app.py): the module constants read from the
  environment and what \<open>create_app\<close> hands to Flask and to Authlib. The environment is a dict.

  Proved: which callback address a deployment uses.
\<close>

definition getenv :: "(ustr, ustr) dict \<Rightarrow> string \<Rightarrow> string \<Rightarrow> ustr" where
  "getenv environ name dflt = (case map_of environ (U name) of None \<Rightarrow> U dflt | Some v \<Rightarrow> v)"

text \<open>\<open>ISSUER\<close>, \<open>SMTP4DEV_URL\<close> and \<open>PUBLIC_URL\<close>; \<open>external\<close> is the address Flask derives from the request.\<close>

definition settings :: "(ustr, ustr) dict \<Rightarrow> ustr \<Rightarrow> config" where
  "settings environ external =
     \<lparr>issuer = getenv environ ''OIDC_ISSUER'' ''http://keycloak.localhost:8080/realms/oidc4ac'',
      smtp4dev_url = getenv environ ''SMTP4DEV_URL'' ''http://localhost:5080'',
      public_url = rstrip_slash (getenv environ ''OIDC4AC_PUBLIC_URL'' ''''),
      external_callback = external\<rparr>"

definition TOTP_SECRET :: "(ustr, ustr) dict \<Rightarrow> ustr" where
  "TOTP_SECRET environ = getenv environ ''OIDC4AC_TOTP_SECRET'' ''DJmQfC73VGFhw7D4QJ8A''"

text \<open>
  \<open>s.lower() == "true"\<close>: no character outside ASCII has a letter of this word as its lower case.
\<close>

definition lower_ascii :: "nat \<Rightarrow> nat" where
  "lower_ascii c = (if 65 \<le> c \<and> c \<le> 90 then c + 32 else c)"

record flask_config =
  SECRET_KEY :: ustr
  SESSION_COOKIE_SECURE :: bool

definition flask_settings :: "(ustr, ustr) dict \<Rightarrow> flask_config" where
  "flask_settings environ =
     \<lparr>SECRET_KEY = getenv environ ''FLASK_SECRET_KEY'' ''local-development-only-change-me'',
      SESSION_COOKIE_SECURE = (map lower_ascii (getenv environ ''OIDC4AC_PUBLIC_HTTPS'' ''false'') = U ''true'')\<rparr>"

text \<open>The arguments of \<open>oauth.register\<close>.\<close>

record registration =
  registered_name :: ustr
  client_id :: ustr
  client_secret :: ustr
  server_metadata_url :: ustr
  client_scope :: ustr

definition oauth_registration :: "(ustr, ustr) dict \<Rightarrow> registration" where
  "oauth_registration environ =
     \<lparr>registered_name = U ''keycloak'',
      client_id = getenv environ ''OIDC_CLIENT_ID'' ''oidc4ac-test-client'',
      client_secret = getenv environ ''OIDC_CLIENT_SECRET'' ''oidc4ac-lab-client-secret'',
      server_metadata_url = issuer (settings environ []) @ U ''/.well-known/openid-configuration'',
      client_scope = U ''openid profile email''\<rparr>"

section \<open>Properties\<close>

lemma rstrip_slash_replicate: "base = [] \<or> last base \<noteq> 47 \<Longrightarrow> rstrip_slash (base @ replicate n 47) = base"
proof -
  assume b: "base = [] \<or> last base \<noteq> 47"
  have "dropWhile (\<lambda>c. c = 47) (replicate n 47 @ xs) = dropWhile (\<lambda>c. c = 47) xs" for xs :: ustr
    by (induction n) simp_all
  moreover have "dropWhile (\<lambda>c. c = 47) (rev base) = rev base"
    using b by (cases base rule: rev_cases) simp_all
  ultimately show ?thesis by (simp add: rstrip_slash_def)
qed

text \<open>The callback address of a deployment behind a proxy. Where
  OIDC4AC_PUBLIC_URL is set to more than slashes, every login uses that address without its
  trailing slashes and with \<open>/callback\<close> once; where it is unset, empty or only slashes the
  address is the one Flask derives from the request. Every value of the variable is covered: it
  is a base not ending in a slash followed by slashes.\<close>

theorem public_callback:
  assumes "map_of environ (U ''OIDC4AC_PUBLIC_URL'') = None \<and> base = []
    \<or> map_of environ (U ''OIDC4AC_PUBLIC_URL'') = Some (base @ replicate n 47)"
    and "base = [] \<or> last base \<noteq> 47"
  shows "callback_url (settings environ external) = (if base = [] then external else base @ U ''/callback'')"
proof -
  have "rstrip_slash (U '''') = []" by (simp add: rstrip_slash_def U_def)
  then have "public_url (settings environ external) = base"
    using assms(1) rstrip_slash_replicate [OF assms(2)] by (auto simp: settings_def getenv_def)
  then show ?thesis by (simp add: callback_url_def settings_def)
qed

theorem public_callback_witness:
  "callback_url (settings [(U ''OIDC4AC_PUBLIC_URL'', U ''https://rp'' @ [47, 47])] (U ''http://x''))
     = U ''https://rp'' @ U ''/callback''"
proof -
  have "U ''https://rp'' \<noteq> []" "last (U ''https://rp'') \<noteq> 47" by (simp_all add: U_def)
  then show ?thesis
    using public_callback [of "[(U ''OIDC4AC_PUBLIC_URL'', U ''https://rp'' @ [47, 47])]" "U ''https://rp''" 2 "U ''http://x''"]
    by (simp add: numeral_2_eq_2)
qed

end
