(* ===== verification/E2E_Results.thy ===== *)
theory E2E_Results
  imports Py_Json_Text "HOL-Library.Multiset"
begin

text \<open>
  What the HTTP end-to-end runner reads and asserts (e2e/http/run.py): the \<open>AuthorizationResult\<close>
  of a flow with \<open>json_section\<close>, \<open>error\<close>, \<open>require_success\<close> and \<open>require_error\<close>, the request
  builders \<open>method\<close> and \<open>claims\<close>, and the checks \<open>detail_map\<close>, \<open>detail_list\<close> and
  \<open>assert_complete_event\<close> on the authentication details of a token. \<open>html.unescape\<close> is an argument.

  Proved: exactly which tokens the detail checks accept and what they return, and that two accepted tokens tell of the same
  event.
\<close>

section \<open>Text search\<close>

text \<open>The text after the first occurrence of a pattern, and the text before it.\<close>

fun after :: "ustr \<Rightarrow> ustr \<Rightarrow> ustr option" where
  "after pat [] = (if pat = [] then Some [] else None)"
| "after pat (c # s) = (if startswith (c # s) pat then Some (drop (length pat) (c # s)) else after pat s)"

fun before :: "ustr \<Rightarrow> ustr \<Rightarrow> ustr option" where
  "before pat [] = (if pat = [] then Some [] else None)"
| "before pat (c # s) = (if startswith (c # s) pat then Some [] else map_option (Cons c) (before pat s))"

definition contains :: "ustr \<Rightarrow> ustr \<Rightarrow> bool" where
  "contains s pat \<longleftrightarrow> after pat s \<noteq> None"

section \<open>Results of a flow\<close>

text \<open>
  Why a check failed: the constructors of \<open>check_failure\<close> stand for the messages of
  \<open>CheckFailure\<close>, with the data they print. \<open>Raised\<close> is an exception of another class.
\<close>

datatype check_failure = NoSection ustr | NotJson ustr json_msg nat | PublicError ustr | NoResult
  | WrongError ustr "ustr option" | NoDetails | NotAnObject | NoIdentifier | Duplicate ustr | NoTime ustr
  | WrongExecutions "ustr list" | WrongAmr json | DifferentSnapshot ustr

datatype run_exc = CheckFailure check_failure | RaisedJson json_exc | RaisedAttributeError | RaisedTypeError
  | RaisedKeyError

text \<open>The \<open>response.text\<close> and the submitted forms; the session is part of the driver's state.\<close>

record authorization_result =
  result_text :: ustr
  result_forms :: "ustr list"

text \<open>
  The two regular expressions, both with DOTALL and lazy groups: the first occurrence of what
  stands before a group, then the shortest group.
\<close>

definition section_text :: "ustr \<Rightarrow> ustr \<Rightarrow> ustr option" where
  "section_text heading page =
     Option.bind (after (U ''<h2>'' @ heading @ U ''</h2><pre>'') page) (before (U ''</pre>''))"

definition json_section ::
  "py_env \<Rightarrow> (ustr \<Rightarrow> ustr) \<Rightarrow> ustr \<Rightarrow> authorization_result \<Rightarrow> run_exc + json" where
  "json_section env unescape heading r =
     (case section_text heading (result_text r) of
        None \<Rightarrow> Inl (CheckFailure (NoSection heading))
      | Some t \<Rightarrow>
          (case loads env (unescape t) of
             Inr v \<Rightarrow> Inr v
           | Inl (JSONDecodeError m p) \<Rightarrow> Inl (CheckFailure (NotJson heading m p))
           | Inl e \<Rightarrow> Inl (RaisedJson e)))"

definition public_error :: "(ustr \<Rightarrow> ustr) \<Rightarrow> authorization_result \<Rightarrow> ustr option" where
  "public_error unescape r =
     map_option (\<lambda>t. strip (unescape t))
       (Option.bind (after (U ''<section class=\"error-page\">'') (result_text r)) (\<lambda>s.
        Option.bind (after (U ''<h1>'') s) (before (U ''</h1>''))))"

definition require_success ::
  "(ustr \<Rightarrow> ustr) \<Rightarrow> authorization_result \<Rightarrow> run_exc + authorization_result" where
  "require_success unescape r =
     (case public_error unescape r of
        Some e \<Rightarrow> Inl (CheckFailure (PublicError e))
      | None \<Rightarrow>
          (if contains (result_text r) (U ''Verified authentication context'') then Inr r
           else Inl (CheckFailure NoResult)))"

definition require_error ::
  "(ustr \<Rightarrow> ustr) \<Rightarrow> ustr \<Rightarrow> authorization_result \<Rightarrow> run_exc + authorization_result" where
  "require_error unescape expected r =
     (if public_error unescape r = Some expected then Inr r
      else Inl (CheckFailure (WrongError expected (public_error unescape r))))"

definition check :: "bool \<Rightarrow> check_failure \<Rightarrow> run_exc + unit" where
  "check condition f = (if condition then Inr () else Inl (CheckFailure f))"

section \<open>Request builders\<close>

definition amr_method :: "ustr \<Rightarrow> (ustr, json) dict option \<Rightarrow> int option \<Rightarrow> (ustr, json) dict" where
  "amr_method identifier properties max_age =
     (let time_constraint = [(U ''essential'', JBool True)]
            @ (case max_age of None \<Rightarrow> [] | Some n \<Rightarrow> [(U ''max_age'', JInt n)]);
          result = [(U ''amr_identifier'', JObj [(U ''value'', JStr identifier)]),
                    (U ''amr_metadata'', JObj [(U ''time'', JObj time_constraint)])] in
      (case properties of
         None \<Rightarrow> result
       | Some p \<Rightarrow> if p = [] then result else result @ [(U ''amr_properties'', JObj p)]))"

text \<open>\<open>{"essential": essential, **expression}\<close>: later members replace earlier ones in place.\<close>

definition spread :: "(ustr, json) dict \<Rightarrow> (ustr, json) dict \<Rightarrow> (ustr, json) dict" where
  "spread d expression = fold (\<lambda>(k, v). AList.update k v) expression d"

definition claims :: "(ustr, json) dict \<Rightarrow> bool \<Rightarrow> bool \<Rightarrow> bool \<Rightarrow> (ustr, json) dict" where
  "claims expression id_token userinfo essential =
     (let request = spread [(U ''essential'', JBool essential)] expression in
      (if id_token then [(U ''id_token'', JObj [(U ''amr_details'', JObj request)])] else [])
      @ (if userinfo then [(U ''userinfo'', JObj [(U ''amr_details'', JObj request)])] else []))"

section \<open>Authentication details\<close>

definition text_member :: "(ustr, json) dict \<Rightarrow> ustr \<Rightarrow> ustr option" where
  "text_member d k = (case map_of d k of Some (JStr s) \<Rightarrow> Some s | _ \<Rightarrow> None)"

text \<open>\<open>detail["amr_metadata"]["time"]\<close> when it is text.\<close>

definition detail_time :: "(ustr, json) dict \<Rightarrow> ustr option" where
  "detail_time detail =
     (case map_of detail (U ''amr_metadata'') of Some (JObj m) \<Rightarrow> text_member m (U ''time'') | _ \<Rightarrow> None)"

fun map_details :: "json list \<Rightarrow> (ustr, (ustr, json) dict) dict \<Rightarrow> run_exc + (ustr, (ustr, json) dict) dict" where
  "map_details [] mapped = Inr mapped"
| "map_details (d # details) mapped =
     (case d of
        JObj detail \<Rightarrow>
          (case text_member detail (U ''amr_identifier'') of
             None \<Rightarrow> Inl (CheckFailure NoIdentifier)
           | Some identifier \<Rightarrow>
               rbind (check (map_of mapped identifier = None) (Duplicate identifier)) (\<lambda>_.
               rbind (check (detail_time detail \<noteq> None) (NoTime identifier)) (\<lambda>_.
                 map_details details (AList.update identifier detail mapped))))
      | _ \<Rightarrow> Inl (CheckFailure NotAnObject))"

text \<open>\<open>token.get\<close> on what is no object raises \<open>AttributeError\<close>.\<close>

definition details_of :: "json \<Rightarrow> run_exc + json list" where
  "details_of token =
     (case token of
        JObj t \<Rightarrow> (case map_of t (U ''amr_details'') of Some (JArr ds) \<Rightarrow> Inr ds | _ \<Rightarrow> Inl (CheckFailure NoDetails))
      | _ \<Rightarrow> Inl RaisedAttributeError)"

definition detail_map :: "json \<Rightarrow> run_exc + (ustr, (ustr, json) dict) dict" where
  "detail_map token = rbind (details_of token) (\<lambda>details. map_details details [])"

fun check_details :: "json list \<Rightarrow> run_exc + unit" where
  "check_details [] = Inr ()"
| "check_details (d # details) =
     (case d of
        JObj detail \<Rightarrow>
          (case text_member detail (U ''amr_identifier'') of
             None \<Rightarrow> Inl (CheckFailure NoIdentifier)
           | Some identifier \<Rightarrow>
               rbind (check (detail_time detail \<noteq> None) (NoTime identifier)) (\<lambda>_. check_details details))
      | _ \<Rightarrow> Inl (CheckFailure NotAnObject))"

definition detail_list :: "json \<Rightarrow> run_exc + json list" where
  "detail_list token = rbind (details_of token) (\<lambda>details. rbind (check_details details) (\<lambda>_. Inr details))"

text \<open>
  \<open>set(amr) == expected\<close>: arrays and objects are not hashable. \<open>expected\<close> is a set of texts, given
  here as a list without repetitions in the order the loop visits it.
\<close>

definition hashable :: "json \<Rightarrow> bool" where
  "hashable v = (case v of JArr _ \<Rightarrow> False | JObj _ \<Rightarrow> False | _ \<Rightarrow> True)"

definition check_amr :: "json \<Rightarrow> ustr list \<Rightarrow> run_exc + unit" where
  "check_amr amr expected =
     (case amr of
        JArr vs \<Rightarrow>
          (if \<exists>v \<in> set vs. \<not> hashable v then Inl RaisedTypeError
           else check (set vs = JStr ` set expected) (WrongAmr amr))
      | _ \<Rightarrow> Inl (CheckFailure (WrongAmr amr)))"

fun check_snapshot ::
  "(ustr, (ustr, json) dict) dict \<Rightarrow> (ustr, (ustr, json) dict) dict \<Rightarrow> ustr list \<Rightarrow> run_exc + unit" where
  "check_snapshot a b [] = Inr ()"
| "check_snapshot a b (i # expected) =
     (case (Option.bind (map_of a i) detail_time, Option.bind (map_of b i) detail_time) of
        (Some s, Some t) \<Rightarrow> rbind (check (s = t) (DifferentSnapshot i)) (\<lambda>_. check_snapshot a b expected)
      | _ \<Rightarrow> Inl RaisedKeyError)"

definition assert_complete_event ::
  "json \<Rightarrow> json \<Rightarrow> ustr list \<Rightarrow> run_exc + ((ustr, (ustr, json) dict) dict \<times> (ustr, (ustr, json) dict) dict)" where
  "assert_complete_event id_token userinfo expected =
     rbind (detail_map id_token) (\<lambda>id_details.
     rbind (detail_map userinfo) (\<lambda>userinfo_details.
     rbind (check (set (map fst id_details) = set expected) (WrongExecutions (map fst id_details))) (\<lambda>_.
     rbind (check (set (map fst userinfo_details) = set expected) (WrongExecutions (map fst userinfo_details))) (\<lambda>_.
     rbind (check_amr (case id_token of JObj t \<Rightarrow> (case map_of t (U ''amr'') of Some v \<Rightarrow> v | None \<Rightarrow> JNull) | _ \<Rightarrow> JNull)
              expected) (\<lambda>_.
     rbind (check_snapshot id_details userinfo_details expected) (\<lambda>_.
       Inr (id_details, userinfo_details)))))))"

section \<open>Lemmas\<close>

lemma startswith_append [simp]: "startswith (pat @ s) pat"
  by (simp add: startswith_iff)

lemma after_Some: "after pat s = Some t \<Longrightarrow> \<exists>a. s = a @ pat @ t"
proof (induction s)
  case (Cons c s)
  show ?case
  proof (cases "startswith (c # s) pat")
    case True
    then obtain u where "c # s = pat @ u" by (auto simp: startswith_iff)
    moreover have "t = drop (length pat) (c # s)" using Cons.prems True by simp
    ultimately show ?thesis by (intro exI [of _ "[]"]) simp
  next
    case False
    with Cons show ?thesis by (metis after.simps(2) append_Cons)
  qed
qed (simp split: if_splits)

lemma contains_middle: "contains (a @ pat @ b) pat"
proof (induction a)
  case Nil
  have "startswith (pat @ b) pat" by simp
  then show ?case by (cases "pat @ b") (auto simp: contains_def)
next
  case (Cons c a)
  then show ?case by (auto simp: contains_def)
qed

lemma contains_iff: "contains s pat \<longleftrightarrow> (\<exists>a b. s = a @ pat @ b)"
  using after_Some contains_middle by (fastforce simp: contains_def)

lemma contains_append: "contains s pat \<Longrightarrow> contains (a @ s) pat" "contains s pat \<Longrightarrow> contains (s @ b) pat"
  unfolding contains_iff by (metis append_assoc)+

definition identifier_of :: "(ustr, json) dict \<Rightarrow> ustr" where
  "identifier_of d = (case text_member d (U ''amr_identifier'') of Some i \<Rightarrow> i | None \<Rightarrow> [])"

text \<open>An execution as the runner wants it: a text identifier and a text time.\<close>

definition execution_ok :: "(ustr, json) dict \<Rightarrow> bool" where
  "execution_ok d \<longleftrightarrow> text_member d (U ''amr_identifier'') \<noteq> None \<and> detail_time d \<noteq> None"

lemma check_Inr [simp]: "check b f = Inr () \<longleftrightarrow> b" "check b f = Inl e \<longleftrightarrow> \<not> b \<and> e = CheckFailure f"
  by (auto simp: check_def)

lemma rbind_check [simp]: "rbind (check b f) g = (if b then g () else Inl (CheckFailure f))"
  by (simp add: check_def)

lemma update_new_key: "map_of d k = None \<Longrightarrow> AList.update k v d = d @ [(k, v)]"
  by (induction d) (auto split: if_splits)

lemma map_details_Inr:
  "map_details ds mapped = Inr m \<longleftrightarrow>
     (\<exists>details. ds = map JObj details \<and> (\<forall>d \<in> set details. execution_ok d)
        \<and> distinct (map identifier_of details) \<and> (\<forall>d \<in> set details. map_of mapped (identifier_of d) = None)
        \<and> m = mapped @ map (\<lambda>d. (identifier_of d, d)) details)"
proof (induction ds mapped rule: map_details.induct)
  case (1 mapped)
  show ?case by auto
next
  case (2 v ds mapped)
  show ?case
  proof (cases v)
    case (JObj d)
    show ?thesis
    proof (cases "execution_ok d \<and> map_of mapped (identifier_of d) = None")
      case True
      then obtain i where i: "text_member d (U ''amr_identifier'') = Some i" "detail_time d \<noteq> None" "identifier_of d = i"
        by (auto simp: execution_ok_def identifier_of_def)
      have n: "map_of mapped i = None" using True i(3) by simp
      have e: "map_details (v # ds) mapped = map_details ds (mapped @ [(i, d)])"
        using JObj i n by (simp add: update_new_key)
      have ih: "map_details ds (mapped @ [(i, d)]) = Inr m \<longleftrightarrow>
        (\<exists>details. ds = map JObj details \<and> (\<forall>x \<in> set details. execution_ok x)
          \<and> distinct (map identifier_of details) \<and> (\<forall>x \<in> set details. map_of (mapped @ [(i, d)]) (identifier_of x) = None)
          \<and> m = (mapped @ [(i, d)]) @ map (\<lambda>x. (identifier_of x, x)) details)"
        using "2" [OF JObj i(1), of "()" "()"] i n by (simp add: update_new_key)
      show ?thesis
        unfolding e ih
      proof (intro iffI; elim exE conjE)
        fix details
        assume a: "ds = map JObj details" "\<forall>x \<in> set details. execution_ok x" "distinct (map identifier_of details)"
          "\<forall>x \<in> set details. map_of (mapped @ [(i, d)]) (identifier_of x) = None"
          "m = (mapped @ [(i, d)]) @ map (\<lambda>x. (identifier_of x, x)) details"
        then show "\<exists>details. v # ds = map JObj details \<and> (\<forall>d \<in> set details. execution_ok d)
          \<and> distinct (map identifier_of details) \<and> (\<forall>d \<in> set details. map_of mapped (identifier_of d) = None)
          \<and> m = mapped @ map (\<lambda>d. (identifier_of d, d)) details"
          using True JObj i(3) by (intro exI [of _ "d # details"]) (auto split: if_splits option.splits)
      next
        fix details
        assume a: "v # ds = map JObj details" "\<forall>d \<in> set details. execution_ok d" "distinct (map identifier_of details)"
          "\<forall>d \<in> set details. map_of mapped (identifier_of d) = None"
          "m = mapped @ map (\<lambda>d. (identifier_of d, d)) details"
        then obtain rest where r: "details = d # rest" "ds = map JObj rest" using JObj by (cases details) auto
        with a i(3) show "\<exists>details. ds = map JObj details \<and> (\<forall>x \<in> set details. execution_ok x)
          \<and> distinct (map identifier_of details)
          \<and> (\<forall>x \<in> set details. map_of (mapped @ [(i, d)]) (identifier_of x) = None)
          \<and> m = (mapped @ [(i, d)]) @ map (\<lambda>x. (identifier_of x, x)) details"
          by (intro exI [of _ rest]) (auto simp: map_add_def image_iff)
      qed
    next
      case False
      then have "map_details (v # ds) mapped \<noteq> Inr m"
        using JObj by (auto simp: execution_ok_def identifier_of_def split: option.splits)
      moreover have "\<not> (\<exists>details. v # ds = map JObj details \<and> (\<forall>d \<in> set details. execution_ok d)
          \<and> (\<forall>d \<in> set details. map_of mapped (identifier_of d) = None))"
        using False JObj by auto
      ultimately show ?thesis by (metis (no_types, lifting))
    qed
  qed auto
qed

lemma details_of_Inr:
  "details_of token = Inr ds \<longleftrightarrow> (\<exists>t. token = JObj t \<and> map_of t (U ''amr_details'') = Some (JArr ds))"
  by (auto simp: details_of_def split: json.splits option.splits)

lemma detail_map_Inr:
  "detail_map token = Inr m \<longleftrightarrow>
     (\<exists>t details. token = JObj t \<and> map_of t (U ''amr_details'') = Some (JArr (map JObj details))
        \<and> (\<forall>d \<in> set details. execution_ok d) \<and> distinct (map identifier_of details)
        \<and> m = map (\<lambda>d. (identifier_of d, d)) details)"
  by (auto simp: detail_map_def rbind_eq_Inr details_of_Inr map_details_Inr)

lemma check_details_Inr:
  "check_details ds = Inr () \<longleftrightarrow> (\<exists>details. ds = map JObj details \<and> (\<forall>d \<in> set details. execution_ok d))"
proof (induction ds)
  case (Cons v ds)
  show ?case
  proof (cases v)
    case (JObj d)
    then have "check_details (v # ds) = Inr () \<longleftrightarrow> execution_ok d \<and> check_details ds = Inr ()"
      by (auto simp: execution_ok_def split: option.splits)
    also have "\<dots> \<longleftrightarrow> (\<exists>details. v # ds = map JObj details \<and> (\<forall>d \<in> set details. execution_ok d))"
    proof
      assume "execution_ok d \<and> check_details ds = Inr ()"
      then obtain details where "ds = map JObj details" "\<forall>d \<in> set details. execution_ok d" "execution_ok d"
        unfolding Cons.IH by blast
      with JObj show "\<exists>details. v # ds = map JObj details \<and> (\<forall>d \<in> set details. execution_ok d)"
        by (intro exI [of _ "d # details"]) simp
    qed (auto simp: Cons.IH JObj Cons_eq_map_conv)
    finally show ?thesis .
  qed auto
qed simp

lemma check_amr_Inr:
  "check_amr amr expected = Inr () \<longleftrightarrow> (\<exists>vs. amr = JArr vs \<and> set vs = JStr ` set expected)"
  by (auto simp: check_amr_def hashable_def split: json.splits)

lemma check_snapshot_Inr:
  "check_snapshot a b expected = Inr () \<longleftrightarrow>
     (\<forall>i \<in> set expected. \<exists>s. Option.bind (map_of a i) detail_time = Some s \<and> Option.bind (map_of b i) detail_time = Some s)"
  by (induction expected) (auto split: option.splits)

section \<open>Properties\<close>

text \<open>The runner's view of the details of a token. \<open>detail_map\<close> succeeds exactly
  for a token whose \<open>amr_details\<close> is an array of executions with a text identifier and a text
  time, no identifier twice, and returns them under their identifiers, in order; and then
  \<open>detail_list\<close> returns the same executions. A token that only \<open>detail_list\<close> accepts repeats an
  identifier.\<close>

theorem detail_map_accepts:
  "(detail_map token = Inr m \<longleftrightarrow>
     (\<exists>t details. token = JObj t \<and> map_of t (U ''amr_details'') = Some (JArr (map JObj details))
        \<and> (\<forall>d \<in> set details. execution_ok d) \<and> distinct (map identifier_of details)
        \<and> m = map (\<lambda>d. (identifier_of d, d)) details))
   \<and> (detail_map token = Inr m \<longrightarrow> dict_ok m \<and> detail_list token = Inr (map (\<lambda>kv. JObj (snd kv)) m))
   \<and> (\<forall>ds. detail_list token = Inr ds \<longrightarrow> (\<forall>m. detail_map token \<noteq> Inr m) \<longrightarrow>
        (\<exists>details. ds = map JObj details \<and> \<not> distinct (map identifier_of details)))"
proof (intro conjI allI impI)
  show "detail_map token = Inr m \<longleftrightarrow>
     (\<exists>t details. token = JObj t \<and> map_of t (U ''amr_details'') = Some (JArr (map JObj details))
        \<and> (\<forall>d \<in> set details. execution_ok d) \<and> distinct (map identifier_of details)
        \<and> m = map (\<lambda>d. (identifier_of d, d)) details)" by (rule detail_map_Inr)
next
  assume "detail_map token = Inr m"
  then obtain t details where d: "token = JObj t" "map_of t (U ''amr_details'') = Some (JArr (map JObj details))"
    "\<forall>d \<in> set details. execution_ok d" "distinct (map identifier_of details)"
    "m = map (\<lambda>d. (identifier_of d, d)) details" unfolding detail_map_Inr by blast
  show "dict_ok m" using d(4,5) by (simp add: dict_ok_def comp_def)
  have "check_details (map JObj details) = Inr ()" using d(3) by (auto simp: check_details_Inr)
  then show "detail_list token = Inr (map (\<lambda>kv. JObj (snd kv)) m)"
    using d(1,2,5) by (simp add: detail_list_def details_of_def comp_def)
next
  fix ds assume l: "detail_list token = Inr ds" and n: "\<forall>m. detail_map token \<noteq> Inr m"
  from l obtain t where t: "token = JObj t" "map_of t (U ''amr_details'') = Some (JArr ds)" "check_details ds = Inr ()"
    by (auto simp: detail_list_def rbind_eq_Inr details_of_Inr)
  then obtain details where d: "ds = map JObj details" "\<forall>d \<in> set details. execution_ok d"
    by (auto simp: check_details_Inr)
  with n t show "\<exists>details. ds = map JObj details \<and> \<not> distinct (map identifier_of details)"
    unfolding detail_map_Inr by blast
qed

theorem detail_map_accepts_witness:
  "detail_list (JObj [(U ''amr_details'', JArr [])]) = Inr (map (\<lambda>kv. JObj (snd kv)) ([] :: (ustr, (ustr, json) dict) dict))"
  by (rule detail_map_accepts [THEN conjunct2, THEN conjunct1, rule_format, THEN conjunct2])
     (simp add: detail_map_def details_of_def)

text \<open>The guards of \<open>assert_complete_event\<close> over the maps of the two tokens.\<close>

lemma assert_complete_event_Inr:
  "assert_complete_event id_token userinfo expected = Inr (a, b) \<longleftrightarrow>
     detail_map id_token = Inr a \<and> detail_map userinfo = Inr b
     \<and> set (map fst a) = set expected \<and> set (map fst b) = set expected
     \<and> (\<exists>t vs. id_token = JObj t \<and> map_of t (U ''amr'') = Some (JArr vs) \<and> set vs = JStr ` set expected)
     \<and> (\<forall>i \<in> set expected. \<exists>s. Option.bind (map_of a i) detail_time = Some s
          \<and> Option.bind (map_of b i) detail_time = Some s)"
proof -
  have amr: "(\<exists>vs. (case id_token of JObj t \<Rightarrow> (case map_of t (U ''amr'') of Some v \<Rightarrow> v | None \<Rightarrow> JNull) | _ \<Rightarrow> JNull) = JArr vs \<and> P vs)
      \<longleftrightarrow> (\<exists>t vs. id_token = JObj t \<and> map_of t (U ''amr'') = Some (JArr vs) \<and> P vs)" for P
    by (auto split: json.splits option.splits)
  show ?thesis
    unfolding assert_complete_event_def
    by (auto simp: rbind_eq_Inr check_amr_Inr check_snapshot_Inr amr)
qed

text \<open>An event as a token tells it: what was executed, and when.\<close>

definition told_event :: "(ustr, json) dict list \<Rightarrow> (ustr \<times> ustr option) multiset" where
  "told_event details = mset (map (\<lambda>d. (identifier_of d, detail_time d)) details)"

definition keyed :: "(ustr, json) dict list \<Rightarrow> (ustr, (ustr, json) dict) dict" where
  "keyed details = map (\<lambda>d. (identifier_of d, d)) details"

lemma keyed_member: "distinct (map identifier_of ds) \<Longrightarrow> d \<in> set ds \<Longrightarrow> map_of (keyed ds) (identifier_of d) = Some d"
  unfolding keyed_def by (rule map_of_is_SomeI) (auto simp: comp_def)

lemma keyed_fst: "map fst (keyed ds) = map identifier_of ds"
  by (simp add: keyed_def comp_def)

text \<open>Two lists without a repeated identifier tell the same event if they have the same identifiers, each with the
  same time.\<close>

lemma told_event_eq:
  assumes "distinct (map identifier_of ds)" "distinct (map identifier_of es)"
  shows "told_event ds = told_event es \<longleftrightarrow> identifier_of ` set ds = identifier_of ` set es
     \<and> (\<forall>i \<in> identifier_of ` set ds. Option.bind (map_of (keyed ds) i) detail_time = Option.bind (map_of (keyed es) i) detail_time)"
    (is "?same \<longleftrightarrow> ?each")
proof -
  let ?p = "\<lambda>d. (identifier_of d, detail_time d)"
  have "distinct (map ?p ds)" "distinct (map ?p es)"
    using assms by (auto simp: distinct_map inj_on_def)
  note s = set_eq_iff_mset_eq_distinct [OF this, symmetric, folded told_event_def, unfolded set_map]
  have e: "map_of (keyed xs) (identifier_of d) = Some d" if "xs = ds \<or> xs = es" "d \<in> set xs" for xs d
    using that assms keyed_member by auto
  show ?thesis
  proof
    assume "?same"
    then have p: "?p ` set ds = ?p ` set es" using s by blast
    have "fst ` ?p ` set ds = fst ` ?p ` set es" by (simp only: p)
    then have i: "identifier_of ` set ds = identifier_of ` set es" by (simp add: image_image)
    have t: "detail_time d = Option.bind (map_of (keyed es) (identifier_of d)) detail_time" if "d \<in> set ds" for d
    proof -
      from that p obtain d' where "d' \<in> set es" "?p d = ?p d'" by blast
      with e [of es d'] show ?thesis by simp
    qed
    have "Option.bind (map_of (keyed ds) i) detail_time = Option.bind (map_of (keyed es) i) detail_time"
      if "i \<in> identifier_of ` set ds" for i using that t e [of ds] by auto
    with i show ?each by blast
  next
    assume each: ?each
    have "?p ` set xs \<subseteq> ?p ` set ys" if "xs = ds \<and> ys = es \<or> xs = es \<and> ys = ds" for xs ys
    proof
      fix x assume "x \<in> ?p ` set xs"
      then obtain d where d: "d \<in> set xs" "x = ?p d" by blast
      let ?T = "\<lambda>xs i. Option.bind (map_of (keyed xs) i) detail_time"
      from each have i: "identifier_of ` set ds = identifier_of ` set es" and b: "\<And>i. i \<in> identifier_of ` set ds \<Longrightarrow> ?T ds i = ?T es i"
        by blast+
      have "identifier_of ` set xs = identifier_of ` set ys" "identifier_of ` set xs = identifier_of ` set ds" using that i by auto
      with d(1) have m: "identifier_of d \<in> identifier_of ` set ys" "identifier_of d \<in> identifier_of ` set ds" by blast+
      then obtain d' where d': "d' \<in> set ys" "identifier_of d = identifier_of d'" by blast
      have "?T xs (identifier_of d) = ?T ys (identifier_of d)" using b [OF m(2)] that by (elim disjE conjE) simp_all
      moreover have "map_of (keyed xs) (identifier_of d) = Some d" "map_of (keyed ys) (identifier_of d) = Some d'"
        using e [of xs d] e [of ys d'] d(1) d' that by auto
      ultimately have "detail_time d' = detail_time d" by simp
      with d d' show "x \<in> ?p ` set ys" by force
    qed
    from this [of ds es] this [of es ds] show ?same unfolding s by simp
  qed
qed

text \<open>Every one of a set of identifiers, once.\<close>

definition each_once :: "(ustr, json) dict list \<Rightarrow> ustr set \<Rightarrow> bool" where
  "each_once ds ids \<longleftrightarrow> distinct (map identifier_of ds) \<and> identifier_of ` set ds = ids"

lemma each_once_iff: "finite ids \<Longrightarrow> image_mset identifier_of (mset ds) = mset_set ids \<longleftrightarrow> each_once ds ids"
proof
  assume f: "finite ids" and m: "image_mset identifier_of (mset ds) = mset_set ids"
  obtain xs where x: "set xs = ids" "distinct xs" using finite_distinct_list [OF f] by blast
  then have "mset (map identifier_of ds) = mset xs" using m mset_set_set by auto
  then show "each_once ds ids"
    using x mset_eq_imp_distinct_iff mset_eq_setD unfolding each_once_def by (metis set_map)
next
  assume "each_once ds ids"
  then show "image_mset identifier_of (mset ds) = mset_set ids"
    unfolding each_once_def using mset_set_set [of "map identifier_of ds"] by simp
qed

lemma each_once_told:
  assumes "told_event es = told_event ds" "each_once ds ids"
  shows "each_once es ids"
proof -
  have "image_mset fst (told_event xs) = image_mset identifier_of (mset xs)" for xs
    by (simp add: told_event_def image_mset.compositionality comp_def)
  moreover have "finite ids" using assms(2) by (auto simp: each_once_def)
  ultimately show ?thesis using assms each_once_iff by metis
qed

lemma keyed_times: "\<forall>d \<in> set ds. execution_ok d \<Longrightarrow> each_once ds ids \<Longrightarrow> i \<in> ids \<Longrightarrow>
    Option.bind (map_of (keyed ds) i) detail_time \<noteq> None"
  by (auto simp: each_once_def keyed_member execution_ok_def)

lemma detail_map_times: "detail_map token = Inr m \<Longrightarrow> i \<in> set (map fst m) \<Longrightarrow> Option.bind (map_of m i) detail_time \<noteq> None"
proof -
  assume "detail_map token = Inr m" and i: "i \<in> set (map fst m)"
  then obtain ds where d: "\<forall>d \<in> set ds. execution_ok d" "distinct (map identifier_of ds)" "m = keyed ds"
    unfolding detail_map_Inr keyed_def by blast
  then have "each_once ds (set (map fst m))" by (simp add: each_once_def keyed_fst flip: set_map)
  from keyed_times [OF d(1) this i] d(3) show ?thesis by simp
qed

lemma check_snapshot_key:
  "\<forall>i \<in> set expected. Option.bind (map_of a i) detail_time \<noteq> None \<and> Option.bind (map_of b i) detail_time \<noteq> None \<Longrightarrow>
     check_snapshot a b expected \<noteq> Inl RaisedKeyError"
  by (induction expected) (auto split: option.splits)

lemma no_key_error: "detail_map t \<noteq> Inl RaisedKeyError"
proof -
  have "map_details ds m \<noteq> Inl RaisedKeyError" for ds m
    by (induction ds m rule: map_details.induct) (auto split: json.splits option.splits)
  then show ?thesis by (auto simp: detail_map_def rbind_eq_Inl details_of_def split: json.splits option.splits)
qed

text \<open>C34: what a passing \<open>assert_complete_event\<close> establishes, and that it asks for
  nothing else. It passes exactly for two objects that list, in \<open>amr_details\<close>, well-formed executions of
  the expected identifiers and no others, each once, and the same event: the same executions with the
  same times, in any order; the standard \<open>amr\<close> claim of the ID Token has exactly these identifiers. Then it returns
  the executions of both under their identifiers. Its look-ups by identifier never raise a \<open>KeyError\<close>.\<close>

theorem complete_event_accepts:
  "(assert_complete_event id_token userinfo expected = Inr (a, b) \<longleftrightarrow>
     (\<exists>t u ds es vs. id_token = JObj t \<and> map_of t (U ''amr_details'') = Some (JArr (map JObj ds))
        \<and> userinfo = JObj u \<and> map_of u (U ''amr_details'') = Some (JArr (map JObj es))
        \<and> (\<forall>d \<in> set (ds @ es). execution_ok d)
        \<and> image_mset identifier_of (mset ds) = mset_set (set expected) \<and> told_event es = told_event ds
        \<and> map_of t (U ''amr'') = Some (JArr vs) \<and> set vs = JStr ` set expected
        \<and> a = keyed ds \<and> b = keyed es))
   \<and> assert_complete_event id_token userinfo expected \<noteq> Inl RaisedKeyError"
proof (intro conjI iffI)
  assume "assert_complete_event id_token userinfo expected = Inr (a, b)"
  then obtain t u ds es vs where m: "id_token = JObj t" "map_of t (U ''amr_details'') = Some (JArr (map JObj ds))"
    "\<forall>d \<in> set ds. execution_ok d" "distinct (map identifier_of ds)" "a = keyed ds"
    "userinfo = JObj u" "map_of u (U ''amr_details'') = Some (JArr (map JObj es))"
    "\<forall>d \<in> set es. execution_ok d" "distinct (map identifier_of es)" "b = keyed es"
    "map_of t (U ''amr'') = Some (JArr vs)" "set vs = JStr ` set expected"
    and i: "set (map fst a) = set expected" "set (map fst b) = set expected"
    and s: "\<forall>i \<in> set expected. \<exists>s. Option.bind (map_of a i) detail_time = Some s \<and> Option.bind (map_of b i) detail_time = Some s"
    unfolding assert_complete_event_Inr detail_map_Inr keyed_def by blast
  have o: "each_once ds (set expected)" "identifier_of ` set es = set expected"
    using i m(4) unfolding each_once_def m(5,10) keyed_fst by simp_all
  have "told_event es = told_event ds"
    using s o m(5,10) unfolding told_event_eq [OF m(9,4)] each_once_def by force
  with m o show "\<exists>t u ds es vs. id_token = JObj t \<and> map_of t (U ''amr_details'') = Some (JArr (map JObj ds))
        \<and> userinfo = JObj u \<and> map_of u (U ''amr_details'') = Some (JArr (map JObj es))
        \<and> (\<forall>d \<in> set (ds @ es). execution_ok d)
        \<and> image_mset identifier_of (mset ds) = mset_set (set expected) \<and> told_event es = told_event ds
        \<and> map_of t (U ''amr'') = Some (JArr vs) \<and> set vs = JStr ` set expected
        \<and> a = keyed ds \<and> b = keyed es"
    unfolding each_once_iff [OF finite_set]
    by (intro exI [of _ t] exI [of _ u] exI [of _ ds] exI [of _ es] exI [of _ vs]) auto
next
  assume "\<exists>t u ds es vs. id_token = JObj t \<and> map_of t (U ''amr_details'') = Some (JArr (map JObj ds))
        \<and> userinfo = JObj u \<and> map_of u (U ''amr_details'') = Some (JArr (map JObj es))
        \<and> (\<forall>d \<in> set (ds @ es). execution_ok d)
        \<and> image_mset identifier_of (mset ds) = mset_set (set expected) \<and> told_event es = told_event ds
        \<and> map_of t (U ''amr'') = Some (JArr vs) \<and> set vs = JStr ` set expected
        \<and> a = keyed ds \<and> b = keyed es"
  then obtain t u ds es vs where m: "id_token = JObj t" "map_of t (U ''amr_details'') = Some (JArr (map JObj ds))"
    "userinfo = JObj u" "map_of u (U ''amr_details'') = Some (JArr (map JObj es))"
    "\<forall>d \<in> set ds. execution_ok d" "\<forall>d \<in> set es. execution_ok d"
    "each_once ds (set expected)" "told_event es = told_event ds"
    "map_of t (U ''amr'') = Some (JArr vs)" "set vs = JStr ` set expected" "a = keyed ds" "b = keyed es"
    unfolding each_once_iff [OF finite_set] by auto
  note o = each_once_told [OF m(8,7)]
  have d: "distinct (map identifier_of ds)" "distinct (map identifier_of es)"
    and i: "set (map fst a) = set expected" "set (map fst b) = set expected"
    using m(7) o by (simp_all add: each_once_def m(11,12) keyed_fst)
  have "detail_map id_token = Inr a" "detail_map userinfo = Inr b"
    unfolding detail_map_Inr m(11,12) keyed_def using m(1-6) d by blast+
  moreover have "\<forall>i \<in> set expected. \<exists>s. Option.bind (map_of a i) detail_time = Some s \<and> Option.bind (map_of b i) detail_time = Some s"
    using told_event_eq [OF d(2,1)] m(8) keyed_times [OF m(5,7)] o unfolding m(11,12) each_once_def by force
  ultimately show "assert_complete_event id_token userinfo expected = Inr (a, b)"
    unfolding assert_complete_event_Inr using m(1,9,10) i by blast
next
  show "assert_complete_event id_token userinfo expected \<noteq> Inl RaisedKeyError"
  proof
    assume e: "assert_complete_event id_token userinfo expected = Inl RaisedKeyError"
    have amr: "check_amr v expected \<noteq> Inl RaisedKeyError" for v
      by (simp add: check_amr_def split: json.splits)
    from e amr no_key_error obtain c d where "detail_map id_token = Inr c" "detail_map userinfo = Inr d"
      "set (map fst c) = set expected" "set (map fst d) = set expected" "check_snapshot c d expected = Inl RaisedKeyError"
      unfolding assert_complete_event_def rbind_eq_Inl by (auto split: if_splits)
    with check_snapshot_key detail_map_times show False by metis
  qed
qed

definition sample_execution :: "(ustr, json) dict" where
  "sample_execution = [(U ''amr_identifier'', JStr (U ''pwd'')), (U ''amr_metadata'', JObj [(U ''time'', JStr (U ''t''))])]"

definition sample_event :: json where
  "sample_event = JObj [(U ''amr'', JArr [JStr (U ''pwd'')]), (U ''amr_details'', JArr [JObj sample_execution])]"

lemma sample_event_map: "detail_map sample_event = Inr [(U ''pwd'', sample_execution)]"
  by (simp add: detail_map_def details_of_def sample_event_def sample_execution_def text_member_def detail_time_def)

theorem complete_event_accepts_witness:
  "assert_complete_event sample_event sample_event [U ''pwd'']
     = Inr ([(U ''pwd'', sample_execution)], [(U ''pwd'', sample_execution)])"
proof -
  let ?t = "[(U ''amr'', JArr [JStr (U ''pwd'')]), (U ''amr_details'', JArr [JObj sample_execution])]"
  have e: "execution_ok sample_execution" "identifier_of sample_execution = U ''pwd''"
    by (simp_all add: sample_execution_def execution_ok_def text_member_def detail_time_def identifier_of_def)
  show ?thesis
    by (rule complete_event_accepts [THEN conjunct1, THEN iffD2])
       (intro exI [of _ ?t] exI [of _ "[sample_execution]"] exI [of _ "[JStr (U ''pwd'')]"],
        simp add: sample_event_def e keyed_def)
qed

end
