(* ===== verification/Result_Pages.thy ===== *)
theory Result_Pages
  imports Client_App_Props E2E_Results
begin

text \<open>
  Between the client and the runner: the HTML of test-client/templates/base.html, result.html and
  error.html, and what the runner of e2e/http/run.py reads out of it. Jinja's escaping and
  \<open>html.unescape\<close> are arguments with the two documented facts \<open>escaping_ok\<close> states.

  Proved: the runner's JSON sections of a result page are exactly the objects the client verified,
  a result page counts as success and an error page as that error.
\<close>

section \<open>Searching a text that cannot match early\<close>

fun clash :: "ustr \<Rightarrow> ustr \<Rightarrow> bool" where
  "clash (c # s) (p # ps) = (c \<noteq> p \<or> clash s ps)"
| "clash s ps = False"

fun skips :: "ustr \<Rightarrow> ustr \<Rightarrow> bool" where
  "skips pat [] = True"
| "skips pat (c # s) = (clash (c # s) pat \<and> skips pat s)"

lemma clash_append: "clash s pat \<Longrightarrow> clash (s @ t) pat"
  by (induction s pat rule: clash.induct) auto

lemma clash_startswith: "clash s pat \<Longrightarrow> \<not> startswith s pat"
  by (induction s pat rule: clash.induct) auto

lemma skips_append: "skips pat a \<Longrightarrow> skips pat b \<Longrightarrow> skips pat (a @ b)"
  by (induction a) (auto dest: clash_append [of "_ # _" pat b])

lemma skips_free: "pat \<noteq> [] \<Longrightarrow> hd pat \<notin> set a \<Longrightarrow> skips pat a"
  by (induction a; cases pat) auto

lemma after_skips: "skips pat a \<Longrightarrow> after pat (a @ s) = after pat s"
proof (induction a)
  case (Cons c a)
  then have "\<not> startswith (c # a @ s) pat"
    using clash_startswith [OF clash_append [of "c # a" pat s]] by simp
  with Cons show ?case by simp
qed simp

lemma after_here: "pat \<noteq> [] \<Longrightarrow> after pat (pat @ s) = Some s"
  using startswith_append [of pat s] by (cases pat) auto

lemma before_here: "pat \<noteq> [] \<Longrightarrow> before pat (pat @ s) = Some []"
  using startswith_append [of pat s] by (cases pat) auto

lemma before_skips: "skips pat a \<Longrightarrow> before pat (a @ s) = map_option ((@) a) (before pat s)"
proof (induction a)
  case Nil
  show ?case by (simp add: option.map_id0 [unfolded id_def])
next
  case (Cons c a)
  then have "\<not> startswith (c # a @ s) pat"
    using clash_startswith [OF clash_append [of "c # a" pat s]] by simp
  with Cons show ?case by (simp add: option.map_comp comp_def)
qed

lemma section_found:
  assumes "skips (U ''<h2>'' @ heading @ U ''</h2><pre>'') pre" "60 \<notin> set body"
  shows "section_text heading (pre @ U ''<h2>'' @ heading @ U ''</h2><pre>'' @ body @ U ''</pre>'' @ rest) = Some body"
proof -
  let ?pat = "U ''<h2>'' @ heading @ U ''</h2><pre>''"
  have "after ?pat (pre @ ?pat @ body @ U ''</pre>'' @ rest) = Some (body @ U ''</pre>'' @ rest)"
    unfolding after_skips [OF assms(1)] by (rule after_here) simp
  moreover have "before (U ''</pre>'') (body @ U ''</pre>'' @ rest) = Some body"
  proof -
    have "skips (U ''</pre>'') body" using assms(2) by (intro skips_free) (simp_all add: U_def)
    then show ?thesis using before_here [of "U ''</pre>''" rest] by (simp add: before_skips)
  qed
  ultimately show ?thesis by (simp add: section_text_def)
qed

section \<open>The templates\<close>

definition nl :: ustr where
  "nl = [10]"

definition line :: "nat \<Rightarrow> ustr \<Rightarrow> ustr" where
  "line k s = replicate k 32 @ s @ nl"

text \<open>base.html around its two blocks; \<open>css\<close> is what \<open>url_for\<close> gives for the style sheet.\<close>

definition base_start :: "ustr \<Rightarrow> ustr \<Rightarrow> ustr" where
  \<open>base_start css title =
     line 0 (U ''<!doctype html>'') @ line 0 (U ''<html lang="en">'') @ line 2 (U ''<head>'')
     @ line 4 (U ''<meta charset="utf-8">'')
     @ line 4 (U ''<meta name="viewport" content="width=device-width, initial-scale=1">'')
     @ line 4 (U ''<title>'' @ title @ U ''</title>'')
     @ line 4 (U ''<link rel="stylesheet" href="'' @ css @ U ''">'')
     @ line 2 (U ''</head>'') @ line 2 (U ''<body>'') @ line 4 (U ''<main class="page-shell">'')
     @ line 6 (U ''<header class="site-header">'')
     @ line 8 (U ''<a class="brand" href="/">OIDC4AC <span>native lab</span></a>'')
     @ line 8 (U ''<nav class="site-nav" aria-label="Lab tools">'')
     @ line 10 (U ''<a href="/">Request workbench</a>'') @ line 10 (U ''<a href="/tools">Factor tools</a>'')
     @ line 8 (U ''</nav>'') @ line 6 (U ''</header>'') @ replicate 6 32\<close>

definition base_end :: ustr where
  \<open>base_end = nl @ line 4 (U ''</main>'') @ line 2 (U ''</body>'') @ U ''</html>''\<close>

definition card :: "ustr \<Rightarrow> ustr \<Rightarrow> ustr" where
  \<open>card heading body =
     line 2 (U ''<section class="card">'' @ U ''<h2>'' @ heading @ U ''</h2><pre>'' @ body @ U ''</pre>'' @ U ''</section>'')\<close>

definition result_intro :: "ustr \<Rightarrow> ustr" where
  \<open>result_intro source =
     nl @ line 0 (U ''<section class="result-heading"><p class="eyebrow">'' @ source
       @ U ''</p><h1>Verified authentication context</h1>''
       @ U ''<p class="muted">The test client shows only decoded, verified response objects. It deliberately does not print bearer or refresh tokens.</p></section>'')
     @ line 0 (U ''<div class="notice">For a refresh test, overlapping authentication details should describe the same immutable event snapshot as the authorization-code response.</div>'')
     @ line 0 (U ''<div class="result-grid">'')\<close>

definition result_outro :: "bool \<Rightarrow> ustr \<Rightarrow> ustr" where
  \<open>result_outro allow_refresh result_id =
     line 0 (U ''</div>'')
     @ line 0 (U ''<div class="button-row result-actions">''
       @ (if allow_refresh
          then U ''<form method="post" action="/refresh"><input type="hidden" name="result_id" value="''
               @ result_id
               @ U ''"><button class="primary" type="submit">Refresh tokens and re-check snapshot</button></form>''
          else [])
       @ U ''<a class="button secondary" href="/">Compose another request</a></div>'')\<close>

definition result_html :: "(ustr \<Rightarrow> ustr) \<Rightarrow> ustr \<Rightarrow> result_view \<Rightarrow> ustr" where
  \<open>result_html escape css v =
     base_start css (U ''OIDC4AC result'') @ result_intro (escape (view_source v))
     @ card (U ''Submitted Claim Request Object'') (escape (view_claims v))
     @ card (U ''Feature discovery'') (escape (view_discovery v))
     @ card (U ''Verified ID Token'') (escape (view_id_token v))
     @ card (U ''Verified Access Token (claims only)'') (escape (view_access_token v))
     @ card (U ''Access-token-bound UserInfo'') (escape (view_userinfo v))
     @ result_outro (view_allow_refresh v) (escape (view_result_id v)) @ base_end\<close>

definition error_html :: "(ustr \<Rightarrow> ustr) \<Rightarrow> ustr \<Rightarrow> ustr \<Rightarrow> ustr \<Rightarrow> ustr" where
  \<open>error_html escape css error description =
     base_start css (U ''OIDC4AC request result'')
     @ nl @ U ''<section class="error-page">'' @ U ''<p class="eyebrow">Authorization result</p>''
     @ U ''<h1>'' @ escape error @ U ''</h1>'' @ U ''<p>'' @ escape description
     @ U ''</p><a class="button primary" href="/">Return to request workbench</a></section>'' @ nl
     @ base_end\<close>

text \<open>
  What is documented of the two libraries: an escaped text has no \<open><\<close>, and
  \<open>html.unescape\<close> gives the text back.
\<close>

definition escaping_ok :: "(ustr \<Rightarrow> ustr) \<Rightarrow> (ustr \<Rightarrow> ustr) \<Rightarrow> bool" where
  "escaping_ok escape unescape \<longleftrightarrow> (\<forall>s. unescape (escape s) = s \<and> 60 \<notin> set (escape s))"

definition h2_pattern :: "string \<Rightarrow> ustr" where
  "h2_pattern heading = U ''<h2>'' @ U heading @ U ''</h2><pre>''"

lemma skips_escaped: "escaping_ok escape unescape \<Longrightarrow> skips (h2_pattern heading) (escape s)"
  by (intro skips_free) (simp_all add: h2_pattern_def escaping_ok_def U_def)

lemma skips_nl: "pat \<noteq> [] \<Longrightarrow> hd pat = 60 \<Longrightarrow> skips pat nl"
  by (intro skips_free) (simp_all add: nl_def)

lemma skips_blank: "pat \<noteq> [] \<Longrightarrow> hd pat = 60 \<Longrightarrow> skips pat (replicate k 32)"
  by (intro skips_free) simp_all

lemma skips_line: "skips pat s \<Longrightarrow> pat \<noteq> [] \<Longrightarrow> hd pat = 60 \<Longrightarrow> skips pat (line k s)"
  unfolding line_def by (intro skips_append skips_nl skips_blank)

lemma pattern_head: "h2_pattern h \<noteq> []" "hd (h2_pattern h) = 60"
  by (simp_all add: h2_pattern_def U_def)

lemma skips_prefix: "skips p a \<Longrightarrow> skips (p @ q) a"
proof (induction a)
  case (Cons c a)
  have "clash s p \<Longrightarrow> clash s (p @ q)" for s
    by (induction s p rule: clash.induct) auto
  with Cons show ?case by simp
qed simp

lemmas part_skips = skips_append skips_line skips_nl skips_blank

lemma base_start_skips:
  assumes "60 \<notin> set css" "60 \<notin> set title"
  shows "skips (U ''<h2>'') (base_start css title)"
proof -
  have t: "skips (U ''<h2>'') title" "skips (U ''<h2>'') css"
    using assms by (auto intro!: skips_free simp: U_def)
  show ?thesis
    unfolding base_start_def
    by (intro part_skips t) (simp_all add: U_def)
qed

lemma result_intro_skips:
  assumes "60 \<notin> set source"
  shows "skips (U ''<h2>'') (result_intro source)"
proof -
  have t: "skips (U ''<h2>'') source" using assms by (intro skips_free) (simp_all add: U_def)
  show ?thesis unfolding result_intro_def by (intro part_skips t) (simp_all add: U_def)
qed

lemma card_skips:
  assumes "60 \<notin> set body" "skips (h2_pattern h) (h2_pattern g)"
  shows "skips (h2_pattern h) (card (U g) body)"
proof -
  have b: "skips (h2_pattern h) body"
    using assms(1) pattern_head [of h] by (intro skips_free) simp_all
  have fixed: "skips (U ''<h2>'') (U ''<section class=\"card\">'')" "skips (U ''<h2>'') (U ''</pre>'')"
    "skips (U ''<h2>'') (U ''</section>'')"
    by (simp_all add: U_def)
  note f = fixed [THEN skips_prefix, of "U h @ U ''</h2><pre>''", folded h2_pattern_def]
  have "skips (h2_pattern h) (U ''<section class=\"card\">'' @ h2_pattern g @ body @ U ''</pre>'' @ U ''</section>'')"
    by (intro skips_append f b assms(2))
  then have "skips (h2_pattern h) (line 2 (U ''<section class=\"card\">'' @ h2_pattern g @ body @ U ''</pre>'' @ U ''</section>''))"
    by (rule skips_line) (rule pattern_head)+
  then show ?thesis by (simp add: card_def h2_pattern_def)
qed

lemma section_in_card:
  assumes "skips (h2_pattern h) a" "60 \<notin> set body"
  shows "section_text (U h) (a @ card (U h) body @ r) = Some body"
proof -
  have fixed: "skips (U ''<h2>'') (replicate 2 32 @ U ''<section class=\"card\">'')"
    by (simp add: U_def numeral_2_eq_2)
  have p: "skips (h2_pattern h) (a @ replicate 2 32 @ U ''<section class=\"card\">'')"
    by (rule skips_append [OF assms(1)])
       (use skips_prefix [OF fixed, of "U h @ U ''</h2><pre>''"] in \<open>simp only: h2_pattern_def\<close>)
  from section_found [OF p [unfolded h2_pattern_def] assms(2), of "U ''</section>'' @ nl @ r"]
  show ?thesis by (simp add: card_def line_def)
qed

text \<open>The pages start with a part in which no card heading begins.\<close>

lemma page_start_skips:
  assumes "60 \<notin> set css" "60 \<notin> set source"
  shows "skips (h2_pattern h) (base_start css (U ''OIDC4AC result'') @ result_intro source)"
proof -
  have "60 \<notin> set (U ''OIDC4AC result'')" by (simp add: U_def)
  from skips_append [OF base_start_skips [OF assms(1) this] result_intro_skips [OF assms(2)]]
  show ?thesis unfolding h2_pattern_def by (rule skips_prefix)
qed

text \<open>No heading of the page occurs in another one.\<close>

lemma headings_differ:
  "skips (h2_pattern ''Verified ID Token'') (h2_pattern ''Submitted Claim Request Object'')"
  "skips (h2_pattern ''Verified ID Token'') (h2_pattern ''Feature discovery'')"
  "skips (h2_pattern ''Access-token-bound UserInfo'') (h2_pattern ''Submitted Claim Request Object'')"
  "skips (h2_pattern ''Access-token-bound UserInfo'') (h2_pattern ''Feature discovery'')"
  "skips (h2_pattern ''Access-token-bound UserInfo'') (h2_pattern ''Verified ID Token'')"
  "skips (h2_pattern ''Access-token-bound UserInfo'') (h2_pattern ''Verified Access Token (claims only)'')"
  by (simp_all add: h2_pattern_def U_def)

lemma result_sections:
  assumes "escaping_ok escape unescape" "60 \<notin> set css"
  shows "section_text (U ''Submitted Claim Request Object'') (result_html escape css v) = Some (escape (view_claims v))"
    and "section_text (U ''Verified ID Token'') (result_html escape css v) = Some (escape (view_id_token v))"
    and "section_text (U ''Access-token-bound UserInfo'') (result_html escape css v) = Some (escape (view_userinfo v))"
proof -
  have e: "60 \<notin> set (escape s)" for s using assms(1) by (simp add: escaping_ok_def)
  note start = page_start_skips [OF assms(2) e]
  let ?s = "base_start css (U ''OIDC4AC result'') @ result_intro (escape (view_source v))"
  let ?c1 = "card (U ''Submitted Claim Request Object'') (escape (view_claims v))"
  let ?c2 = "card (U ''Feature discovery'') (escape (view_discovery v))"
  let ?c3 = "card (U ''Verified ID Token'') (escape (view_id_token v))"
  let ?c4 = "card (U ''Verified Access Token (claims only)'') (escape (view_access_token v))"
  show "section_text (U ''Submitted Claim Request Object'') (result_html escape css v) = Some (escape (view_claims v))"
    using section_in_card [OF start e] by (simp add: result_html_def)
  have "skips (h2_pattern ''Verified ID Token'') (?s @ ?c1 @ ?c2)"
    by (intro skips_append [OF start] skips_append card_skips e headings_differ)
  from section_in_card [OF this e]
  show "section_text (U ''Verified ID Token'') (result_html escape css v) = Some (escape (view_id_token v))"
    by (simp add: result_html_def)
  have "skips (h2_pattern ''Access-token-bound UserInfo'') (?s @ ?c1 @ ?c2 @ ?c3 @ ?c4)"
    by (intro skips_append [OF start] skips_append card_skips e headings_differ)
  from section_in_card [OF this e]
  show "section_text (U ''Access-token-bound UserInfo'') (result_html escape css v) = Some (escape (view_userinfo v))"
    by (simp add: result_html_def)
qed

section \<open>Success and error pages\<close>

definition error_mark :: ustr where
  \<open>error_mark = U ''<section class="error-page">''\<close>

lemma error_mark_head: "error_mark \<noteq> []" "hd error_mark = 60"
  by (simp_all add: error_mark_def U_def)

lemma skips_no_tag: "60 \<notin> set s \<Longrightarrow> skips error_mark s"
  using error_mark_head by (intro skips_free) simp_all

lemma base_start_no_error:
  assumes "60 \<notin> set css" "60 \<notin> set title"
  shows "skips error_mark (base_start css title)"
proof -
  note t = skips_no_tag [OF assms(1)] skips_no_tag [OF assms(2)]
  show ?thesis
    unfolding base_start_def
    by (intro part_skips t error_mark_head) (simp_all add: U_def error_mark_def)
qed

lemma card_no_error: "60 \<notin> set body \<Longrightarrow> skips error_mark (U heading) \<Longrightarrow> skips error_mark (card (U heading) body)"
  unfolding card_def
  by (intro part_skips error_mark_head; (rule skips_no_tag; assumption | assumption)?)
     (simp_all add: U_def error_mark_def)

lemma result_html_no_error:
  assumes "escaping_ok escape unescape" "60 \<notin> set css"
  shows "skips error_mark (result_html escape css v)"
proof -
  have e: "skips error_mark (escape s)" "60 \<notin> set (escape s)" for s
    using assms(1) skips_no_tag by (simp_all add: escaping_ok_def)
  have t: "60 \<notin> set (U ''OIDC4AC result'')" by (simp add: U_def)
  have i: "skips error_mark (result_intro (escape s))" for s
    unfolding result_intro_def
    by (intro part_skips e error_mark_head) (simp_all add: U_def error_mark_def)
  have o1: "skips error_mark (if b then U ''<form method=\"post\" action=\"/refresh\"><input type=\"hidden\" name=\"result_id\" value=\"''
      @ escape s @ U ''\"><button class=\"primary\" type=\"submit\">Refresh tokens and re-check snapshot</button></form>'' else [])" for b s
  proof (cases b)
    case True
    show ?thesis unfolding if_P [OF True] by (intro skips_append e) (simp_all add: U_def error_mark_def)
  qed simp
  have o: "skips error_mark (result_outro b (escape s))" for b s
    unfolding result_outro_def
    by (intro part_skips o1 error_mark_head) (simp_all add: U_def error_mark_def)
  have b: "skips error_mark base_end"
    unfolding base_end_def
    by (intro part_skips error_mark_head) (simp_all add: U_def error_mark_def)
  show ?thesis
    unfolding result_html_def
    by (intro skips_append base_start_no_error assms(2) t i o b card_no_error e)
       (simp_all add: U_def error_mark_def)
qed

lemma result_html_marked: "contains (result_html escape css v) (U ''Verified authentication context'')"
proof -
  have "contains (U ''</p><h1>'' @ U ''Verified authentication context'' @ U ''</h1>'') (U ''Verified authentication context'')"
    by (rule contains_middle)
  then have "contains (U ''</p><h1>Verified authentication context</h1>'') (U ''Verified authentication context'')"
    by (simp add: U_append [symmetric])
  then show ?thesis
    unfolding result_html_def result_intro_def line_def append_assoc by (intro contains_append)
qed

lemma result_require_success:
  assumes "escaping_ok escape unescape" "60 \<notin> set css"
  shows "require_success unescape \<lparr>result_text = result_html escape css v, result_forms = fs\<rparr>
     = Inr \<lparr>result_text = result_html escape css v, result_forms = fs\<rparr>"
proof -
  have "after error_mark (result_html escape css v @ []) = after error_mark []"
    by (rule after_skips [OF result_html_no_error [OF assms]])
  then have "after error_mark (result_html escape css v) = None" using error_mark_head by simp
  then show ?thesis
    by (simp add: require_success_def public_error_def result_html_marked error_mark_def [symmetric])
qed

lemma error_page_error:
  assumes "escaping_ok escape unescape" "60 \<notin> set css"
  shows "public_error unescape \<lparr>result_text = error_html escape css error d, result_forms = fs\<rparr> = Some (strip error)"
proof -
  have e: "60 \<notin> set (escape error)" "unescape (escape error) = error" using assms(1) by (simp_all add: escaping_ok_def)
  let ?tail = "U ''<p>'' @ escape d @ U ''</p><a class=\"button primary\" href=\"/\">Return to request workbench</a></section>''
     @ nl @ base_end"
  let ?eyebrow = "U ''<p class=\"eyebrow\">Authorization result</p>''"
  have t: "60 \<notin> set (U ''OIDC4AC request result'')" by (simp add: U_def)
  have html: "error_html escape css error d = (base_start css (U ''OIDC4AC request result'') @ nl) @ error_mark
      @ ?eyebrow @ U ''<h1>'' @ escape error @ U ''</h1>'' @ ?tail"
    by (simp add: error_html_def error_mark_def)
  have "skips error_mark (base_start css (U ''OIDC4AC request result'') @ nl)"
    by (intro skips_append base_start_no_error assms(2) t skips_nl error_mark_head)
  then have a: "after error_mark (error_html escape css error d) =
      Some (?eyebrow @ U ''<h1>'' @ escape error @ U ''</h1>'' @ ?tail)"
    unfolding html by (simp only: after_skips after_here [OF error_mark_head(1)])
  have "skips (U ''<h1>'') ?eyebrow" by (simp add: U_def)
  then have b: "after (U ''<h1>'') (?eyebrow @ U ''<h1>'' @ escape error @ U ''</h1>'' @ ?tail) =
      Some (escape error @ U ''</h1>'' @ ?tail)"
    using after_here [of "U ''<h1>''"] by (simp only: after_skips) simp
  have "skips (U ''</h1>'') (escape error)" using e(1) by (intro skips_free) (simp_all add: U_def)
  then have c: "before (U ''</h1>'') (escape error @ U ''</h1>'' @ ?tail) = Some (escape error)"
    using before_here [of "U ''</h1>''"] by (simp add: before_skips)
  show ?thesis
    by (simp add: public_error_def error_mark_def [symmetric] a b c e(2) del: append_assoc)
qed

lemma json_section_pretty:
  assumes "escaping_ok escape unescape" "json_ok env (scan_depth env) v" "pretty_json env v = Inr t"
    and "section_text heading page = Some (escape t)"
  shows "json_section env unescape heading \<lparr>result_text = page, result_forms = fs\<rparr> = Inr v"
proof -
  have "t = dump (indent_style esc_plain 2) 0 v"
    using assms(3) by (auto simp: pretty_json_def dumps_indent_def split: if_splits)
  then have "loads env t = Inr v" using loads_dump [OF style_ok_pretty assms(2)] by simp
  moreover have "unescape (escape t) = t" using assms(1) by (simp add: escaping_ok_def)
  ultimately show ?thesis by (simp add: json_section_def assms(4))
qed

lemma opened_claims_ok:
  assumes "float_env env" "0 < scan_depth env" "opened_as env k e ev"
  shows "json_ok env (scan_depth env) (JObj (auth_claims e))"
proof -
  obtain form where "requested_claims env form = Some (auth_claims e)"
    using assms(3) by (auto simp: opened_as_def split: client_request.splits)
  then have "auth_claims e = [] \<or> parse_claims env (map_of form (U ''claims_json'')) = Inr (auth_claims e)"
    by (auto simp: requested_claims_def split: if_splits sum.splits)
  then show ?thesis using parse_claims_ok [OF _ assms(1)] assms(2) by auto
qed

text \<open>A concrete pair of functions as Jinja and \<open>html\<close> have them, for the witnesses.\<close>

definition sample_escape :: "ustr \<Rightarrow> ustr" where
  "sample_escape s = concat (map (\<lambda>c. if c = 38 then U ''&amp;'' else if c = 60 then U ''&lt;''
     else if c = 62 then U ''&gt;'' else [c]) s)"

fun sample_unescape :: "ustr \<Rightarrow> ustr" where
  "sample_unescape [] = []"
| "sample_unescape (c # s) =
     (if startswith (c # s) (U ''&amp;'') then 38 # sample_unescape (drop 4 s)
      else if startswith (c # s) (U ''&lt;'') then 60 # sample_unescape (drop 3 s)
      else if startswith (c # s) (U ''&gt;'') then 62 # sample_unescape (drop 3 s)
      else c # sample_unescape s)"

lemma sample_escaping: "escaping_ok sample_escape sample_unescape"
proof -
  have "sample_unescape (sample_escape s) = s" for s
    by (induction s) (auto simp: sample_escape_def U_def)
  moreover have "60 \<notin> set (sample_escape s)" for s
    by (auto simp: sample_escape_def U_def split: if_splits)
  ultimately show ?thesis by (simp add: escaping_ok_def)
qed

section \<open>Properties\<close>

text \<open>C25: what the end-to-end runner asserts on is what the client verified. In any
  run, the HTML page of an authorization response counts as a success for the runner, and its
  three JSON sections read back as exactly the ID Token and UserInfo that passed validation
  with the login's nonce, and the claims object of that login.\<close>

theorem runner_reads_result:
  assumes "escaping_ok escape unescape" "60 \<notin> set css" "float_env env" "0 < scan_depth env"
    and "run env cfg tr st" "serve env cfg w (Callback args s) st = (st', Page 200 (ResultPage v))"
    and "\<forall>t n i. parse_id_token w t n = Some i \<longrightarrow> json_ok env (scan_depth env) (JObj i)"
    and "\<forall>t u. userinfo w t = Some u \<longrightarrow> json_ok env (scan_depth env) (JObj u)"
  shows "\<exists>k e token i u. named_context args = Some k \<and> pending st k = Some e
    \<and> verified_response w (authorize_access_token w args) (Some (auth_nonce e)) = Some (token, i, u)
    \<and> (let r = \<lparr>result_text = result_html escape css v, result_forms = fs\<rparr> in
        require_success unescape r = Inr r
        \<and> json_section env unescape (U ''Verified ID Token'') r = Inr (JObj i)
        \<and> json_section env unescape (U ''Access-token-bound UserInfo'') r = Inr (JObj u)
        \<and> json_section env unescape (U ''Submitted Claim Request Object'') r = Inr (JObj (auth_claims e)))"
proof -
  have c: "snd (snd (callback env w args st s)) = Page 200 (ResultPage v)"
    using assms(6) by (simp add: serve_callback del: serve.simps)
  show ?thesis
  proof (cases rule: callback_cases [of args env w st s])
    case (valid k e token i u)
    obtain ev where "opened_as env k e ev" using run_pending [OF assms(5) valid(2)] by blast
    note cl = opened_claims_ok [OF assms(3,4) this]
    have iu: "json_ok env (scan_depth env) (JObj i)" "json_ok env (scan_depth env) (JObj u)"
    proof -
      have "parse_id_token w token (Some (auth_nonce e)) = Some i" "userinfo w token = Some u"
        using valid(3) by (auto simp: verified_response_def bind_eq_Some_conv)
      with assms(7,8) show "json_ok env (scan_depth env) (JObj i)" "json_ok env (scan_depth env) (JObj u)"
        by blast+
    qed
    have "render_result env w (auth_claims e) i u (get_member token ''access_token'') True
        (U ''Authorization code response'') (fresh_result w) = Page 200 (ResultPage v)"
      using c valid(4) by simp
    then have p: "pretty_json env (JObj (auth_claims e)) = Inr (view_claims v)"
      "pretty_json env (JObj i) = Inr (view_id_token v)" "pretty_json env (JObj u) = Inr (view_userinfo v)"
      by (auto simp: render_result_def split: sum.splits)
    note sec = result_sections [OF assms(1,2), of v]
    note js = json_section_pretty [OF assms(1), where fs = fs]
    show ?thesis
      using valid(1-3) result_require_success [OF assms(1,2)]
        js [OF iu(1) p(2) sec(2)] js [OF iu(2) p(3) sec(3)] js [OF cl p(1) sec(1)]
      by (auto simp: Let_def)
  qed (use c in \<open>auto simp: missing_context_def\<close>)
qed

theorem runner_reads_result_witness:
  "\<exists>(v :: result_view) k e token i u. named_context sample_args = Some k \<and> pending sample_opened k = Some e
    \<and> verified_response sample_world (authorize_access_token sample_world sample_args) (Some (auth_nonce e)) = Some (token, i, u)
    \<and> (let r = \<lparr>result_text = result_html sample_escape (U ''/static/lab.css'') v, result_forms = []\<rparr> in
        require_success sample_unescape r = Inr r
        \<and> json_section sample_env sample_unescape (U ''Verified ID Token'') r = Inr (JObj i)
        \<and> json_section sample_env sample_unescape (U ''Access-token-bound UserInfo'') r = Inr (JObj u)
        \<and> json_section sample_env sample_unescape (U ''Submitted Claim Request Object'') r = Inr (JObj (auth_claims e)))"
proof -
  obtain v where r: "serve sample_env sample_config sample_world (Callback sample_args None) sample_opened =
     (sample_granted, Page 200 (ResultPage v))" using sample_callback by blast
  have j: "json_ok sample_env (scan_depth sample_env) (JObj [(U ''sub'', JStr (U ''alice''))])"
    by (simp add: dict_ok_def str_ok_def U_def no_pair.simps is_high_def is_low_def)
  show ?thesis
  proof (rule exI [of _ v], rule runner_reads_result [OF sample_escaping _ sample_env_float _ sample_run_1 r])
    show "60 \<notin> set (U ''/static/lab.css'')" by (simp add: U_def)
    show "\<forall>t n i. parse_id_token sample_world t n = Some i \<longrightarrow> json_ok sample_env (scan_depth sample_env) (JObj i)"
      using j by (simp add: sample_world_def)
    show "\<forall>t u. userinfo sample_world t = Some u \<longrightarrow> json_ok sample_env (scan_depth sample_env) (JObj u)"
      using j by (simp add: sample_world_def)
  qed simp
qed

text \<open>And an error page is that error. The page of any \<open>ErrorPage\<close> answer is refused
  by \<open>require_success\<close> with the public error, up to surrounding white space, and accepted by
  \<open>require_error\<close> for that error and for no other.\<close>

theorem runner_reads_error:
  assumes "escaping_ok escape unescape" "60 \<notin> set css"
  shows "let r = \<lparr>result_text = error_html escape css error description, result_forms = fs\<rparr> in
     require_success unescape r = Inl (CheckFailure (PublicError (strip error)))
     \<and> (require_error unescape expected r = Inr r \<longleftrightarrow> expected = strip error)"
  using error_page_error [OF assms] by (auto simp: Let_def require_success_def require_error_def)

theorem runner_reads_error_witness:
  "require_success sample_unescape \<lparr>result_text = error_html sample_escape [] (U ''access_denied'') [], result_forms = []\<rparr>
     = Inl (CheckFailure (PublicError (strip (U ''access_denied''))))"
  using runner_reads_error [OF sample_escaping, of "[]" "U ''access_denied''" "[]" "[]"] by (simp add: Let_def)

end
