(* ===== verification/Py_Regex.thy ===== *)
theory Py_Regex
  imports E2E_Results
begin

text \<open>
  The part of Python's \<open>re\<close> the sources use: a backtracking matcher for sequences of characters,
  character classes with greedy or lazy repetition, groups and word boundaries, with
  \<open>re.search\<close> and \<open>re.findall\<close> on top of it. What Unicode counts as a letter or digit is an
  argument.

  Proved: a match is a piece of the text; what a lazy group up to a literal finds; and that the
  runner's two page patterns (\<open>json_section\<close>, \<open>error\<close>) are the direct searches of E2E_Results.
\<close>

section \<open>Patterns\<close>

text \<open>
  One element of a pattern: a character of a class, a class repeated at least \<open>n\<close> times as often as
  possible (\<open>*\<close>, \<open>+\<close>), a class repeated as rarely as possible (\<open>*?\<close>), \<open>\b\<close>, \<open>^\<close> and \<open>$\<close> under
  \<open>re.MULTILINE\<close>, the parentheses of a group. A pattern is the list of its elements; groups are not nested and not repeated.
\<close>

datatype item = One "nat \<Rightarrow> bool" | Many nat "nat \<Rightarrow> bool" | Lazy "nat \<Rightarrow> bool" | Boundary
  | LineStart | LineEnd | Open | Close

text \<open>\<open>str.isalnum\<close> and \<open>str.isdecimal\<close> of one character, from the Unicode database.\<close>

record char_data =
  is_alnum :: "nat \<Rightarrow> bool"
  is_decimal :: "nat \<Rightarrow> bool"

definition word_char :: "char_data \<Rightarrow> nat \<Rightarrow> bool" where
  "word_char cd c \<longleftrightarrow> is_alnum cd c \<or> c = 95"

definition any_char :: "nat \<Rightarrow> bool" where
  "any_char c = True"

text \<open>A literal, and a literal of ASCII characters under \<open>re.IGNORECASE\<close>: four letters outside
  ASCII fold to \<open>i\<close>, \<open>k\<close> or \<open>s\<close>.\<close>

definition literal :: "ustr \<Rightarrow> item list" where
  "literal s = map (\<lambda>c. One (\<lambda>x. x = c)) s"

definition fold_case :: "nat \<Rightarrow> nat" where
  "fold_case c = (if 65 \<le> c \<and> c \<le> 90 then c + 32
     else if c = 0x130 \<or> c = 0x131 then 105 else if c = 0x17F then 115 else if c = 0x212A then 107 else c)"

definition literal_ignorecase :: "ustr \<Rightarrow> item list" where
  "literal_ignorecase s = map (\<lambda>c. One (\<lambda>x. fold_case x = fold_case c)) s"

section \<open>Matching\<close>

fun first_some :: "('a \<Rightarrow> 'b option) \<Rightarrow> 'a list \<Rightarrow> 'b option" where
  "first_some f [] = None"
| "first_some f (x # xs) = (case f x of None \<Rightarrow> first_some f xs | Some y \<Rightarrow> Some y)"

text \<open>The character before the text that is left, after \<open>k\<close> more characters.\<close>

definition skipped :: "nat option \<Rightarrow> ustr \<Rightarrow> nat \<Rightarrow> nat option" where
  "skipped p s k = (if k = 0 then p else Some (s ! (k - 1)))"

text \<open>
  Match a pattern at the start of \<open>s\<close>; \<open>p\<close> is the character before \<open>s\<close> and \<open>g\<close> the text at the last
  opened group. The result has the groups in order, and again the character before the text that is left.
\<close>

fun match_here ::
  "char_data \<Rightarrow> item list \<Rightarrow> nat option \<Rightarrow> ustr \<Rightarrow> ustr \<Rightarrow> (ustr list \<times> nat option \<times> ustr) option" where
  "match_here cd [] p s g = Some ([], p, s)"
| "match_here cd (a # r) p s g =
     (case a of
        One c \<Rightarrow> (case s of [] \<Rightarrow> None | x # t \<Rightarrow> if c x then match_here cd r (Some x) t g else None)
      | Many n c \<Rightarrow> first_some (\<lambda>k. match_here cd r (skipped p s k) (drop k s) g)
          (rev [n..<Suc (length (takeWhile c s))])
      | Lazy c \<Rightarrow> first_some (\<lambda>k. match_here cd r (skipped p s k) (drop k s) g)
          [0..<Suc (length (takeWhile c s))]
      | Boundary \<Rightarrow>
          if (case p of None \<Rightarrow> False | Some x \<Rightarrow> word_char cd x) \<noteq> (case s of [] \<Rightarrow> False | x # t \<Rightarrow> word_char cd x)
          then match_here cd r p s g else None
      | LineStart \<Rightarrow> if p = None \<or> p = Some 10 then match_here cd r p s g else None
      | LineEnd \<Rightarrow> if s = [] \<or> hd s = 10 then match_here cd r p s g else None
      | Open \<Rightarrow> match_here cd r p s s
      | Close \<Rightarrow> map_option (\<lambda>(gs, q, t). (take (length g - length s) g # gs, q, t)) (match_here cd r p s g))"

text \<open>\<open>re.search(pattern, text)\<close>: the groups of the first match, and what is left.\<close>

fun search_from :: "char_data \<Rightarrow> item list \<Rightarrow> nat option \<Rightarrow> ustr \<Rightarrow> (ustr list \<times> nat option \<times> ustr) option" where
  "search_from cd r p [] = match_here cd r p [] []"
| "search_from cd r p (c # s) =
     (case match_here cd r p (c # s) (c # s) of None \<Rightarrow> search_from cd r (Some c) s | Some m \<Rightarrow> Some m)"

definition re_search :: "char_data \<Rightarrow> item list \<Rightarrow> ustr \<Rightarrow> ustr list option" where
  "re_search cd r s = map_option fst (search_from cd r None s)"

text \<open>\<open>re.findall\<close> for patterns that match no empty text: the groups of successive matches.\<close>

function find_from :: "char_data \<Rightarrow> item list \<Rightarrow> nat option \<Rightarrow> ustr \<Rightarrow> ustr list list" where
  "find_from cd r p s =
     (case s of
        [] \<Rightarrow> []
      | c # s' \<Rightarrow>
          (case match_here cd r p s s of
             Some (gs, q, t) \<Rightarrow> if length t < length s then gs # find_from cd r q t else find_from cd r (Some c) s'
           | None \<Rightarrow> find_from cd r (Some c) s'))"
  by pat_completeness auto
termination by (relation "measure (\<lambda>(cd, r, p, s). length s)") auto

declare find_from.simps [simp del]

definition re_findall :: "char_data \<Rightarrow> item list \<Rightarrow> ustr \<Rightarrow> ustr list list" where
  "re_findall cd r s = find_from cd r None s"

section \<open>What a match is\<close>

lemma first_some_Some: "first_some f xs = Some y \<Longrightarrow> \<exists>x \<in> set xs. f x = Some y"
  by (induction xs) (auto split: option.splits)

lemma first_some_None: "first_some f xs = None \<longleftrightarrow> (\<forall>x \<in> set xs. f x = None)"
  by (induction xs) (auto split: option.splits)

text \<open>What is left is a suffix, and groups are pieces of the text.\<close>

lemma match_here_suffix:
  "match_here cd r p s g = Some (gs, q, t) \<Longrightarrow> \<exists>u. s = u @ t"
proof (induction cd r p s g arbitrary: gs q t rule: match_here.induct)
  case (2 cd a r p s g)
  have rep: "\<exists>u. s = u @ t" if "match_here cd r (skipped p s k) (drop k s) g = Some (gs, q, t)" "k \<in> set ks"
    "\<And>k gs q t. k \<in> set ks \<Longrightarrow> match_here cd r (skipped p s k) (drop k s) g = Some (gs, q, t) \<Longrightarrow> \<exists>u. drop k s = u @ t"
    for k ks
  proof -
    from that obtain u where "drop k s = u @ t" by blast
    then have "s = (take k s @ u) @ t" by (metis append_assoc append_take_drop_id)
    then show ?thesis by blast
  qed
  show ?case
  proof (cases a)
    case (Many n c)
    with "2.prems" show ?thesis using rep [OF _ _ "2.IH"(2) [OF Many]] by (fastforce dest: first_some_Some)
  next
    case (Lazy c)
    with "2.prems" show ?thesis using rep [OF _ _ "2.IH"(3) [OF Lazy]] by (fastforce dest: first_some_Some)
  qed (use 2 in \<open>auto split: list.splits if_splits\<close>, fastforce+)
qed simp

section \<open>Literals and lazy repetition\<close>

definition groups_at :: "char_data \<Rightarrow> item list \<Rightarrow> nat option \<Rightarrow> ustr \<Rightarrow> ustr \<Rightarrow> ustr list option" where
  "groups_at cd r p s g = map_option fst (match_here cd r p s g)"

lemma skipped_simps [simp]:
  "skipped p s 0 = p" "skipped (Some x) t k = skipped p (x # t) (Suc k)"
  by (auto simp: skipped_def nth_Cons')

lemma match_literal:
  "match_here cd (literal pat @ r) p s g =
     (if startswith s pat then match_here cd r (skipped p s (length pat)) (drop (length pat) s) g else None)"
proof (induction pat arbitrary: p s)
  case (Cons c pat)
  then show ?case by (cases s) (simp_all add: literal_def skipped_simps(2) [of _ _ _ p] del: skipped_simps(2))
qed (simp add: literal_def)

lemma groups_literal:
  assumes "\<And>p s g. groups_at cd r p s g = f s"
  shows "groups_at cd (literal pat @ r) p s g = (if startswith s pat then f (drop (length pat) s) else None)"
  using assms [of "skipped p s (length pat)" "drop (length pat) s" g]
  by (auto simp: groups_at_def match_literal)

lemma first_some_map: "first_some f (map h xs) = first_some (\<lambda>x. f (h x)) xs"
  by (induction xs) (auto split: option.splits)

lemma first_some_option: "map_option h (first_some f xs) = first_some (\<lambda>x. map_option h (f x)) xs"
  by (induction xs) (auto split: option.splits)

lemma upto_Suc_map: "[0..<Suc (Suc n)] = 0 # map Suc [0..<Suc n]"
  by (metis map_Suc_upt upt_conv_Cons zero_less_Suc)

text \<open>\<open>.*?\<close> in front of a literal takes what stands before its first occurrence, as long as the rest
  of the pattern, once it fails, also fails further on.\<close>

lemma after_drop: "after pat s = Some t \<Longrightarrow> \<exists>m \<ge> length pat. t = drop m s"
proof (induction s)
  case (Cons c s)
  show ?case
  proof (cases "startswith (c # s) pat")
    case False
    with Cons obtain m where "length pat \<le> m" "t = drop m s" by auto
    then show ?thesis by (intro exI [of _ "Suc m"]) simp
  qed (use Cons.prems in auto)
qed (auto split: if_splits)

lemma first_position:
  assumes fails: "\<And>c s. f (c # s) = None \<Longrightarrow> f s = None"
  shows "first_some (\<lambda>k. if startswith (drop k s) pat then f (drop (length pat) (drop k s)) else None) [0..<Suc (length s)]
    = Option.bind (after pat s) f"
proof (induction s)
  case Nil
  show ?case by (cases pat) (simp_all split: option.splits)
next
  case (Cons c s)
  have fails_drop: "f x = None \<Longrightarrow> f (drop k x) = None" for x k
  proof (induction k arbitrary: x)
    case (Suc k)
    then show ?case using fails by (cases x) auto
  qed simp
  have later: "Option.bind (after pat s) f = None" if n: "f (drop (length pat) (c # s)) = None"
  proof (cases "after pat s")
    case (Some t)
    then obtain m where m: "length pat \<le> m" "t = drop m s" using after_drop by blast
    then have "t = drop (Suc m - length pat) (drop (length pat) (c # s))" by simp
    with fails_drop [OF n] Some show ?thesis by simp
  qed simp
  let ?f = "\<lambda>k. if startswith (drop k (c # s)) pat then f (drop (length pat) (drop k (c # s))) else None"
  have "first_some ?f [0..<Suc (length (c # s))]
      = (case ?f 0 of None \<Rightarrow> Option.bind (after pat s) f | Some y \<Rightarrow> Some y)"
    using Cons by (simp only: length_Cons upto_Suc_map first_some.simps first_some_map drop_Suc_Cons)
  also have "\<dots> = Option.bind (after pat (c # s)) f" using later by (auto split: option.splits)
  finally show ?case .
qed

lemma before_first:
  "first_some (\<lambda>k. if startswith (drop k s) pat then Some (h (take k s)) else None) [0..<Suc (length s)]
     = map_option h (before pat s)"
proof (induction s arbitrary: h)
  case Nil
  then show ?case by (cases pat) auto
next
  case (Cons c s)
  let ?f = "\<lambda>k. if startswith (drop k (c # s)) pat then Some (h (take k (c # s))) else None"
  have "first_some ?f [0..<Suc (length (c # s))]
      = (case ?f 0 of None \<Rightarrow> map_option (\<lambda>x. h (c # x)) (before pat s) | Some y \<Rightarrow> Some y)"
    using Cons [of "\<lambda>x. h (c # x)"]
    by (simp only: length_Cons upto_Suc_map first_some.simps first_some_map drop_Suc_Cons take_Suc_Cons)
  then show ?case by (auto simp: option.map_comp comp_def)
qed

lemma before_fails: "before pat (c # s) = None \<Longrightarrow> before pat s = None"
  by (auto split: if_splits)

lemma bind_after_fails:
  assumes "\<And>c s. f (c # s) = None \<Longrightarrow> f s = None" "Option.bind (after pat (c # s)) f = None"
  shows "Option.bind (after pat s) f = None"
proof (cases "after pat s")
  case (Some t)
  then obtain m where m: "length pat \<le> m" "t = drop m s" using after_drop by blast
  have fails: "f x = None \<Longrightarrow> f (drop k x) = None" for x k
  proof (induction k arbitrary: x)
    case (Suc k)
    then show ?case using assms(1) by (cases x) auto
  qed simp
  show ?thesis
  proof (cases "startswith (c # s) pat")
    case True
    then have n: "f (drop (length pat) (c # s)) = None" using assms(2) by simp
    have "t = drop (Suc m - length pat) (drop (length pat) (c # s))" using m by simp
    with fails [OF n] Some show ?thesis by simp
  qed (use assms(2) Some in simp)
qed simp

lemma takeWhile_any [simp]: "takeWhile any_char s = s"
  by (simp add: any_char_def takeWhile_eq_all_conv)

lemma groups_lazy:
  assumes "\<And>p s g. groups_at cd r p s g = f s" "\<And>c s. f (c # s) = None \<Longrightarrow> f s = None"
  shows "groups_at cd (Lazy any_char # literal pat @ r) p s g = Option.bind (after pat s) f"
proof -
  have "groups_at cd (Lazy any_char # literal pat @ r) p s g
      = first_some (\<lambda>k. groups_at cd (literal pat @ r) (skipped p s k) (drop k s) g) [0..<Suc (length s)]"
    by (simp add: groups_at_def first_some_option del: upt_Suc)
  also have "\<dots> = Option.bind (after pat s) f"
    unfolding groups_literal [of cd r f, OF assms(1)] by (rule first_position [OF assms(2)])
  finally show ?thesis .
qed

text \<open>A lazy group up to a literal.\<close>

lemma groups_until:
  "groups_at cd ([Open, Lazy any_char, Close] @ literal pat) p s g = map_option (\<lambda>x. [x]) (before pat s)"
proof -
  have e: "map_option fst (map_option (\<lambda>(gs, q, t). (take k s # gs, q, t)) (match_here cd (literal pat) p' (drop k s) s))
      = (if startswith (drop k s) pat then Some [take k s] else None)" for k p'
    using match_literal [of cd pat "[]" p' "drop k s" s] by simp
  have k: "k \<in> set [0..<Suc (length s)] \<Longrightarrow> take (length s - length (drop k s)) s = take k s" for k
    by auto
  have "groups_at cd ([Open, Lazy any_char, Close] @ literal pat) p s g
      = first_some (\<lambda>k. map_option fst (map_option (\<lambda>(gs, q, t). (take (length s - length (drop k s)) s # gs, q, t))
            (match_here cd (literal pat) (skipped p s k) (drop k s) s))) [0..<Suc (length s)]"
    by (simp add: groups_at_def first_some_option del: upt_Suc length_drop)
  also have "\<dots> = first_some (\<lambda>k. if startswith (drop k s) pat then Some [take k s] else None) [0..<Suc (length s)]"
  proof -
    have "first_some (\<lambda>k. map_option fst (map_option (\<lambda>(gs, q, t). (take (length s - length (drop k s)) s # gs, q, t))
            (match_here cd (literal pat) (skipped p s k) (drop k s) s))) ks
        = first_some (\<lambda>k. if startswith (drop k s) pat then Some [take k s] else None) ks"
      if "set ks \<subseteq> set [0..<Suc (length s)]" for ks
      using that
    proof (induction ks)
      case (Cons a ks)
      then have "a \<in> set [0..<Suc (length s)]" "set ks \<subseteq> set [0..<Suc (length s)]" by simp_all
      with Cons.IH k [of a] e [of a] show ?case by (simp only: first_some.simps)
    qed simp
    then show ?thesis by blast
  qed
  also have "\<dots> = map_option (\<lambda>x. [x]) (before pat s)" by (rule before_first)
  finally show ?thesis .
qed

lemma search_literal:
  assumes "\<And>p s g. groups_at cd r p s g = f s" "\<And>c s. f (c # s) = None \<Longrightarrow> f s = None"
  shows "map_option fst (search_from cd (literal pat @ r) p s) = Option.bind (after pat s) f"
proof (induction s arbitrary: p)
  case Nil
  show ?case
    using groups_literal [of cd r f pat p "[]" "[]", OF assms(1)]
    by (cases pat) (simp_all add: groups_at_def)
next
  case (Cons c s)
  have h: "map_option fst (match_here cd (literal pat @ r) p (c # s) (c # s))
      = (if startswith (c # s) pat then f (drop (length pat) (c # s)) else None)"
    using groups_literal [of cd r f pat p "c # s" "c # s", OF assms(1)] by (simp add: groups_at_def)
  show ?case
  proof (cases "match_here cd (literal pat @ r) p (c # s) (c # s)")
    case None
    have "Option.bind (after pat s) f = Option.bind (after pat (c # s)) f"
    proof (cases "startswith (c # s) pat")
      case True
      then have "Option.bind (after pat (c # s)) f = None" using h None by simp
      then show ?thesis using bind_after_fails [of f pat c s, OF assms(2)] by simp
    qed simp
    then show ?thesis using None Cons by simp
  next
    case (Some m)
    then show ?thesis using h by (auto split: if_splits)
  qed
qed

section \<open>The page patterns of the runner\<close>

text \<open>The two regular expressions of \<open>AuthorizationResult\<close>, as they are written (both with DOTALL).\<close>

definition section_pattern :: "ustr \<Rightarrow> item list" where
  "section_pattern heading =
     literal (U ''<h2>'' @ heading @ U ''</h2><pre>'') @ [Open, Lazy any_char, Close] @ literal (U ''</pre>'')"

definition error_pattern :: "item list" where
  \<open>error_pattern = literal (U ''<section class="error-page">'') @ [Lazy any_char] @ literal (U ''<h1>'')
     @ [Open, Lazy any_char, Close] @ literal (U ''</h1>'')\<close>

definition error_text :: "ustr \<Rightarrow> ustr option" where
  \<open>error_text page = Option.bind (after (U ''<section class="error-page">'') page) (\<lambda>s.
     Option.bind (after (U ''<h1>'') s) (before (U ''</h1>'')))\<close>

text \<open>C30: the direct searches are the regular expressions. On every page, the text the model
  takes for a section of the result page, and for the public error, is group 1 of what a
  backtracking match of the source's pattern finds first, and there is none exactly when the
  pattern does not match.\<close>

theorem page_patterns_exact:
  "re_search cd (section_pattern heading) page = map_option (\<lambda>t. [t]) (section_text heading page)
   \<and> re_search cd error_pattern page = map_option (\<lambda>t. [t]) (error_text page)
   \<and> public_error unescape r = map_option (\<lambda>t. strip (unescape t)) (error_text (result_text r))"
proof (intro conjI)
  let ?until = "\<lambda>pat s. map_option (\<lambda>x. [x]) (before pat s)"
  have fu: "?until pat (c # s) = None \<Longrightarrow> ?until pat s = None" for pat c s using before_fails by simp
  have "map_option fst (search_from cd (literal (U ''<h2>'' @ heading @ U ''</h2><pre>'')
      @ [Open, Lazy any_char, Close] @ literal (U ''</pre>'')) None page)
      = Option.bind (after (U ''<h2>'' @ heading @ U ''</h2><pre>'') page) (?until (U ''</pre>''))"
    by (rule search_literal [OF groups_until fu])
  then show "re_search cd (section_pattern heading) page = map_option (\<lambda>t. [t]) (section_text heading page)"
    by (simp add: re_search_def section_pattern_def section_text_def map_option_bind comp_def)
  have l: "groups_at cd (Lazy any_char # literal (U ''<h1>'') @ [Open, Lazy any_char, Close] @ literal (U ''</h1>'')) p s g
      = Option.bind (after (U ''<h1>'') s) (?until (U ''</h1>''))" for p s g
    by (rule groups_lazy [OF groups_until fu])
  have "map_option fst (search_from cd (literal (U ''<section class=\"error-page\">'')
      @ Lazy any_char # literal (U ''<h1>'') @ [Open, Lazy any_char, Close] @ literal (U ''</h1>'')) None page)
      = Option.bind (after (U ''<section class=\"error-page\">'') page) (\<lambda>s. Option.bind (after (U ''<h1>'') s) (?until (U ''</h1>'')))"
    by (rule search_literal [OF l bind_after_fails [OF fu]])
  then show "re_search cd error_pattern page = map_option (\<lambda>t. [t]) (error_text page)"
    by (simp add: re_search_def error_pattern_def error_text_def map_option_bind comp_def)
  show "public_error unescape r = map_option (\<lambda>t. strip (unescape t)) (error_text (result_text r))"
    by (simp add: public_error_def error_text_def)
qed

end
