(* ===== verification/E2E_Network.thy ===== *)
theory E2E_Network
  imports Totp Py_Regex
begin

text \<open>
  What the flows of the HTTP end-to-end runner (e2e/http/run.py) share: the form parser \<open>Forms\<close>, the
  requests of a session and of \<open>requests\<close> itself, the cookie adjustments, \<open>post_form\<close> and the
  runner's \<open>current_totp\<close>. Everything outside the repository is the record \<open>network\<close>. A log of
  the answered requests (\<open>logged\<close>) is what the properties of the flows speak about.
\<close>

section \<open>Forms of a page\<close>

datatype html_event = StartTag ustr "(ustr \<times> ustr option) list" | EndTag ustr

record form =
  form_action :: "ustr option"
  form_values :: "(ustr, ustr option) dict"

record forms_parser =
  parsed_forms :: "(ustr, form) dict"
  current_id :: "ustr option"
  current_action :: "ustr option"
  current_values :: "(ustr, ustr option) dict"

definition dict_of :: "('k \<times> 'v) list \<Rightarrow> ('k, 'v) dict" where
  "dict_of pairs = fold (\<lambda>(k, v). AList.update k v) pairs []"

text \<open>\<open>attributes.get(name, "")\<close> and whether an optional text is true.\<close>

definition attribute :: "(ustr, ustr option) dict \<Rightarrow> string \<Rightarrow> ustr option" where
  "attribute a name = (case map_of a (U name) of None \<Rightarrow> Some [] | Some v \<Rightarrow> v)"

definition true_text :: "ustr option \<Rightarrow> bool" where
  "true_text t \<longleftrightarrow> t \<noteq> None \<and> t \<noteq> Some []"

fun handle_event :: "html_event \<Rightarrow> forms_parser \<Rightarrow> forms_parser" where
  "handle_event (StartTag tag attrs) p =
     (let attributes = dict_of attrs in
      if tag = U ''form'' then
        p\<lparr>current_id := Option.bind (map_of attributes (U ''id'')) id,
          current_action := attribute attributes ''action'', current_values := []\<rparr>
      else if (tag = U ''input'' \<or> tag = U ''button'') \<and> true_text (current_id p) then
        (let name = Option.bind (map_of attributes (U ''name'')) id in
         if true_text name then
           p\<lparr>current_values := AList.update (the name) (attribute attributes ''value'') (current_values p)\<rparr>
         else p)
      else p)"
| "handle_event (EndTag tag) p =
     (if tag = U ''form'' \<and> true_text (current_id p) then
        p\<lparr>parsed_forms := AList.update (the (current_id p))
             \<lparr>form_action = current_action p, form_values = current_values p\<rparr> (parsed_forms p),
          current_id := None, current_action := Some [], current_values := []\<rparr>
      else p)"

definition parse_forms :: "html_event list \<Rightarrow> (ustr, form) dict" where
  "parse_forms events = parsed_forms (fold handle_event events
     \<lparr>parsed_forms = [], current_id = None, current_action = Some [], current_values = []\<rparr>)"

section \<open>Network and session\<close>

record reply =
  status_code :: nat
  reply_url :: ustr
  is_redirect :: bool
  location :: "ustr option"
  reply_text :: ustr

record cookie =
  cookie_domain :: ustr
  cookie_path :: ustr
  cookie_name :: ustr
  cookie_secure :: bool

text \<open>Requests: a GET with headers, with query parameters, or with both; a POST of form data, or of none
  but with headers; a PUT of a JSON body.\<close>

datatype http_call = Get ustr "(ustr, ustr) dict" | GetQuery ustr "(ustr, ustr) dict"
  | GetWith ustr "(ustr, ustr) dict" "(ustr, ustr) dict" | Post ustr "(ustr, ustr option) dict"
  | PostWith ustr "(ustr, ustr) dict" | Put ustr "(ustr, ustr) dict" json

text \<open>
  Why a flow failed, one constructor for each message: \<open>RequestFailed\<close> is any exception of a request,
  \<open>EncodeError\<close> a \<open>UnicodeEncodeError\<close>; \<open>OutOfTurns\<close> is no exception of the code, it says
  that the fuel of a loop was too small.
\<close>

datatype drive_exc = Checked run_exc | RequestFailed | TotpFailed totp_exc | NotRedirected nat
  | NoLocation | EnrolOtp | UnexpectedPage nat ustr | NoCallback
  | MailStatus nat | NotMessageList | NoMailCode | EncodeError | OutOfTurns
  | NoForm | DirectPage nat | NoTerminal | TokenStatus nat | NoToken | NotCompact | BadPayload | NotObject

text \<open>
  What the runner runs against: the servers (\<open>None\<close> for a request that raises), the clocks (the readings of \<open>current_totp\<close>, \<open>time.monotonic\<close>,
  \<open>time.sleep\<close>), the tokenizer of \<open>HTMLParser\<close>, \<open>urljoin\<close>, \<open>urlparse(u).path\<close>, the Unicode
  database and \<open>repr\<close> of lists and dicts.
\<close>

record 'n network =
  send :: "'n \<Rightarrow> cookie list \<Rightarrow> http_call \<Rightarrow> 'n \<times> (cookie list \<times> reply) option"
  clock :: "'n \<Rightarrow> 'n \<times> (rat \<times> rat \<times> rat)"
  monotonic :: "'n \<Rightarrow> 'n \<times> rat"
  sleep :: "'n \<Rightarrow> rat \<Rightarrow> 'n"
  tokenize :: "ustr \<Rightarrow> html_event list"
  urljoin :: "ustr \<Rightarrow> ustr option \<Rightarrow> ustr"
  url_path :: "ustr \<Rightarrow> ustr"
  chars :: char_data
  repr_of :: "json \<Rightarrow> ustr"

text \<open>The module's constants and globals: CLIENT and ISSUER are rebound by other scripts.\<close>

record runner_config =
  alice :: ustr
  alice_password :: ustr
  totp_secret :: ustr
  smtp4dev :: ustr
  wait_timeout :: rat
  admin_username :: ustr
  admin_password :: ustr

record 'n runner =
  net :: 'n
  client_url :: ustr
  issuer_url :: ustr
  last_totp_counter :: "int option"

definition allow_loopback_secure_cookies :: "cookie list \<Rightarrow> cookie list" where
  "allow_loopback_secure_cookies session = map (\<lambda>c.
     if cookie_domain c = U ''keycloak.localhost'' \<or> cookie_domain c = U ''localhost''
        \<or> cookie_domain c = U ''localhost.local''
     then c\<lparr>cookie_secure := False\<rparr> else c) session"

definition request ::
  "'n network \<Rightarrow> 'n runner \<Rightarrow> cookie list \<Rightarrow> http_call \<Rightarrow> drive_exc + ('n runner \<times> cookie list \<times> reply)" where
  "request nw st session call =
     (case send nw (net st) session call of
        (n, None) \<Rightarrow> Inl RequestFailed
      | (n, Some (session', reply)) \<Rightarrow> Inr (st\<lparr>net := n\<rparr>, session', reply))"

text \<open>\<open>{**form.values, **values}\<close> and the address of \<open>post_form\<close>.\<close>

definition post_form :: "'n network \<Rightarrow> reply \<Rightarrow> form \<Rightarrow> (ustr \<times> ustr) list \<Rightarrow> http_call" where
  "post_form nw response f values =
     Post (urljoin nw (reply_url response) (form_action f))
       (fold (\<lambda>(k, v). AList.update k (Some v)) values (form_values f))"

text \<open>\<open>current_totp()\<close> of the runner, with its three clock readings.\<close>

definition next_totp :: "'n network \<Rightarrow> runner_config \<Rightarrow> 'n runner \<Rightarrow> drive_exc + ('n runner \<times> ustr)" where
  "next_totp nw cfg st =
     (case clock nw (net st) of (n, t0, t1, t2) \<Rightarrow>
        (case http_current_totp (totp_secret cfg) (last_totp_counter st) t0 t1 t2 of
           Inl e \<Rightarrow> Inl (TotpFailed e)
         | Inr (code, used, _) \<Rightarrow> Inr (st\<lparr>net := n, last_totp_counter := used\<rparr>, code)))"

text \<open>A call of \<open>requests\<close> itself: a session of its own, so without cookies.\<close>

definition fetch :: "'n network \<Rightarrow> 'n runner \<Rightarrow> http_call \<Rightarrow> drive_exc + ('n runner \<times> reply)" where
  "fetch nw st call = rbind (request nw st [] call) (\<lambda>(st', _, r). Inr (st', r))"

definition json_body :: "py_env \<Rightarrow> reply \<Rightarrow> drive_exc + json" where
  "json_body env r = (case loads env (reply_text r) of Inl e \<Rightarrow> Inl (Checked (RaisedJson e)) | Inr v \<Rightarrow> Inr v)"

abbreviation login_form :: ustr where "login_form \<equiv> U ''kc-form-login''"
abbreviation otp_form :: ustr where "otp_form \<equiv> U ''kc-otp-login-form''"
abbreviation enrol_form :: ustr where "enrol_form \<equiv> U ''kc-totp-settings-form''"

text \<open>The fields of the login form: the password only where the form asks for one.\<close>

definition login_values :: "runner_config \<Rightarrow> form \<Rightarrow> (ustr \<times> ustr) list" where
  "login_values cfg f =
     (if map_of (form_values f) (U ''password'') \<noteq> None
      then [(U ''username'', alice cfg), (U ''password'', alice_password cfg)]
      else [(U ''username'', alice cfg)])"

definition clear_keycloak_cookies :: "cookie list \<Rightarrow> cookie list" where
  "clear_keycloak_cookies session = filter (\<lambda>c. \<not> contains (cookie_domain c) (U ''keycloak'')) session"

section \<open>A log of the requests\<close>

text \<open>The same network, keeping a log of the requests that were answered.\<close>

definition logged :: "'n network \<Rightarrow> ('n \<times> (http_call \<times> reply) list) network" where
  "logged nw =
     \<lparr>send = (\<lambda>(n, exch) c call. case send nw n c call of (n', r) \<Rightarrow>
        ((n', case r of None \<Rightarrow> exch | Some (_, rep) \<Rightarrow> exch @ [(call, rep)]), r)),
      clock = (\<lambda>(n, exch). case clock nw n of (n', t) \<Rightarrow> ((n', exch), t)),
      monotonic = (\<lambda>(n, exch). case monotonic nw n of (n', t) \<Rightarrow> ((n', exch), t)),
      sleep = (\<lambda>(n, exch) d. (sleep nw n d, exch)),
      tokenize = tokenize nw, urljoin = urljoin nw, url_path = url_path nw, chars = chars nw, repr_of = repr_of nw\<rparr>"

lemma logged_simps [simp]:
  "tokenize (logged nw) = tokenize nw" "urljoin (logged nw) = urljoin nw" "url_path (logged nw) = url_path nw"
  "chars (logged nw) = chars nw" "repr_of (logged nw) = repr_of nw"
  by (simp_all add: logged_def)

lemma post_form_logged [simp]: "post_form (logged nw) r f vs = post_form nw r f vs"
  by (simp add: post_form_def)

lemma request_logged:
  assumes "request (logged nw) st session call = Inr (st', s', r)"
  shows "snd (net st') = snd (net st) @ [(call, r)]" "client_url st' = client_url st" "issuer_url st' = issuer_url st"
  using assms by (auto simp: request_def logged_def split: prod.splits option.splits)

lemma next_totp_logged:
  assumes "next_totp (logged nw) cfg st = Inr (st', otp)"
  shows "snd (net st') = snd (net st)" "client_url st' = client_url st" "issuer_url st' = issuer_url st"
  using assms by (auto simp: next_totp_def logged_def split: prod.splits sum.splits)

lemma fetch_logged:
  assumes "fetch (logged nw) st call = Inr (st', r)"
  shows "snd (net st') = snd (net st) @ [(call, r)]" "client_url st' = client_url st" "issuer_url st' = issuer_url st"
  using assms request_logged [of nw st "[]" call] by (auto simp: fetch_def rbind_eq_Inr)

end
