(* ===== verification/E2E_Mail.thy ===== *)
theory E2E_Mail
  imports E2E_Network "HOL-Library.List_Lexorder"
begin

text \<open>
  The e-mail codes of the HTTP end-to-end runner (e2e/http/run.py): \<open>smtp_messages\<close>, \<open>smtp_message_key\<close>,
  \<open>extract_code\<close> and the polling loop of \<open>smtp_verification_code\<close>, which waits until a deadline.

  Proved: on a monotonic clock the wait ends within \<open>\<lceil>TIMEOUT\<rceil> + 1\<close> readings of the deadline; and a code it
  returns has six digits and comes from a marked message that was not in the mailbox before.
\<close>

section \<open>Python values as text\<close>

text \<open>\<open>str(v)\<close>; of lists and dicts it is their \<open>repr\<close>, which the network provides.\<close>

definition float_str :: "ustr \<Rightarrow> ustr" where
  "float_str t = (if t = U ''NaN'' then U ''nan'' else if t = U ''Infinity'' then U ''inf''
     else if t = U ''-Infinity'' then U ''-inf'' else t)"

definition py_str :: "(json \<Rightarrow> ustr) \<Rightarrow> json \<Rightarrow> ustr" where
  "py_str repr v =
     (case v of
        JNull \<Rightarrow> U ''None''
      | JBool b \<Rightarrow> if b then U ''True'' else U ''False''
      | JInt i \<Rightarrow> int_text i
      | JFloat t \<Rightarrow> float_str t
      | JStr s \<Rightarrow> s
      | _ \<Rightarrow> repr v)"

text \<open>\<open>urllib.parse.quote(s, safe="")\<close>; a lone surrogate does not encode.\<close>

definition unreserved :: "nat \<Rightarrow> bool" where
  "unreserved c \<longleftrightarrow> (48 \<le> c \<and> c \<le> 57) \<or> (65 \<le> c \<and> c \<le> 90) \<or> (97 \<le> c \<and> c \<le> 122) \<or> c \<in> {45, 46, 95, 126}"

definition upper_hex :: "nat \<Rightarrow> nat" where
  "upper_hex v = (if v < 10 then 48 + v else 55 + v)"

definition quote :: "ustr \<Rightarrow> ustr option" where
  "quote s = map_option (\<lambda>bs. concat (map (\<lambda>b. let c = unat b in
     if unreserved c then [c] else [37, upper_hex (c div 16), upper_hex (c mod 16)]) bs)) (utf8_encode s)"

text \<open>\<open>message.get(k)\<close>, with \<open>None\<close> for a missing key, and \<open>a or b\<close>.\<close>

definition member_or_none :: "(ustr, json) dict \<Rightarrow> string \<Rightarrow> json" where
  "member_or_none m k = (case map_of m (U k) of None \<Rightarrow> JNull | Some v \<Rightarrow> v)"

definition py_or :: "json \<Rightarrow> json \<Rightarrow> json" where
  "py_or a b = (if truthy a then a else b)"

text \<open>The value \<open>json.dumps\<close> prints with \<open>sort_keys\<close>.\<close>

fun sort_members :: "json \<Rightarrow> json" where
  "sort_members (JArr vs) = JArr (map sort_members vs)"
| "sort_members (JObj ms) = JObj (sort_key fst (map (\<lambda>(k, v). (k, sort_members v)) ms))"
| "sort_members v = v"

definition json_text :: "py_env \<Rightarrow> json \<Rightarrow> drive_exc + ustr" where
  "json_text env v = (case dumps_default env v of Inl e \<Rightarrow> Inl (Checked (RaisedJson e)) | Inr t \<Rightarrow> Inr t)"

section \<open>The mailbox\<close>

definition messages_url :: "runner_config \<Rightarrow> ustr" where
  "messages_url cfg = smtp4dev cfg @ U ''/api/messages''"

definition message_list :: "json \<Rightarrow> json" where
  "message_list payload =
     (case payload of
        JArr vs \<Rightarrow> payload
      | JObj ms \<Rightarrow> py_or (member_or_none ms ''results'') (py_or (member_or_none ms ''messages'')
          (py_or (member_or_none ms ''items'') (JArr [])))
      | _ \<Rightarrow> JArr [])"

definition objects_of :: "json list \<Rightarrow> (ustr, json) dict list" where
  "objects_of vs = List.map_filter (\<lambda>v. case v of JObj m \<Rightarrow> Some m | _ \<Rightarrow> None) vs"

definition smtp_messages ::
  "py_env \<Rightarrow> 'n network \<Rightarrow> runner_config \<Rightarrow> 'n runner \<Rightarrow> drive_exc + ('n runner \<times> (ustr, json) dict list)" where
  "smtp_messages env nw cfg st =
     rbind (fetch nw st (Get (messages_url cfg) [])) (\<lambda>(st', response).
       if status_code response \<noteq> 200 then Inl (MailStatus (status_code response))
       else rbind (json_body env response) (\<lambda>payload.
         case message_list payload of JArr vs \<Rightarrow> Inr (st', objects_of vs) | _ \<Rightarrow> Inl NotMessageList))"

definition message_id :: "(ustr, json) dict \<Rightarrow> json" where
  "message_id message = py_or (member_or_none message ''id'') (member_or_none message ''guid'')"

definition smtp_message_key :: "py_env \<Rightarrow> (json \<Rightarrow> ustr) \<Rightarrow> (ustr, json) dict \<Rightarrow> drive_exc + ustr" where
  "smtp_message_key env repr message =
     (if truthy (message_id message) then Inr (py_str repr (message_id message))
      else json_text env (sort_members (JObj message)))"

section \<open>The code in a message\<close>

definition six_digits :: "char_data \<Rightarrow> item list" where
  "six_digits cd = Open # replicate 6 (One (is_decimal cd)) @ [Close]"

definition code_patterns :: "char_data \<Rightarrow> item list list" where
  "code_patterns cd =
     [literal_ignorecase (U ''verification code'') @ [Many 1 is_space] @ literal_ignorecase (U ''is'')
        @ [Many 0 is_space] @ literal_ignorecase (U '':'') @ [Many 0 is_space] @ six_digits cd,
      literal_ignorecase (U ''verification code'') @ [Many 1 is_space] @ literal_ignorecase (U ''is'')
        @ [Many 1 is_space] @ literal_ignorecase (U ''<'') @ [Many 1 (\<lambda>c. c \<noteq> 62)] @ literal_ignorecase (U ''>'')
        @ [Many 0 is_space] @ six_digits cd]"

definition extract_code :: "char_data \<Rightarrow> ustr \<Rightarrow> ustr option" where
  "extract_code cd body = first_some (\<lambda>r. map_option hd (re_search cd r body)) (code_patterns cd)"

text \<open>
  The body of the loop for one unseen, marked message: the raw source of the message, then the
  details the server has, then the listed message itself.
\<close>

definition raw_code ::
  "'n network \<Rightarrow> 'n runner \<Rightarrow> ustr \<Rightarrow> drive_exc + ('n runner \<times> ustr option)" where
  "raw_code nw st url =
     rbind (fetch nw st (Get (url @ U ''/raw'') [])) (\<lambda>(st', response).
       Inr (st', if status_code response = 200 then extract_code (chars nw) (reply_text response) else None))"

definition detail_message ::
  "py_env \<Rightarrow> 'n network \<Rightarrow> 'n runner \<Rightarrow> ustr \<Rightarrow> (ustr, json) dict \<Rightarrow> drive_exc + ('n runner \<times> (ustr, json) dict)" where
  "detail_message env nw st url message =
     rbind (fetch nw st (Get url [])) (\<lambda>(st', response).
       if status_code response = 200 then
         rbind (json_body env response) (\<lambda>candidate. Inr (st', case candidate of JObj d \<Rightarrow> d | _ \<Rightarrow> message))
       else Inr (st', message))"

definition listed_code ::
  "py_env \<Rightarrow> 'n network \<Rightarrow> 'n runner \<Rightarrow> (ustr, json) dict \<Rightarrow> drive_exc + ('n runner \<times> ustr option)" where
  "listed_code env nw st detail =
     rbind (json_text env (JObj detail)) (\<lambda>t. Inr (st, extract_code (chars nw) t))"

definition message_code ::
  "py_env \<Rightarrow> 'n network \<Rightarrow> runner_config \<Rightarrow> 'n runner \<Rightarrow> (ustr, json) dict \<Rightarrow> drive_exc + ('n runner \<times> ustr option)" where
  "message_code env nw cfg st message =
     (if message_id message = JNull then listed_code env nw st message
      else case quote (py_str (repr_of nw) (message_id message)) of
        None \<Rightarrow> Inl EncodeError
      | Some encoded_id \<Rightarrow>
          (let url = messages_url cfg @ U ''/'' @ encoded_id in
           rbind (raw_code nw st url) (\<lambda>(st1, code).
             if code \<noteq> None then Inr (st1, code)
             else rbind (detail_message env nw st1 url message) (\<lambda>(st2, detail). listed_code env nw st2 detail))))"

definition mail_marker :: ustr where
  "mail_marker = U ''OIDC4AC verification code''"

fun scan_messages ::
  "py_env \<Rightarrow> 'n network \<Rightarrow> runner_config \<Rightarrow> ustr list \<Rightarrow> 'n runner \<Rightarrow> (ustr, json) dict list
     \<Rightarrow> drive_exc + ('n runner \<times> ustr option)" where
  "scan_messages env nw cfg previous st [] = Inr (st, None)"
| "scan_messages env nw cfg previous st (message # messages) =
     rbind (smtp_message_key env (repr_of nw) message) (\<lambda>key.
       if key \<in> set previous then scan_messages env nw cfg previous st messages
       else rbind (json_text env (JObj message)) (\<lambda>t.
         if \<not> contains t mail_marker then scan_messages env nw cfg previous st messages
         else rbind (message_code env nw cfg st message) (\<lambda>(st', code).
           if code \<noteq> None then Inr (st', code) else scan_messages env nw cfg previous st' messages)))"

section \<open>Waiting for a code\<close>

text \<open>The loop until the deadline; its fuel counts the readings of the clock.\<close>

fun poll_mail ::
  "nat \<Rightarrow> py_env \<Rightarrow> 'n network \<Rightarrow> runner_config \<Rightarrow> ustr list \<Rightarrow> rat \<Rightarrow> 'n runner \<Rightarrow> drive_exc + ('n runner \<times> ustr)" where
  "poll_mail 0 env nw cfg previous deadline st = Inl OutOfTurns"
| "poll_mail (Suc fuel) env nw cfg previous deadline st =
     (case monotonic nw (net st) of (n, now) \<Rightarrow>
        if \<not> now < deadline then Inl NoMailCode
        else rbind (smtp_messages env nw cfg (st\<lparr>net := n\<rparr>)) (\<lambda>(st1, messages).
          rbind (scan_messages env nw cfg previous st1 messages) (\<lambda>(st2, code).
            case code of
              Some c \<Rightarrow> Inr (st2, c)
            | None \<Rightarrow> poll_mail fuel env nw cfg previous deadline (st2\<lparr>net := sleep nw (net st2) 1\<rparr>))))"

definition mail_turns :: "runner_config \<Rightarrow> nat" where
  "mail_turns cfg = nat \<lceil>wait_timeout cfg\<rceil> + 1"

definition smtp_verification_code ::
  "py_env \<Rightarrow> 'n network \<Rightarrow> runner_config \<Rightarrow> ustr list \<Rightarrow> 'n runner \<Rightarrow> drive_exc + ('n runner \<times> ustr)" where
  "smtp_verification_code env nw cfg previous st =
     (case monotonic nw (net st) of (n, now) \<Rightarrow>
        poll_mail (mail_turns cfg) env nw cfg previous (now + wait_timeout cfg) (st\<lparr>net := n\<rparr>))"

text \<open>\<open>{smtp_message_key(message) for message in smtp_messages()}\<close>\<close>

fun message_keys :: "py_env \<Rightarrow> (json \<Rightarrow> ustr) \<Rightarrow> (ustr, json) dict list \<Rightarrow> drive_exc + ustr list" where
  "message_keys env repr [] = Inr []"
| "message_keys env repr (m # ms) =
     rbind (smtp_message_key env repr m) (\<lambda>k. rbind (message_keys env repr ms) (\<lambda>ks. Inr (k # ks)))"

section \<open>The wait ends\<close>

text \<open>
  What is relied on of the clocks: \<open>time.monotonic\<close> never goes back and \<open>time.sleep(d)\<close> lasts at
  least \<open>d\<close> seconds; \<open>now\<close> is the reading it would give in a state.
\<close>

definition clock_ok :: "'n network \<Rightarrow> ('n \<Rightarrow> rat) \<Rightarrow> bool" where
  "clock_ok nw now \<longleftrightarrow>
     (\<forall>n. now n \<le> snd (monotonic nw n) \<and> snd (monotonic nw n) \<le> now (fst (monotonic nw n)))
     \<and> (\<forall>n d. now n + d \<le> now (sleep nw n d)) \<and> (\<forall>n s c. now n \<le> now (fst (send nw n s c)))"

lemma fetch_later:
  "clock_ok nw now \<Longrightarrow> fetch nw st call = Inr (st', r) \<Longrightarrow> now (net st) \<le> now (net st')"
proof -
  assume c: "clock_ok nw now" and "fetch nw st call = Inr (st', r)"
  then obtain n s where "send nw (net st) [] call = (n, Some (s, r))" "st' = st\<lparr>net := n\<rparr>"
    by (auto simp: fetch_def request_def rbind_eq_Inr split: prod.splits option.splits)
  moreover have "now (net st) \<le> now (fst (send nw (net st) [] call))" using c unfolding clock_ok_def by blast
  ultimately show ?thesis by simp
qed

lemma fetch_turns: "fetch nw st call \<noteq> Inl OutOfTurns"
  by (auto simp: fetch_def request_def rbind_eq_Inl split: prod.splits option.splits)

lemma json_turns [simp]: "json_body env r \<noteq> Inl OutOfTurns" "json_text env v \<noteq> Inl OutOfTurns"
  by (simp_all add: json_body_def json_text_def split: sum.splits)

lemma messages_case:
  "(case message_list x of JArr vs \<Rightarrow> Inr (st', objects_of vs) | _ \<Rightarrow> Inl NotMessageList) = Inr (st'', ms)
     \<longleftrightarrow> (\<exists>vs. message_list x = JArr vs \<and> st' = st'' \<and> ms = objects_of vs)"
  by (cases "message_list x") auto

lemma messages_turns:
  "(case message_list x of JArr vs \<Rightarrow> Inr (st', objects_of vs) | _ \<Rightarrow> Inl NotMessageList) \<noteq> Inl OutOfTurns"
  by (cases "message_list x") auto

lemma smtp_messages_Inr:
  "smtp_messages env nw cfg st = Inr (st', ms) \<longleftrightarrow>
     (\<exists>r payload vs. fetch nw st (Get (messages_url cfg) []) = Inr (st', r) \<and> status_code r = 200
        \<and> json_body env r = Inr payload \<and> message_list payload = JArr vs \<and> ms = objects_of vs)"
  by (auto simp: smtp_messages_def rbind_eq_Inr messages_case split del: json.split)

lemma smtp_messages_later:
  assumes "clock_ok nw now"
  shows "smtp_messages env nw cfg st \<noteq> Inl OutOfTurns"
    "smtp_messages env nw cfg st = Inr (st', ms) \<Longrightarrow> now (net st) \<le> now (net st')"
proof -
  show "smtp_messages env nw cfg st \<noteq> Inl OutOfTurns"
    using fetch_turns [of nw st] by (auto simp: smtp_messages_def rbind_eq_Inl messages_turns)
  show "smtp_messages env nw cfg st = Inr (st', ms) \<Longrightarrow> now (net st) \<le> now (net st')"
    using fetch_later [OF assms, of st] by (auto simp: smtp_messages_Inr)
qed

lemma listed_code_state: "listed_code env nw st detail = Inr (st', c) \<Longrightarrow> st' = st"
  by (auto simp: listed_code_def rbind_eq_Inr)

lemma raw_code_later:
  assumes "clock_ok nw now"
  shows "raw_code nw st url \<noteq> Inl OutOfTurns"
    "raw_code nw st url = Inr (st', c) \<Longrightarrow> now (net st) \<le> now (net st')"
  using fetch_turns [of nw st] fetch_later [OF assms, of st] by (auto simp: raw_code_def rbind_eq_Inl rbind_eq_Inr)

lemma detail_message_later:
  assumes "clock_ok nw now"
  shows "detail_message env nw st url m \<noteq> Inl OutOfTurns"
    "detail_message env nw st url m = Inr (st', d) \<Longrightarrow> now (net st) \<le> now (net st')"
  using fetch_turns [of nw st] fetch_later [OF assms, of st]
  by (auto simp: detail_message_def rbind_eq_Inl rbind_eq_Inr split: if_splits)

lemma message_code_later:
  assumes "clock_ok nw now"
  shows "message_code env nw cfg st m \<noteq> Inl OutOfTurns"
    "message_code env nw cfg st m = Inr (st', c) \<Longrightarrow> now (net st) \<le> now (net st')"
proof -
  have l: "listed_code env nw st d \<noteq> Inl OutOfTurns" for st d
    by (auto simp: listed_code_def rbind_eq_Inl)
  note later = raw_code_later [OF assms] detail_message_later [OF assms]
  show "message_code env nw cfg st m \<noteq> Inl OutOfTurns"
    using l later(1,3) by (auto simp: message_code_def Let_def rbind_eq_Inl split: option.splits if_splits)
  assume "message_code env nw cfg st m = Inr (st', c)"
  then show "now (net st) \<le> now (net st')"
    using later(2,4) by (fastforce simp: message_code_def Let_def rbind_eq_Inr split: option.splits if_splits dest: listed_code_state)
qed

lemma scan_messages_later:
  assumes "clock_ok nw now"
  shows "scan_messages env nw cfg previous st ms \<noteq> Inl OutOfTurns"
    "scan_messages env nw cfg previous st ms = Inr (st', c) \<Longrightarrow> now (net st) \<le> now (net st')"
proof (induction ms arbitrary: st st' c)
  case (Cons m ms)
  note later = message_code_later [OF assms, of env cfg _ m]
  {
    case 1
    show ?case using Cons.IH(1) later(1)
      by (auto simp: rbind_eq_Inl smtp_message_key_def split: if_splits)
  next
    case 2
    then show ?case using Cons.IH(2) later(2) by (fastforce simp: rbind_eq_Inr split: if_splits)
  }
qed auto

text \<open>Every turn but the last ends with a second of sleep.\<close>

lemma poll_mail_turns:
  assumes clock: "clock_ok nw now"
  shows "deadline - now (net st) \<le> rat_of_nat k \<Longrightarrow> k < fuel \<Longrightarrow>
    poll_mail fuel env nw cfg previous deadline st \<noteq> Inl OutOfTurns
    \<and> poll_mail fuel env nw cfg previous deadline st = poll_mail (Suc k) env nw cfg previous deadline st"
proof (induction k arbitrary: fuel st)
  case 0
  obtain n t where m: "monotonic nw (net st) = (n, t)" by (cases "monotonic nw (net st)")
  then have "now (net st) \<le> t" using clock unfolding clock_ok_def by (metis snd_conv)
  with 0 m show ?case by (cases fuel) auto
next
  case (Suc k)
  obtain n t where m: "monotonic nw (net st) = (n, t)" by (cases "monotonic nw (net st)")
  then have t: "now (net st) \<le> now n" using clock unfolding clock_ok_def by (metis fst_conv order_trans snd_conv)
  obtain f where f: "fuel = Suc f" "k < f" using Suc.prems(2) by (cases fuel) auto
  note msgs = smtp_messages_later [OF clock, of env cfg "st\<lparr>net := n\<rparr>"]
  note scan = scan_messages_later [OF clock, of env cfg previous]
  have step: "poll_mail f env nw cfg previous deadline (st2\<lparr>net := sleep nw (net st2) 1\<rparr>) \<noteq> Inl OutOfTurns
      \<and> poll_mail f env nw cfg previous deadline (st2\<lparr>net := sleep nw (net st2) 1\<rparr>)
        = poll_mail (Suc k) env nw cfg previous deadline (st2\<lparr>net := sleep nw (net st2) 1\<rparr>)"
    if a: "smtp_messages env nw cfg (st\<lparr>net := n\<rparr>) = Inr (st1, ms)" "scan_messages env nw cfg previous st1 ms = Inr (st2, c)"
    for st1 ms st2 c
  proof (rule Suc.IH [OF _ f(2)])
    have "now (net st) \<le> now (net st2)" using t msgs(2) [OF a(1)] scan(2) [OF a(2)] by simp
    moreover have "now (net st2) + 1 \<le> now (sleep nw (net st2) 1)" using clock unfolding clock_ok_def by blast
    ultimately show "deadline - now (net (st2\<lparr>net := sleep nw (net st2) 1\<rparr>)) \<le> rat_of_nat k"
      using Suc.prems(1) by simp
  qed
  show ?case
  proof (cases "t < deadline")
    case True
    show ?thesis
    proof (cases "smtp_messages env nw cfg (st\<lparr>net := n\<rparr>)")
      case (Inl e)
      then show ?thesis using msgs(1) m True f(1) by auto
    next
      case (Inr p)
      obtain st1 ms where p: "p = (st1, ms)" by (cases p)
      show ?thesis
      proof (cases "scan_messages env nw cfg previous st1 ms")
        case (Inl e)
        then show ?thesis using scan(1) [of st1 ms] Inr p m True f(1) by auto
      next
        case i: (Inr q)
        obtain st2 c where q: "q = (st2, c)" by (cases q)
        then have run: "poll_mail (Suc f') env nw cfg previous deadline st = (case c of Some c \<Rightarrow> Inr (st2, c)
            | None \<Rightarrow> poll_mail f' env nw cfg previous deadline (st2\<lparr>net := sleep nw (net st2) 1\<rparr>))" for f'
          using m True Inr p i by simp
        show ?thesis
          using step [OF Inr [unfolded p] i [unfolded q]] unfolding f(1) run by (cases c) auto
      qed
    qed
  qed (use m f(1) in simp)
qed

section \<open>Where a code comes from\<close>

definition mail_call :: "runner_config \<Rightarrow> http_call \<Rightarrow> bool" where
  "mail_call cfg call \<longleftrightarrow> (\<exists>u. call = Get u [] \<and> startswith u (messages_url cfg))"

text \<open>The raw source, the details or the listed form of a message, as the polls returned them, has the code.\<close>

definition mail_source ::
  "py_env \<Rightarrow> 'n network \<Rightarrow> runner_config \<Rightarrow> (http_call \<times> reply) list \<Rightarrow> (ustr, json) dict \<Rightarrow> ustr \<Rightarrow> bool" where
  "mail_source env nw cfg polls message code \<longleftrightarrow>
     (\<exists>t. extract_code (chars nw) t = Some code \<and>
        (json_text env (JObj message) = Inr t
         \<or> (\<exists>e r. quote (py_str (repr_of nw) (message_id message)) = Some e \<and> status_code r = 200 \<and>
              ((Get (messages_url cfg @ U ''/'' @ e @ U ''/raw'') [], r) \<in> set polls \<and> t = reply_text r
               \<or> (Get (messages_url cfg @ U ''/'' @ e) [], r) \<in> set polls
                  \<and> (\<exists>d. json_body env r = Inr (JObj d) \<and> json_text env (JObj d) = Inr t)))))"

text \<open>A message that was listed, is marked and has a key that is not among the previous ones.\<close>

definition new_mail ::
  "py_env \<Rightarrow> 'n network \<Rightarrow> ustr list \<Rightarrow> (ustr, json) dict \<Rightarrow> bool" where
  "new_mail env nw previous message \<longleftrightarrow>
     (\<exists>k. smtp_message_key env (repr_of nw) message = Inr k \<and> k \<notin> set previous)
     \<and> (\<exists>t. json_text env (JObj message) = Inr t \<and> contains t mail_marker)"

definition listed ::
  "py_env \<Rightarrow> runner_config \<Rightarrow> (http_call \<times> reply) list \<Rightarrow> (ustr, json) dict \<Rightarrow> bool" where
  "listed env cfg polls message \<longleftrightarrow>
     (\<exists>r payload vs. (Get (messages_url cfg) [], r) \<in> set polls \<and> status_code r = 200
        \<and> json_body env r = Inr payload \<and> message_list payload = JArr vs \<and> JObj message \<in> set vs)"

lemma objects_of_set: "m \<in> set (objects_of vs) \<longleftrightarrow> JObj m \<in> set vs"
proof (induction vs)
  case (Cons v vs)
  then show ?case by (cases v) (auto simp: objects_of_def map_filter_simps)
qed (simp add: objects_of_def map_filter_simps)

lemma source_mono:
  "set polls \<subseteq> set polls' \<Longrightarrow> mail_source env nw cfg polls m c \<Longrightarrow> mail_source env nw cfg polls' m c"
  "set polls \<subseteq> set polls' \<Longrightarrow> listed env cfg polls m \<Longrightarrow> listed env cfg polls' m"
  unfolding mail_source_def listed_def by blast+

lemma mail_calls [simp]: "mail_call cfg (Get (messages_url cfg) [])" "mail_call cfg (Get (messages_url cfg @ u) [])"
  by (simp_all add: mail_call_def startswith_iff)

lemma raw_code_logged:
  assumes "raw_code (logged nw) st url = Inr (st', c)"
  shows "\<exists>r. snd (net st') = snd (net st) @ [(Get (url @ U ''/raw'') [], r)]
    \<and> (c = None \<or> status_code r = 200 \<and> extract_code (chars nw) (reply_text r) = c)"
proof -
  from assms obtain r where r: "fetch (logged nw) st (Get (url @ U ''/raw'') []) = Inr (st', r)"
    "c = (if status_code r = 200 then extract_code (chars nw) (reply_text r) else None)"
    by (auto simp: raw_code_def rbind_eq_Inr)
  then show ?thesis using fetch_logged(1) [OF r(1)] by (intro exI [of _ r]) auto
qed

lemma detail_message_logged:
  assumes "detail_message env (logged nw) st url m = Inr (st', d)"
  shows "\<exists>r. snd (net st') = snd (net st) @ [(Get url [], r)]
    \<and> (d = m \<or> status_code r = 200 \<and> json_body env r = Inr (JObj d))"
proof -
  have c: "(case x of JObj d \<Rightarrow> d | _ \<Rightarrow> m) = m \<or> x = JObj (case x of JObj d \<Rightarrow> d | _ \<Rightarrow> m)" for x by (cases x) auto
  from assms obtain r where r: "fetch (logged nw) st (Get url []) = Inr (st', r)"
    "d = m \<or> status_code r = 200 \<and> json_body env r = Inr (JObj d)"
    by (auto simp: detail_message_def rbind_eq_Inr split: if_splits) (use c in blast)+
  then show ?thesis using fetch_logged(1) [OF r(1)] by (intro exI [of _ r]) auto
qed

lemma listed_code_Inr:
  "listed_code env nw st d = Inr (st', c) \<longleftrightarrow>
     st' = st \<and> (\<exists>t. json_text env (JObj d) = Inr t \<and> extract_code (chars nw) t = c)"
  by (auto simp: listed_code_def rbind_eq_Inr)

lemma message_code_logged:
  assumes "message_code env (logged nw) cfg st m = Inr (st', c)"
  shows "\<exists>polls. snd (net st') = snd (net st) @ polls \<and> (\<forall>e \<in> set polls. mail_call cfg (fst e))
    \<and> (\<forall>code. c = Some code \<longrightarrow> mail_source env nw cfg polls m code)"
proof (cases "message_id m = JNull")
  case True
  with assms show ?thesis
    by (intro exI [of _ "[]"]) (auto simp: message_code_def listed_code_Inr mail_source_def)
next
  case False
  with assms obtain e where e: "quote (py_str (repr_of nw) (message_id m)) = Some e"
    by (auto simp: message_code_def split: option.splits)
  let ?url = "messages_url cfg @ U ''/'' @ e"
  from assms False e obtain st1 c1 where r: "raw_code (logged nw) st ?url = Inr (st1, c1)"
    and next_step: "if c1 \<noteq> None then st' = st1 \<and> c = c1
      else \<exists>st2 d. detail_message env (logged nw) st1 ?url m = Inr (st2, d) \<and> listed_code env (logged nw) st2 d = Inr (st', c)"
    by (auto simp: message_code_def Let_def rbind_eq_Inr split: if_splits)
  from raw_code_logged [OF r] obtain r1 where r1: "snd (net st1) = snd (net st) @ [(Get (?url @ U ''/raw'') [], r1)]"
    "c1 = None \<or> status_code r1 = 200 \<and> extract_code (chars nw) (reply_text r1) = c1" by blast
  show ?thesis
  proof (cases c1)
    case (Some code)
    have "mail_source env nw cfg [(Get (?url @ U ''/raw'') [], r1)] m code"
      using r1(2) Some e unfolding mail_source_def by (intro exI [of _ "reply_text r1"]) auto
    with next_step Some r1(1) show ?thesis by (intro exI [of _ "[(Get (?url @ U ''/raw'') [], r1)]"]) auto
  next
    case None
    with next_step obtain st2 d where d: "detail_message env (logged nw) st1 ?url m = Inr (st2, d)"
      "listed_code env (logged nw) st2 d = Inr (st', c)" by auto
    from detail_message_logged [OF d(1)] obtain r2 where r2: "snd (net st2) = snd (net st1) @ [(Get ?url [], r2)]"
      "d = m \<or> status_code r2 = 200 \<and> json_body env r2 = Inr (JObj d)" by blast
    let ?polls = "[(Get (?url @ U ''/raw'') [], r1), (Get ?url [], r2)]"
    from d(2) obtain t where t: "st' = st2" "json_text env (JObj d) = Inr t" "extract_code (chars nw) t = c"
      by (auto simp: listed_code_Inr)
    have "mail_source env nw cfg ?polls m code" if "c = Some code" for code
      using r2(2)
    proof
      assume "d = m"
      with t that show ?thesis unfolding mail_source_def by blast
    next
      assume "status_code r2 = 200 \<and> json_body env r2 = Inr (JObj d)"
      with t that e show ?thesis
        unfolding mail_source_def by (intro exI [of _ t] conjI disjI2 exI [of _ e] exI [of _ r2]) auto
    qed
    with t(1) r1(1) r2(1) show ?thesis by (intro exI [of _ ?polls]) auto
  qed
qed

lemma scan_messages_logged:
  "scan_messages env (logged nw) cfg previous st ms = Inr (st', c) \<Longrightarrow>
     \<exists>polls. snd (net st') = snd (net st) @ polls \<and> (\<forall>e \<in> set polls. mail_call cfg (fst e))
       \<and> (\<forall>code. c = Some code \<longrightarrow> (\<exists>m \<in> set ms. new_mail env nw previous m \<and> mail_source env nw cfg polls m code))"
proof (induction ms arbitrary: st)
  case (Cons m ms)
  show ?case
  proof (cases "scan_messages env (logged nw) cfg previous st ms = Inr (st', c)")
    case True
    from Cons.IH [OF this] show ?thesis by fastforce
  next
    case False
    with Cons.prems obtain k t st1 c1 where f: "smtp_message_key env (repr_of nw) m = Inr k" "k \<notin> set previous"
      "json_text env (JObj m) = Inr t" "contains t mail_marker" "message_code env (logged nw) cfg st m = Inr (st1, c1)"
      "if c1 \<noteq> None then st' = st1 \<and> c = c1 else scan_messages env (logged nw) cfg previous st1 ms = Inr (st', c)"
      by (auto simp: rbind_eq_Inr split: if_splits)
    from message_code_logged [OF f(5)] obtain p1 where p1: "snd (net st1) = snd (net st) @ p1"
      "\<forall>e \<in> set p1. mail_call cfg (fst e)" "\<forall>code. c1 = Some code \<longrightarrow> mail_source env nw cfg p1 m code" by blast
    show ?thesis
    proof (cases c1)
      case (Some code)
      with f p1 show ?thesis by (intro exI [of _ p1]) (auto simp: new_mail_def)
    next
      case None
      with f(6) have "scan_messages env (logged nw) cfg previous st1 ms = Inr (st', c)" by simp
      from Cons.IH [OF this] obtain p2 where p2: "snd (net st') = snd (net st1) @ p2" "\<forall>e \<in> set p2. mail_call cfg (fst e)"
        "\<forall>code. c = Some code \<longrightarrow> (\<exists>m \<in> set ms. new_mail env nw previous m \<and> mail_source env nw cfg p2 m code)" by blast
      have "\<exists>m' \<in> set (m # ms). new_mail env nw previous m' \<and> mail_source env nw cfg (p1 @ p2) m' code" if "c = Some code" for code
        using p2(3) that source_mono(1) [of p2 "p1 @ p2"] by fastforce
      with p1 p2 show ?thesis by (intro exI [of _ "p1 @ p2"]) auto
    qed
  qed
qed auto

lemma poll_mail_logged:
  "poll_mail fuel env (logged nw) cfg previous deadline st = Inr (st', code) \<Longrightarrow>
     \<exists>polls m. snd (net st') = snd (net st) @ polls \<and> (\<forall>e \<in> set polls. mail_call cfg (fst e))
       \<and> listed env cfg polls m \<and> new_mail env nw previous m \<and> mail_source env nw cfg polls m code"
proof (induction fuel arbitrary: st)
  case (Suc fuel)
  obtain n t where n: "monotonic (logged nw) (net st) = (n, t)" by (cases "monotonic (logged nw) (net st)")
  then have sn: "snd n = snd (net st)" by (auto simp: logged_def split: prod.splits)
  from Suc.prems n obtain st1 ms st2 c where a:
    "smtp_messages env (logged nw) cfg (st\<lparr>net := n\<rparr>) = Inr (st1, ms)"
    "scan_messages env (logged nw) cfg previous st1 ms = Inr (st2, c)"
    "case c of Some c \<Rightarrow> st' = st2 \<and> code = c
       | None \<Rightarrow> poll_mail fuel env (logged nw) cfg previous deadline (st2\<lparr>net := sleep (logged nw) (net st2) 1\<rparr>) = Inr (st', code)"
    by (auto simp: rbind_eq_Inr split: if_splits option.splits)
  from a(1) obtain r payload vs where l: "fetch (logged nw) (st\<lparr>net := n\<rparr>) (Get (messages_url cfg) []) = Inr (st1, r)"
    "status_code r = 200" "json_body env r = Inr payload" "message_list payload = JArr vs" "ms = objects_of vs"
    by (auto simp: smtp_messages_Inr)
  have l1: "snd (net st1) = snd (net st) @ [(Get (messages_url cfg) [], r)]" using fetch_logged(1) [OF l(1)] sn by simp
  from scan_messages_logged [OF a(2)] obtain p where p: "snd (net st2) = snd (net st1) @ p"
    "\<forall>e \<in> set p. mail_call cfg (fst e)"
    "\<forall>code. c = Some code \<longrightarrow> (\<exists>m \<in> set ms. new_mail env nw previous m \<and> mail_source env nw cfg p m code)" by blast
  let ?q = "(Get (messages_url cfg) [], r) # p"
  show ?case
  proof (cases c)
    case (Some c')
    with a(3) p(3) obtain m where m: "st' = st2" "m \<in> set ms" "new_mail env nw previous m" "mail_source env nw cfg p m code" by auto
    have "listed env cfg ?q m" using l m(2) unfolding listed_def by (auto simp: objects_of_set)
    moreover have "mail_source env nw cfg ?q m code" using source_mono(1) [OF _ m(4), of ?q] by auto
    ultimately show ?thesis using m(1,3) l1 p(1,2) by (intro exI [of _ ?q] exI [of _ m]) auto
  next
    case None
    with a(3) have "poll_mail fuel env (logged nw) cfg previous deadline (st2\<lparr>net := sleep (logged nw) (net st2) 1\<rparr>) = Inr (st', code)"
      by simp
    from Suc.IH [OF this] obtain q m where q: "snd (net st') = snd (sleep (logged nw) (net st2) 1) @ q"
      "\<forall>e \<in> set q. mail_call cfg (fst e)" "listed env cfg q m" "new_mail env nw previous m" "mail_source env nw cfg q m code"
      by auto
    have s: "snd (sleep (logged nw) (net st2) 1) = snd (net st2)" by (auto simp: logged_def split: prod.splits)
    have sub: "set q \<subseteq> set (?q @ q)" by auto
    show ?thesis
      using q(1,2,4) s p(1,2) l1 source_mono(1) [OF sub q(5)] source_mono(2) [OF sub q(3)]
      by (intro exI [of _ "?q @ q"] exI [of _ m]) auto
  qed
qed simp

section \<open>The form of a code\<close>

lemma match_append:
  "match_here cd (r @ q) p s g = Some (gs, p1, t) \<Longrightarrow> \<forall>a \<in> set r. a \<noteq> Open \<and> a \<noteq> Close \<Longrightarrow>
     \<exists>p2 s2. match_here cd q p2 s2 g = Some (gs, p1, t)"
proof (induction r arbitrary: p s)
  case (Cons a r)
  then show ?case
    by (cases a) (auto simp del: upt_Suc split: list.split_asm if_splits dest!: first_some_Some)
qed auto

lemma match_repeat:
  "match_here cd (replicate n (One c) @ [Close]) p s g = Some (gs, p1, t) \<Longrightarrow>
     gs = [take (length g - length t) g] \<and> length s = n + length t \<and> (\<forall>x \<in> set (take n s). c x)"
proof (induction n arbitrary: p s)
  case (Suc n)
  from Suc.prems obtain x t' where x: "s = x # t'" "c x"
    "match_here cd (replicate n (One c) @ [Close]) (Some x) t' g = Some (gs, p1, t)"
    by (cases s) (auto split: if_splits)
  from Suc.IH [OF x(3)] x(1,2) show ?case by simp
qed simp

lemma match_code:
  assumes "match_here cd (r @ six_digits cd) p s g = Some (gs, p1, t)" "\<forall>a \<in> set r. a \<noteq> Open \<and> a \<noteq> Close"
  shows "\<exists>w. gs = [w] \<and> length w = 6 \<and> (\<forall>x \<in> set w. is_decimal cd x)"
proof -
  from match_append [OF assms] obtain p2 s2 where "match_here cd (six_digits cd) p2 s2 g = Some (gs, p1, t)" by blast
  then have m: "match_here cd (replicate 6 (One (is_decimal cd)) @ [Close]) p2 s2 s2 = Some (gs, p1, t)"
    by (simp only: six_digits_def append_Cons append_Nil match_here.simps item.case)
  from match_repeat [OF m] show ?thesis by auto
qed

lemma search_from_match: "search_from cd r p s = Some m \<Longrightarrow> \<exists>p' s' g. match_here cd r p' s' g = Some m"
  by (induction cd r p s rule: search_from.induct) (auto split: option.splits)

lemma literal_parens [simp]: "Open \<notin> set (literal_ignorecase x)" "Close \<notin> set (literal_ignorecase x)"
  by (auto simp: literal_ignorecase_def)

lemma code_prefix:
  assumes "r \<in> set (code_patterns cd)"
  shows "\<exists>r0. r = r0 @ six_digits cd \<and> (\<forall>a \<in> set r0. a \<noteq> Open \<and> a \<noteq> Close)"
proof -
  have "\<forall>r \<in> set (code_patterns cd). \<exists>r0. r = r0 @ six_digits cd \<and> Open \<notin> set r0 \<and> Close \<notin> set r0"
    unfolding code_patterns_def list.set ball_simps
    by (intro conjI TrueI; simp only: append_assoc [symmetric]; rule exI; rule conjI, rule refl; simp)
  with assms show ?thesis by blast
qed

lemma extract_code_digits:
  assumes "extract_code cd body = Some code"
  shows "length code = 6 \<and> (\<forall>x \<in> set code. is_decimal cd x)"
proof -
  have d: "\<exists>w. gs = [w] \<and> length w = 6 \<and> (\<forall>x \<in> set w. is_decimal cd x)"
    if "re_search cd (r @ six_digits cd) body = Some gs" "\<forall>a \<in> set r. a \<noteq> Open \<and> a \<noteq> Close" for r gs
  proof -
    from that(1) obtain p t where "search_from cd (r @ six_digits cd) None body = Some (gs, p, t)"
      by (auto simp: re_search_def)
    then obtain p' s' g where "match_here cd (r @ six_digits cd) p' s' g = Some (gs, p, t)"
      using search_from_match by blast
    from match_code [OF this that(2)] show ?thesis .
  qed
  from first_some_Some [OF assms [unfolded extract_code_def]] obtain r gs where
    "r \<in> set (code_patterns cd)" "re_search cd r body = Some gs" "code = hd gs" by auto
  moreover from this(1) obtain r0 where r0: "r = r0 @ six_digits cd" "\<forall>a \<in> set r0. a \<noteq> Open \<and> a \<noteq> Close"
    using code_prefix by blast
  ultimately obtain w where "gs = [w]" "length w = 6 \<and> (\<forall>x \<in> set w. is_decimal cd x)" using d by blast
  with \<open>code = hd gs\<close> show ?thesis by simp
qed

lemma mail_code_logged:
  assumes "smtp_verification_code env (logged nw) cfg previous st = Inr (st', code)"
  shows "\<exists>polls m. snd (net st') = snd (net st) @ polls \<and> (\<forall>e \<in> set polls. mail_call cfg (fst e))
    \<and> listed env cfg polls m \<and> new_mail env nw previous m \<and> mail_source env nw cfg polls m code
    \<and> length code = 6 \<and> (\<forall>c \<in> set code. is_decimal (chars nw) c)"
proof -
  obtain n t where n: "monotonic (logged nw) (net st) = (n, t)" by (cases "monotonic (logged nw) (net st)")
  then have sn: "snd n = snd (net st)" by (auto simp: logged_def split: prod.splits)
  from assms n have p: "poll_mail (mail_turns cfg) env (logged nw) cfg previous (t + wait_timeout cfg) (st\<lparr>net := n\<rparr>) = Inr (st', code)"
    by (simp add: smtp_verification_code_def)
  from poll_mail_logged [OF p] obtain polls m where q: "snd (net st') = snd (net st) @ polls"
    "\<forall>e \<in> set polls. mail_call cfg (fst e)" "listed env cfg polls m" "new_mail env nw previous m"
    "mail_source env nw cfg polls m code" using sn by auto
  from q(5) obtain body where "extract_code (chars nw) body = Some code" unfolding mail_source_def by blast
  from extract_code_digits [OF this] q show ?thesis by blast
qed

section \<open>A sample mailbox\<close>

text \<open>A mail server with one message; the state counts the seconds.\<close>

definition sample_cd :: char_data where
  "sample_cd = \<lparr>is_alnum = (\<lambda>c. (48 \<le> c \<and> c \<le> 57) \<or> (65 \<le> c \<and> c \<le> 90) \<or> (97 \<le> c \<and> c \<le> 122)),
     is_decimal = (\<lambda>c. 48 \<le> c \<and> c \<le> 57)\<rparr>"

definition sample_subject :: ustr where
  "sample_subject = U ''[{\"id\":\"m1\",\"subject\":\"OIDC4AC verification code\"}]''"

definition sample_source :: ustr where
  "sample_source = U ''verification code is: 123456''"

definition plain_reply :: "ustr \<Rightarrow> ustr \<Rightarrow> reply" where
  "plain_reply u t = \<lparr>status_code = 200, reply_url = u, is_redirect = False, location = None, reply_text = t\<rparr>"

definition mail_network :: "nat network" where
  "mail_network = \<lparr>send = (\<lambda>n c call. (n, case call of
       Get u h \<Rightarrow> Some (c, plain_reply u (if u = U ''http://mail/api/messages'' then sample_subject else sample_source))
     | _ \<Rightarrow> None)), clock = (\<lambda>n. (n, 0, 0, 31)), monotonic = (\<lambda>n. (n, rat_of_nat n)), sleep = (\<lambda>n d. n + nat \<lceil>d\<rceil>),
     tokenize = (\<lambda>s. []), urljoin = (\<lambda>u l. u), url_path = (\<lambda>u. u), chars = sample_cd, repr_of = (\<lambda>v. [])\<rparr>"

definition sample_credentials :: runner_config where
  "sample_credentials = \<lparr>alice = U ''alice'', alice_password = U ''pw'', totp_secret = U ''s'', smtp4dev = U ''http://mail'',
     wait_timeout = 90, admin_username = U ''admin'', admin_password = U ''admin''\<rparr>"

definition mail_runner :: "'n \<Rightarrow> 'n runner" where
  "mail_runner n = \<lparr>net = n, client_url = U ''http://rp'', issuer_url = U ''http://op'', last_totp_counter = None\<rparr>"

lemma mail_clock: "clock_ok mail_network rat_of_nat"
  by (auto simp: clock_ok_def mail_network_def) linarith

lemma sample_code: "extract_code sample_cd sample_source = Some (U ''123456'')"
proof -
  have six: "replicate 6 x = [x, x, x, x, x, x]" for x :: item by (simp add: eval_nat_numeral)
  show ?thesis
    by (simp add: extract_code_def code_patterns_def re_search_def sample_source_def U_def literal_ignorecase_def
        fold_case_def is_space_def six_digits_def six sample_cd_def skipped_def)
qed

lemma sample_mail_json:
  "loads sample_env sample_subject = Inr (JArr [JObj [(U ''id'', JStr (U ''m1'')), (U ''subject'', JStr (U ''OIDC4AC verification code''))]])"
  by (simp add: json_eval sample_subject_def cong: json_eval_cong)


lemma sample_mail_text:
  "json_text sample_env (JObj [(U ''id'', JStr (U ''m1'')), (U ''subject'', JStr (U ''OIDC4AC verification code''))])
     = Inr (U ''{\"id\": \"m1\", \"subject\": \"'' @ mail_marker @ U ''\"}'')"
  by (simp add: json_text_def dumps_default_def default_style_def no_indent_def quoted_def U_def esc_ascii_def mail_marker_def)

lemma sample_poll:
  "\<exists>st'. poll_mail (Suc k) sample_env (logged mail_network) sample_credentials [] 90 (mail_runner (0, [])) = Inr (st', U ''123456'')"
proof -
  have q: "quote (U ''m1'') = Some (U ''m1'')"
    by (simp add: quote_def U_def utf8_char_def is_surrogate_def unreserved_def Let_def)
  have u: "U ''http://mail'' @ U ''/api/messages'' = U ''http://mail/api/messages''" by (simp add: U_append [symmetric])
  show ?thesis
    using sample_code
    by (simp add: sample_mail_text contains_middle logged_def mail_network_def mail_runner_def sample_credentials_def
        smtp_messages_def fetch_def request_def messages_url_def u plain_reply_def json_body_def sample_mail_json
        message_list_def objects_of_def map_filter_simps smtp_message_key_def message_id_def member_or_none_def py_or_def
        py_str_def message_code_def q raw_code_def Let_def)
qed

lemma sample_mail_run:
  "\<exists>st'. smtp_verification_code sample_env (logged mail_network) sample_credentials [] (mail_runner (0, [])) = Inr (st', U ''123456'')"
proof -
  have t: "mail_turns sample_credentials = Suc 90" "monotonic (logged mail_network) (net (mail_runner (0, []))) = (net (mail_runner (0, [])), 0)"
    "0 + wait_timeout sample_credentials = 90"
    by (simp_all add: mail_turns_def sample_credentials_def logged_def mail_network_def mail_runner_def)
  show ?thesis using sample_poll [of 90] unfolding smtp_verification_code_def t by (simp only: prod.case t) (simp add: mail_runner_def)
qed

section \<open>Properties\<close>

text \<open>C27: the wait for a code always ends. On a monotonic clock whose sleeps last, the
  loop of \<open>smtp_verification_code\<close> reads the clock at most \<open>\<lceil>TIMEOUT\<rceil> + 1\<close> times: the model never runs out
  of turns, and any larger number of turns gives the same result, whatever the mail server
  answers.\<close>

theorem mail_wait_ends:
  assumes "clock_ok nw now" "mail_turns cfg \<le> fuel"
  shows "smtp_verification_code env nw cfg previous st \<noteq> Inl OutOfTurns
    \<and> (case monotonic nw (net st) of (n, t) \<Rightarrow>
         poll_mail fuel env nw cfg previous (t + wait_timeout cfg) (st\<lparr>net := n\<rparr>))
      = smtp_verification_code env nw cfg previous st"
proof -
  let ?k = "nat \<lceil>wait_timeout cfg\<rceil>"
  obtain n t where m: "monotonic nw (net st) = (n, t)" by (cases "monotonic nw (net st)")
  then have "t \<le> now n" using assms(1) unfolding clock_ok_def by (metis fst_conv snd_conv)
  then have d: "t + wait_timeout cfg - now (net (st\<lparr>net := n\<rparr>)) \<le> rat_of_nat ?k"
    by (simp add: of_nat_ceiling order_trans [of _ "wait_timeout cfg"])
  from poll_mail_turns [OF assms(1) d, of fuel] poll_mail_turns [OF assms(1) d, of "Suc ?k"] assms(2)
  show ?thesis by (simp add: smtp_verification_code_def mail_turns_def m del: poll_mail.simps)
qed

theorem mail_wait_ends_witness:
  "smtp_verification_code sample_env mail_network sample_credentials [] (mail_runner 0) \<noteq> Inl OutOfTurns"
  using mail_wait_ends [OF mail_clock order_refl] by blast

text \<open>C28: the code is the one of a new message. When the wait returns a code, it has sent
  nothing but GET requests to the mail server's message API; the code is six decimal digits; and it
  stands in the raw source, the details or the list entry of a message that the server listed, that has
  the marker of the e-mail authenticator, and whose key is not among the messages seen before.\<close>

theorem mail_code_new:
  assumes "smtp_verification_code env (logged nw) cfg previous st = Inr (st', code)"
  shows "\<exists>polls message. snd (net st') = snd (net st) @ polls \<and> (\<forall>e \<in> set polls. mail_call cfg (fst e))
    \<and> listed env cfg polls message \<and> new_mail env nw previous message \<and> mail_source env nw cfg polls message code
    \<and> length code = 6 \<and> (\<forall>c \<in> set code. is_decimal (chars nw) c)"
  using mail_code_logged [OF assms] by blast

theorem mail_code_new_witness:
  "\<exists>polls message. listed sample_env sample_credentials polls message
     \<and> new_mail sample_env mail_network [] message
     \<and> mail_source sample_env mail_network sample_credentials polls message (U ''123456'')"
proof -
  obtain st' where "smtp_verification_code sample_env (logged mail_network) sample_credentials [] (mail_runner (0, []))
      = Inr (st', U ''123456'')" using sample_mail_run by blast
  from mail_code_new [OF this] show ?thesis by blast
qed

end
