(* ===== verification/E2E_Driver.thy ===== *)
theory E2E_Driver
  imports E2E_Mail
begin

text \<open>
  The flow driver of the HTTP end-to-end runner (e2e/http/run.py): the transition loop of
  \<open>authorize\<close>, for flows with a TOTP code and with an e-mail code.

  Proved: every successful flow is a conversation of at most sixteen requests, polls of the mailbox
  apart, in which each request is the only right answer to the page before it, and it ends on a
  result or error page.
\<close>

section \<open>The transition loop\<close>

definition terminal_page :: "reply \<Rightarrow> bool" where
  \<open>terminal_page r \<longleftrightarrow> status_code r = 200 \<and>
     (contains (reply_text r) (U ''Verified authentication context'')
      \<or> contains (reply_text r) (U ''class="error-page"''))\<close>

text \<open>
  \<open>smtp_verification_code(previous_smtp_messages) if use_email_code else current_totp()\<close>;
  \<open>mail\<close> has the keys of the earlier messages for a flow with an e-mail code.
\<close>

definition next_code ::
  "py_env \<Rightarrow> 'n network \<Rightarrow> runner_config \<Rightarrow> ustr list option \<Rightarrow> 'n runner \<Rightarrow> drive_exc + ('n runner \<times> ustr)" where
  "next_code env nw cfg mail st =
     (case mail of None \<Rightarrow> next_totp nw cfg st | Some previous \<Rightarrow> smtp_verification_code env nw cfg previous st)"

fun drive ::
  "nat \<Rightarrow> py_env \<Rightarrow> 'n network \<Rightarrow> runner_config \<Rightarrow> ustr list option \<Rightarrow> 'n runner \<Rightarrow> cookie list \<Rightarrow> reply \<Rightarrow> ustr list
     \<Rightarrow> drive_exc + ('n runner \<times> cookie list \<times> authorization_result)" where
  "drive 0 env nw cfg mail st session response submitted = Inl NoCallback"
| "drive (Suc fuel) env nw cfg mail st session response submitted =
     (let session1 = allow_loopback_secure_cookies session;
          forms = parse_forms (tokenize nw (reply_text response)) in
      if is_redirect response then
        (case location response of
           None \<Rightarrow> Inl NoLocation
         | Some l \<Rightarrow>
             rbind (request nw st session1 (Get (urljoin nw (reply_url response) (Some l)) [])) (\<lambda>(st', s', r').
               drive fuel env nw cfg mail st' s' r' submitted))
      else case map_of forms login_form of
        Some f \<Rightarrow>
          rbind (request nw st session1 (post_form nw response f (login_values cfg f))) (\<lambda>(st', s', r').
            drive fuel env nw cfg mail st' s' r'
              (if map_of (form_values f) (U ''password'') \<noteq> None then submitted @ [login_form] else submitted))
      | None \<Rightarrow>
      case map_of forms otp_form of
        Some f \<Rightarrow>
          rbind (next_code env nw cfg mail st) (\<lambda>(st1, otp).
          rbind (request nw st1 session1 (post_form nw response f [(U ''otp'', otp)])) (\<lambda>(st', s', r').
            drive fuel env nw cfg mail st' s' r' (submitted @ [otp_form])))
      | None \<Rightarrow>
      if map_of forms enrol_form \<noteq> None then Inl EnrolOtp
      else if terminal_page response then
        Inr (st, session1, \<lparr>result_text = reply_text response, result_forms = submitted\<rparr>)
      else Inl (UnexpectedPage (status_code response) (reply_url response)))"

text \<open>The form data of the client's \<open>/login\<close>.\<close>

definition login_data ::
  "py_env \<Rightarrow> (ustr, json) dict \<Rightarrow> bool \<Rightarrow> bool \<Rightarrow> bool \<Rightarrow> drive_exc + (ustr, ustr option) dict" where
  "login_data env request_claims prompt_login omit_claims offline_access =
     (let on = Some (U ''on'');
          data = (if prompt_login then [(U ''prompt_login'', on)] else [])
                 @ (if offline_access then [(U ''offline_access'', on)] else []) in
      if omit_claims then Inr (data @ [(U ''omit_claims'', on)])
      else (case dumps_default env (JObj request_claims) of
          Inl e \<Rightarrow> Inl (Checked (RaisedJson e))
        | Inr t \<Rightarrow> Inr (data @ [(U ''claims_json'', Some t)])))"

text \<open>\<open>previous_smtp_messages\<close>, with its request to the mail server.\<close>

definition previous_messages ::
  "py_env \<Rightarrow> 'n network \<Rightarrow> runner_config \<Rightarrow> bool \<Rightarrow> 'n runner \<Rightarrow> drive_exc + ('n runner \<times> ustr list option)" where
  "previous_messages env nw cfg use_email_code st =
     (if use_email_code then
        rbind (smtp_messages env nw cfg st) (\<lambda>(st', messages).
        rbind (message_keys env (repr_of nw) messages) (\<lambda>ks. Inr (st', Some ks)))
      else Inr (st, None))"

definition authorize ::
  "py_env \<Rightarrow> 'n network \<Rightarrow> runner_config \<Rightarrow> 'n runner \<Rightarrow> (ustr, json) dict \<Rightarrow> cookie list option \<Rightarrow> bool \<Rightarrow> bool \<Rightarrow> bool
     \<Rightarrow> bool \<Rightarrow> drive_exc + ('n runner \<times> cookie list \<times> authorization_result)" where
  "authorize env nw cfg st request_claims session prompt_login omit_claims offline_access use_email_code =
     rbind (previous_messages env nw cfg use_email_code st) (\<lambda>(st0, mail).
     rbind (login_data env request_claims prompt_login omit_claims offline_access) (\<lambda>data.
     rbind (request nw st0 (case session of None \<Rightarrow> [] | Some s \<Rightarrow> s) (Post (client_url st0 @ U ''/login'') data))
       (\<lambda>(st1, s1, response).
         if \<not> is_redirect response then Inl (NotRedirected (status_code response))
         else drive 16 env nw cfg mail st1 s1 response [])))"

section \<open>Conversations\<close>

text \<open>
  The code for an OTP form: without an e-mail code nothing is sent for it, with one it is the code of a new
  message that the polls before the answer found.
\<close>

definition code_found ::
  "py_env \<Rightarrow> 'n network \<Rightarrow> runner_config \<Rightarrow> ustr list option \<Rightarrow> (http_call \<times> reply) list \<Rightarrow> ustr \<Rightarrow> bool" where
  "code_found env nw cfg mail polls otp \<longleftrightarrow>
     (case mail of
        None \<Rightarrow> polls = []
      | Some previous \<Rightarrow> (\<forall>e \<in> set polls. mail_call cfg (fst e)) \<and> length otp = 6
          \<and> (\<exists>message. listed env cfg polls message \<and> new_mail env nw previous message
               \<and> mail_source env nw cfg polls message otp))"

text \<open>The request that answers a page, the polls before it, and the credential screens it counts.\<close>

definition answers ::
  "py_env \<Rightarrow> 'n network \<Rightarrow> runner_config \<Rightarrow> ustr list option \<Rightarrow> reply \<Rightarrow> (http_call \<times> reply) list \<Rightarrow> http_call \<Rightarrow> ustr list \<Rightarrow> bool" where
  "answers env nw cfg mail r polls call screens \<longleftrightarrow>
     (let forms = parse_forms (tokenize nw (reply_text r)) in
      (is_redirect r \<and> polls = [] \<and> screens = [] \<and>
         (\<exists>l. location r = Some l \<and> call = Get (urljoin nw (reply_url r) (Some l)) []))
      \<or> (\<not> is_redirect r \<and> polls = [] \<and> (\<exists>f. map_of forms login_form = Some f
           \<and> call = post_form nw r f (login_values cfg f)
           \<and> screens = (if map_of (form_values f) (U ''password'') \<noteq> None then [login_form] else [])))
      \<or> (\<not> is_redirect r \<and> map_of forms login_form = None \<and> screens = [otp_form] \<and>
         (\<exists>f otp. map_of forms otp_form = Some f \<and> call = post_form nw r f [(U ''otp'', otp)]
            \<and> code_found env nw cfg mail polls otp)))"

inductive conversation ::
  "py_env \<Rightarrow> 'n network \<Rightarrow> runner_config \<Rightarrow> ustr list option \<Rightarrow> reply \<Rightarrow> nat \<Rightarrow> (http_call \<times> reply) list \<Rightarrow> ustr list \<Rightarrow> reply \<Rightarrow> bool"
  for env nw cfg mail where
  over: "conversation env nw cfg mail r 0 [] [] r"
| turn: "answers env nw cfg mail r polls call sc \<Longrightarrow> conversation env nw cfg mail r' k exch screens final \<Longrightarrow>
     conversation env nw cfg mail r (Suc k) (polls @ (call, r') # exch) (sc @ screens) final"

lemma next_code_logged:
  assumes "next_code env (logged nw) cfg mail st = Inr (st', otp)"
  shows "\<exists>polls. snd (net st') = snd (net st) @ polls \<and> code_found env nw cfg mail polls otp"
proof (cases mail)
  case None
  with assms show ?thesis using next_totp_logged(1) [of nw cfg st] by (auto simp: next_code_def code_found_def)
next
  case (Some previous)
  with assms have "smtp_verification_code env (logged nw) cfg previous st = Inr (st', otp)" by (simp add: next_code_def)
  from mail_code_logged [OF this] Some show ?thesis unfolding code_found_def by fastforce
qed

lemma previous_messages_logged:
  assumes "previous_messages env (logged nw) cfg use_email_code st = Inr (st', mail)"
  shows "client_url st' = client_url st \<and>
    (if use_email_code then \<exists>r payload vs ks. snd (net st') = snd (net st) @ [(Get (messages_url cfg) [], r)]
       \<and> json_body env r = Inr payload \<and> message_list payload = JArr vs
       \<and> message_keys env (repr_of nw) (objects_of vs) = Inr ks \<and> mail = Some ks
     else st' = st \<and> mail = None)"
  using assms fetch_logged [of nw st "Get (messages_url cfg) []"]
  by (fastforce simp: previous_messages_def rbind_eq_Inr smtp_messages_Inr split: if_splits)

text \<open>The outcomes of one transition that goes on.\<close>

lemma drive_conversation:
  "drive fuel env (logged nw) cfg mail st session r submitted = Inr (st', s', res) \<Longrightarrow>
     \<exists>k exch screens final. snd (net st') = snd (net st) @ exch \<and> conversation env nw cfg mail r k exch screens final
       \<and> k < fuel \<and> result_forms res = submitted @ screens
       \<and> result_text res = reply_text final \<and> terminal_page final \<and> \<not> is_redirect final"
proof (induction fuel arbitrary: st session r submitted)
  case 0
  then show ?case by simp
next
  case (Suc fuel)
  let ?forms = "parse_forms (tokenize nw (reply_text r))"
  let ?goal = "\<exists>k exch screens final. snd (net st') = snd (net st) @ exch \<and> conversation env nw cfg mail r k exch screens final
       \<and> k < Suc fuel \<and> result_forms res = submitted @ screens
       \<and> result_text res = reply_text final \<and> terminal_page final \<and> \<not> is_redirect final"
  have go: ?goal
    if a: "answers env nw cfg mail r polls call sc" and q: "request (logged nw) st1 session1 call = Inr (st2, s2, r2)"
      and eq: "snd (net st1) = snd (net st) @ polls"
      and d: "drive fuel env (logged nw) cfg mail st2 s2 r2 (submitted @ sc) = Inr (st', s', res)"
    for polls call sc st1 session1 st2 s2 r2
  proof -
    from Suc.IH [OF d] obtain k exch screens final where ih: "snd (net st') = snd (net st2) @ exch"
      "conversation env nw cfg mail r2 k exch screens final" "k < fuel" "result_forms res = (submitted @ sc) @ screens"
      "result_text res = reply_text final" "terminal_page final" "\<not> is_redirect final" by blast
    have "snd (net st') = snd (net st) @ (polls @ (call, r2) # exch)" using ih(1) request_logged [OF q] eq by simp
    moreover have "conversation env nw cfg mail r (Suc k) (polls @ (call, r2) # exch) (sc @ screens) final"
      by (rule turn [OF a ih(2)])
    moreover have "Suc k < Suc fuel" "result_forms res = submitted @ sc @ screens"
      using ih(3,4) by simp_all
    ultimately show ?thesis using ih(5-7) by blast
  qed
  note d = Suc.prems
  show ?case
  proof (cases "is_redirect r")
    case True
    with d obtain l st2 s2 r2 where l: "location r = Some l"
      "request (logged nw) st (allow_loopback_secure_cookies session) (Get (urljoin nw (reply_url r) (Some l)) []) = Inr (st2, s2, r2)"
      "drive fuel env (logged nw) cfg mail st2 s2 r2 (submitted @ []) = Inr (st', s', res)"
      by (auto simp: Let_def rbind_eq_Inr split: option.splits)
    show ?thesis by (rule go [OF _ l(2) _ l(3), of "[]"]) (simp_all add: answers_def True l(1))
  next
    case nr: False
    show ?thesis
    proof (cases "map_of ?forms login_form")
      case (Some f)
      let ?sc = "if map_of (form_values f) (U ''password'') \<noteq> None then [login_form] else []"
      from d nr Some obtain st2 s2 r2 where l:
        "request (logged nw) st (allow_loopback_secure_cookies session) (post_form nw r f (login_values cfg f)) = Inr (st2, s2, r2)"
        "drive fuel env (logged nw) cfg mail st2 s2 r2 (submitted @ ?sc) = Inr (st', s', res)"
        by (auto simp: Let_def rbind_eq_Inr split: if_splits)
      show ?thesis by (rule go [OF _ l(1) _ l(2), of "[]"]) (simp_all add: answers_def nr Some)
    next
      case nl: None
      show ?thesis
      proof (cases "map_of ?forms otp_form")
        case (Some f)
        from d nr nl Some obtain st1 otp st2 s2 r2 where l: "next_code env (logged nw) cfg mail st = Inr (st1, otp)"
          "request (logged nw) st1 (allow_loopback_secure_cookies session) (post_form nw r f [(U ''otp'', otp)]) = Inr (st2, s2, r2)"
          "drive fuel env (logged nw) cfg mail st2 s2 r2 (submitted @ [otp_form]) = Inr (st', s', res)"
          by (auto simp: Let_def rbind_eq_Inr)
        from next_code_logged [OF l(1)] obtain polls where polls: "snd (net st1) = snd (net st) @ polls"
          "code_found env nw cfg mail polls otp" by blast
        have "answers env nw cfg mail r polls (post_form nw r f [(U ''otp'', otp)]) [otp_form]"
          using nr nl Some polls(2) by (auto simp: answers_def Let_def)
        from go [OF this l(2) polls(1) l(3)] show ?thesis .
      next
        case None
        with d nr nl have t: "terminal_page r" "st' = st" "res = \<lparr>result_text = reply_text r, result_forms = submitted\<rparr>"
          by (auto simp: Let_def split: if_splits)
        with nr over [of env nw cfg mail r] show ?thesis by (intro exI [of _ 0] exI [of _ "[]"] exI [of _ r]) simp
      qed
    qed
  qed
qed

section \<open>A sample flow\<close>

text \<open>A client that redirects once and then shows an error page.\<close>

definition sample_reply :: "nat \<Rightarrow> reply" where
  \<open>sample_reply n = (if n = 0
     then \<lparr>status_code = 302, reply_url = U ''http://rp/login'', is_redirect = True, location = Some (U ''/x''), reply_text = []\<rparr>
     else \<lparr>status_code = 200, reply_url = U ''http://rp/x'', is_redirect = False, location = None,
           reply_text = U ''<section '' @ U ''class="error-page"'' @ U ''>''\<rparr>)\<close>

definition sample_network :: "nat network" where
  "sample_network = \<lparr>send = (\<lambda>n c call. (Suc n, Some (c, sample_reply n))), clock = (\<lambda>n. (n, 0, 0, 31)),
     monotonic = (\<lambda>n. (n, 0)), sleep = (\<lambda>n d. n), tokenize = (\<lambda>s. []),
     urljoin = (\<lambda>u l. case l of None \<Rightarrow> u | Some t \<Rightarrow> t), url_path = (\<lambda>u. u), chars = sample_cd, repr_of = (\<lambda>v. [])\<rparr>"

definition sample_runner :: "(nat \<times> (http_call \<times> reply) list) runner" where
  "sample_runner = \<lparr>net = (0, []), client_url = U ''http://rp'', issuer_url = U ''http://op'', last_totp_counter = None\<rparr>"

lemma sample_terminal: "terminal_page (sample_reply (Suc n))"
  using contains_middle by (simp add: terminal_page_def sample_reply_def)

lemma sample_flow:
  "\<exists>out. authorize env (logged sample_network) sample_credentials sample_runner [] None True True False False = Inr out"
proof -
  have f: "parse_forms [] = []" by (simp add: parse_forms_def)
  have r: "is_redirect (sample_reply 0)" "location (sample_reply 0) = Some (U ''/x'')" "\<not> is_redirect (sample_reply (Suc 0))"
    by (simp_all add: sample_reply_def)
  show ?thesis
    by (simp add: authorize_def previous_messages_def login_data_def request_def logged_def sample_network_def sample_runner_def
        r f sample_terminal eval_nat_numeral Let_def)
qed

section \<open>Properties\<close>

text \<open>C24: a flow that succeeds was a proper conversation with the servers. It starts with one
  POST of the form data to the client's \<open>/login\<close>, which redirected; every later request is the one
  answer to the reply before it (a redirect is followed, the login form gets the user name and
  the password only where the form asks for one, the OTP form gets a code); at most fifteen such answers
  follow; the credential screens are those of the pages in order; and the last page is a result
  page or an error page with status 200, whose text is the result. With an e-mail code the mailbox is
  listed first, and the code for an OTP form comes from a marked message not in that list, found by
  polls of the mailbox right before the answer; nothing else is sent.\<close>

theorem authorize_conversation:
  assumes "authorize env (logged nw) cfg st request_claims session prompt_login omit_claims offline use_email_code
     = Inr (st', s', res)"
  shows "\<exists>seen mail data r0 k exch final. login_data env request_claims prompt_login omit_claims offline = Inr data
    \<and> snd (net st') = snd (net st) @ seen @ (Post (client_url st @ U ''/login'') data, r0) # exch
    \<and> is_redirect r0 \<and> conversation env nw cfg mail r0 k exch (result_forms res) final \<and> k \<le> 15
    \<and> terminal_page final \<and> result_text res = reply_text final
    \<and> (if use_email_code then \<exists>r payload vs ks. seen = [(Get (messages_url cfg) [], r)]
          \<and> json_body env r = Inr payload \<and> message_list payload = JArr vs
          \<and> message_keys env (repr_of nw) (objects_of vs) = Inr ks \<and> mail = Some ks
        else seen = [] \<and> mail = None)"
proof -
  from assms obtain st0 mail data st1 s1 r0 where a: "previous_messages env (logged nw) cfg use_email_code st = Inr (st0, mail)"
    "login_data env request_claims prompt_login omit_claims offline = Inr data"
    "request (logged nw) st0 (case session of None \<Rightarrow> [] | Some s \<Rightarrow> s) (Post (client_url st0 @ U ''/login'') data) = Inr (st1, s1, r0)"
    "is_redirect r0" "drive 16 env (logged nw) cfg mail st1 s1 r0 [] = Inr (st', s', res)"
    by (auto simp: authorize_def rbind_eq_Inr simp del: drive.simps split: if_splits)
  from drive_conversation [OF a(5)] obtain k exch screens final where c:
    "snd (net st') = snd (net st1) @ exch" "conversation env nw cfg mail r0 k exch screens final" "k < 16"
    "result_forms res = [] @ screens" "result_text res = reply_text final" "terminal_page final" by blast
  from previous_messages_logged [OF a(1)] obtain seen where seen: "client_url st0 = client_url st"
    "snd (net st0) = snd (net st) @ seen"
    "if use_email_code then \<exists>r payload vs ks. seen = [(Get (messages_url cfg) [], r)]
       \<and> json_body env r = Inr payload \<and> message_list payload = JArr vs
       \<and> message_keys env (repr_of nw) (objects_of vs) = Inr ks \<and> mail = Some ks
     else seen = [] \<and> mail = None" by (auto split: if_splits)
  have "snd (net st') = snd (net st) @ seen @ (Post (client_url st @ U ''/login'') data, r0) # exch"
    using c(1) request_logged(1) [OF a(3)] seen(1,2) by simp
  with a(2,4) c(2-6) seen(3) show ?thesis
    by (intro exI [of _ seen] exI [of _ mail] exI [of _ data] exI [of _ r0] exI [of _ k] exI [of _ exch] exI [of _ final]) simp
qed

theorem authorize_conversation_witness:
  "\<exists>st' s' res data r0 k exch final.
     authorize sample_env (logged sample_network) sample_credentials sample_runner [] None True True False False = Inr (st', s', res)
     \<and> login_data sample_env [] True True False = Inr data
     \<and> snd (net st') = (Post (U ''http://rp'' @ U ''/login'') data, r0) # exch
     \<and> conversation sample_env sample_network sample_credentials None r0 k exch (result_forms res) final"
proof -
  obtain st' s' res where o: "authorize sample_env (logged sample_network) sample_credentials sample_runner [] None True True False False
     = Inr (st', s', res)" using sample_flow [of sample_env] by (metis prod_cases3)
  from authorize_conversation [OF o] show ?thesis
    using o by (fastforce simp: sample_runner_def)
qed

end
