(* ===== verification/Compat_Matrix.thy ===== *)
theory Compat_Matrix
  imports E2E_Driver
begin

text \<open>
  The compatibility matrix (evaluation/compatibility/oidc4ac-compatibility-matrix.py), on the runner
  of E2E_Driver and E2E_Results: its endpoints, the helpers, the five combinations of \<open>main\<close> and the
  realm change of \<open>use_flow_without_planner\<close>. Printing is left out. \<open>response.json()\<close> is \<open>loads\<close> of
  the reply's text.

  Proved: what a run that ends with 0 has established, step by step and with the requests it sent; the realm change
  touches one member.
\<close>

section \<open>Endpoints and requests\<close>

record endpoint =
  endpoint_client :: ustr
  endpoint_issuer :: ustr

definition ENABLED :: endpoint where
  "ENABLED = \<lparr>endpoint_client = U ''http://localhost:5003'', endpoint_issuer = U ''http://localhost:8186/realms/oidc4ac''\<rparr>"

definition DISABLED :: endpoint where
  "DISABLED = \<lparr>endpoint_client = U ''http://client.localhost:5001'', endpoint_issuer = U ''http://localhost:8187/realms/oidc4ac''\<rparr>"

definition configure :: "endpoint \<Rightarrow> 'n runner \<Rightarrow> 'n runner" where
  "configure e st = st\<lparr>client_url := endpoint_client e, issuer_url := endpoint_issuer e\<rparr>"

text \<open>What the checks of this script report; \<open>AdminToken\<close> and \<open>FlowBinding\<close> are those of the realm change.\<close>

datatype matrix_failure = DiscoveryStatus nat | LegacyAdvertises | UnexpectedDetails ustr | NotAdvertised
  | NotDelivered | WrongMethod | NotInformational | WrongReport "ustr list" | AdminToken | FlowBinding nat

datatype matrix_exc = Driver drive_exc | Failed matrix_failure | PythonError

definition lift_run :: "run_exc + 'a \<Rightarrow> matrix_exc + 'a" where
  "lift_run r = (case r of Inl e \<Rightarrow> Inl (Driver (Checked e)) | Inr x \<Rightarrow> Inr x)"

definition lift_drive :: "drive_exc + 'a \<Rightarrow> matrix_exc + 'a" where
  "lift_drive r = (case r of Inl e \<Rightarrow> Inl (Driver e) | Inr x \<Rightarrow> Inr x)"

definition require :: "bool \<Rightarrow> matrix_failure \<Rightarrow> matrix_exc + unit" where
  "require condition f = (if condition then Inr () else Inl (Failed f))"

text \<open>
  A call of \<open>requests\<close> itself, with no session; \<open>response.json()\<close>; \<open>d.get(k, default)\<close>, \<open>d[k]\<close>,
  \<open>l[0]\<close> and \<open>k in x\<close> on JSON values, with the exceptions Python has for other values.
\<close>

definition plain_request :: "'n network \<Rightarrow> 'n runner \<Rightarrow> http_call \<Rightarrow> matrix_exc + ('n runner \<times> reply)" where
  "plain_request nw st call =
     rbind (lift_drive (request nw st [] call)) (\<lambda>(st', _, r). Inr (st', r))"

definition reply_json :: "py_env \<Rightarrow> reply \<Rightarrow> matrix_exc + json" where
  "reply_json env r = (case loads env (reply_text r) of Inl _ \<Rightarrow> Inl PythonError | Inr v \<Rightarrow> Inr v)"

definition py_get :: "json \<Rightarrow> ustr \<Rightarrow> json \<Rightarrow> matrix_exc + json" where
  "py_get v k dflt =
     (case v of JObj ms \<Rightarrow> Inr (case map_of ms k of None \<Rightarrow> dflt | Some x \<Rightarrow> x) | _ \<Rightarrow> Inl PythonError)"

definition py_item :: "json \<Rightarrow> ustr \<Rightarrow> matrix_exc + json" where
  "py_item v k =
     (case v of JObj ms \<Rightarrow> (case map_of ms k of None \<Rightarrow> Inl PythonError | Some x \<Rightarrow> Inr x) | _ \<Rightarrow> Inl PythonError)"

definition py_first :: "json \<Rightarrow> matrix_exc + json" where
  "py_first v =
     (case v of JArr (x # _) \<Rightarrow> Inr x | JStr (c # _) \<Rightarrow> Inr (JStr [c]) | _ \<Rightarrow> Inl PythonError)"

definition py_in :: "ustr \<Rightarrow> json \<Rightarrow> matrix_exc + bool" where
  "py_in k v =
     (case v of
        JObj ms \<Rightarrow> Inr (k \<in> set (map fst ms))
      | JArr vs \<Rightarrow> Inr (JStr k \<in> set vs)
      | JStr s \<Rightarrow> Inr (contains s k)
      | _ \<Rightarrow> Inl PythonError)"

section \<open>Helpers of the script\<close>

definition endpoint_discovery :: "py_env \<Rightarrow> 'n network \<Rightarrow> endpoint \<Rightarrow> 'n runner \<Rightarrow> matrix_exc + ('n runner \<times> json)" where
  "endpoint_discovery env nw e st =
     rbind (plain_request nw st (Get (endpoint_issuer e @ U ''/.well-known/openid-configuration'') [])) (\<lambda>(st', r).
     rbind (require (status_code r = 200) (DiscoveryStatus (status_code r))) (\<lambda>_.
     rbind (reply_json env r) (\<lambda>v. Inr (st', v))))"

abbreviation id_token_heading :: ustr where "id_token_heading \<equiv> U ''Verified ID Token''"
abbreviation userinfo_heading :: ustr where "userinfo_heading \<equiv> U ''Access-token-bound UserInfo''"

definition has_details :: "py_env \<Rightarrow> (ustr \<Rightarrow> ustr) \<Rightarrow> authorization_result \<Rightarrow> matrix_exc + bool" where
  "has_details env unescape r =
     rbind (lift_run (json_section env unescape id_token_heading r)) (\<lambda>id_token.
     rbind (py_in (U ''amr_details'') id_token) (\<lambda>found.
       if found then Inr True
       else rbind (lift_run (json_section env unescape userinfo_heading r)) (\<lambda>info.
              py_in (U ''amr_details'') info)))"

text \<open>\<open>run.authorize(...).require_success()\<close>\<close>

definition authorized ::
  "py_env \<Rightarrow> (ustr \<Rightarrow> ustr) \<Rightarrow> 'n network \<Rightarrow> runner_config \<Rightarrow> 'n runner \<Rightarrow> (ustr, json) dict \<Rightarrow> cookie list option
     \<Rightarrow> bool \<Rightarrow> bool \<Rightarrow> matrix_exc + ('n runner \<times> cookie list \<times> authorization_result)" where
  "authorized env unescape nw cfg st request_claims session prompt_login omit_claims =
     rbind (lift_drive (authorize env nw cfg st request_claims session prompt_login omit_claims False False)) (\<lambda>(st', s', r).
     rbind (lift_run (require_success unescape r)) (\<lambda>r'. Inr (st', s', r')))"

definition ordinary_success ::
  "py_env \<Rightarrow> (ustr \<Rightarrow> ustr) \<Rightarrow> 'n network \<Rightarrow> runner_config \<Rightarrow> endpoint \<Rightarrow> ustr \<Rightarrow> cookie list option \<Rightarrow> bool
     \<Rightarrow> 'n runner \<Rightarrow> matrix_exc + ('n runner \<times> cookie list \<times> authorization_result)" where
  "ordinary_success env unescape nw cfg e label session prompt_login st =
     rbind (authorized env unescape nw cfg (configure e st) [] session prompt_login True) (\<lambda>(st', s', r).
     rbind (has_details env unescape r) (\<lambda>found.
     rbind (require (\<not> found) (UnexpectedDetails label)) (\<lambda>_. Inr (st', s', r))))"

text \<open>\<open>s.rsplit(sep, 1)[0]\<close>: the text before the last occurrence, or all of it.\<close>

fun before_last :: "ustr \<Rightarrow> ustr \<Rightarrow> ustr option" where
  "before_last pat [] = (if pat = [] then Some [] else None)"
| "before_last pat (c # s) =
     (case before_last pat s of
        Some t \<Rightarrow> Some (c # t)
      | None \<Rightarrow> if startswith (c # s) pat then Some [] else None)"

definition rsplit_first :: "ustr \<Rightarrow> ustr \<Rightarrow> ustr" where
  "rsplit_first s pat = (case before_last pat s of None \<Rightarrow> s | Some t \<Rightarrow> t)"

definition admin_data :: "(ustr, ustr option) dict" where
  "admin_data = [(U ''grant_type'', Some (U ''password'')), (U ''client_id'', Some (U ''admin-cli'')),
     (U ''username'', Some (U ''admin'')), (U ''password'', Some (U ''admin''))]"

text \<open>
  \<open>realm["browserFlow"] = "browser"\<close>. \<open>str_of\<close> is the formatting of a value in an f-string.
\<close>

definition set_member :: "json \<Rightarrow> ustr \<Rightarrow> json \<Rightarrow> matrix_exc + json" where
  "set_member v k x = (case v of JObj ms \<Rightarrow> Inr (JObj (AList.update k x ms)) | _ \<Rightarrow> Inl PythonError)"

definition use_flow_without_planner ::
  "py_env \<Rightarrow> (json \<Rightarrow> ustr) \<Rightarrow> 'n network \<Rightarrow> endpoint \<Rightarrow> 'n runner \<Rightarrow> matrix_exc + 'n runner" where
  "use_flow_without_planner env str_of nw e st =
     (let base = rsplit_first (endpoint_issuer e) (U ''/realms/'');
          realm_url = base @ U ''/admin/realms/oidc4ac'' in
      rbind (plain_request nw st (Post (base @ U ''/realms/master/protocol/openid-connect/token'') admin_data)) (\<lambda>(st1, token).
      rbind (require (status_code token = 200) AdminToken) (\<lambda>_.
      rbind (reply_json env token) (\<lambda>v.
      rbind (py_item v (U ''access_token'')) (\<lambda>access.
        let headers = [(U ''Authorization'', U ''Bearer '' @ str_of access)] in
        rbind (plain_request nw st1 (Get realm_url headers)) (\<lambda>(st2, fetched).
        rbind (reply_json env fetched) (\<lambda>realm.
        rbind (set_member realm (U ''browserFlow'') (JStr (U ''browser''))) (\<lambda>realm'.
        rbind (plain_request nw st2 (Put realm_url headers realm')) (\<lambda>(st3, update).
        rbind (require (status_code update = 200 \<or> status_code update = 204) (FlowBinding (status_code update))) (\<lambda>_.
          Inr st3))))))))))"

section \<open>The five combinations\<close>

text \<open>\<open>main\<close>, one definition for each block it announces, in order.\<close>

definition advertises :: "json \<Rightarrow> matrix_exc + bool" where
  "advertises metadata =
     rbind (py_get metadata (U ''claims_supported'') (JArr [])) (py_in (U ''amr_details''))"

definition legacy_rp_legacy_op ::
  "py_env \<Rightarrow> (ustr \<Rightarrow> ustr) \<Rightarrow> 'n network \<Rightarrow> runner_config \<Rightarrow> 'n runner
     \<Rightarrow> matrix_exc + ('n runner \<times> cookie list \<times> authorization_result)" where
  "legacy_rp_legacy_op env unescape nw cfg st =
     rbind (endpoint_discovery env nw DISABLED st) (\<lambda>(st1, legacy_metadata).
     rbind (advertises legacy_metadata) (\<lambda>b.
     rbind (require (\<not> b) LegacyAdvertises) (\<lambda>_.
       ordinary_success env unescape nw cfg DISABLED (U ''legacy RP / legacy OP'') None True st1)))"

definition legacy_rp_enabled_op ::
  "py_env \<Rightarrow> (ustr \<Rightarrow> ustr) \<Rightarrow> 'n network \<Rightarrow> runner_config \<Rightarrow> 'n runner
     \<Rightarrow> matrix_exc + ('n runner \<times> cookie list \<times> authorization_result)" where
  "legacy_rp_enabled_op env unescape nw cfg st =
     rbind (endpoint_discovery env nw ENABLED st) (\<lambda>(st1, enabled_metadata).
     rbind (advertises enabled_metadata) (\<lambda>b.
     rbind (require b NotAdvertised) (\<lambda>_.
       ordinary_success env unescape nw cfg ENABLED (U ''legacy RP / OIDC4AC OP'') None True st1)))"

definition fallback_legacy_op ::
  "py_env \<Rightarrow> (ustr \<Rightarrow> ustr) \<Rightarrow> 'n network \<Rightarrow> runner_config \<Rightarrow> cookie list \<Rightarrow> 'n runner
     \<Rightarrow> matrix_exc + ('n runner \<times> authorization_result)" where
  "fallback_legacy_op env unescape nw cfg legacy_session st =
     rbind (ordinary_success env unescape nw cfg DISABLED (U ''OIDC4AC RP / legacy OP fallback'')
              (Some legacy_session) False st) (\<lambda>(st1, fallback_session, _).
     rbind (authorized env unescape nw cfg st1 (claims (amr_method (U ''pwd'') None None) True True True)
              (Some fallback_session) False False) (\<lambda>(st2, _, direct).
     rbind (has_details env unescape direct) (\<lambda>found.
     rbind (require (\<not> found) (UnexpectedDetails (U ''OIDC4AC RP / legacy OP''))) (\<lambda>_. Inr (st2, direct)))))"

definition first_identifier :: "json \<Rightarrow> matrix_exc + json" where
  "first_identifier token =
     rbind (py_item token (U ''amr_details'')) (\<lambda>ds.
     rbind (py_first ds) (\<lambda>d. py_item d (U ''amr_identifier'')))"

definition enabled_rp_enabled_op ::
  "py_env \<Rightarrow> (ustr \<Rightarrow> ustr) \<Rightarrow> 'n network \<Rightarrow> runner_config \<Rightarrow> 'n runner
     \<Rightarrow> matrix_exc + ('n runner \<times> authorization_result)" where
  "enabled_rp_enabled_op env unescape nw cfg st =
     rbind (authorized env unescape nw cfg (configure ENABLED st)
              (claims (amr_method (U ''pwd'') None None) True True True) None True False) (\<lambda>(st1, _, extended).
     rbind (lift_run (json_section env unescape id_token_heading extended)) (\<lambda>id_token.
     rbind (lift_run (json_section env unescape userinfo_heading extended)) (\<lambda>info.
     rbind (py_in (U ''amr_details'') id_token) (\<lambda>a.
     rbind (if a then py_in (U ''amr_details'') info else Inr False) (\<lambda>b.
     rbind (require b NotDelivered) (\<lambda>_.
     rbind (first_identifier id_token) (\<lambda>i.
     rbind (if i = JStr (U ''pwd'') then rbind (first_identifier info) (\<lambda>j. Inr (j = JStr (U ''pwd''))) else Inr False) (\<lambda>c.
     rbind (require c WrongMethod) (\<lambda>_. Inr (st1, extended))))))))))"

definition informational_op ::
  "py_env \<Rightarrow> (ustr \<Rightarrow> ustr) \<Rightarrow> (json \<Rightarrow> ustr) \<Rightarrow> 'n network \<Rightarrow> runner_config \<Rightarrow> 'n runner
     \<Rightarrow> matrix_exc + ('n runner \<times> authorization_result)" where
  "informational_op env unescape str_of nw cfg st =
     rbind (use_flow_without_planner env str_of nw ENABLED st) (\<lambda>st1.
     rbind (endpoint_discovery env nw ENABLED st1) (\<lambda>(st2, metadata).
     rbind (advertises metadata) (\<lambda>a.
     rbind (if a then rbind (py_get metadata (U ''amr_details_request_supported'') JNull) (\<lambda>v. Inr (v = JBool False))
            else Inr False) (\<lambda>b.
     rbind (require b NotInformational) (\<lambda>_.
     rbind (authorized env unescape nw cfg (configure ENABLED st2)
              (claims (amr_method (U ''pop'') None None) True True True) None True False) (\<lambda>(st3, _, informational).
     rbind (lift_run (json_section env unescape id_token_heading informational)) (\<lambda>id_token.
     rbind (lift_run (detail_map id_token)) (\<lambda>executed.
     rbind (require (U ''pwd'' \<in> set (map fst executed) \<and> U ''pop'' \<notin> set (map fst executed))
              (WrongReport (map fst executed))) (\<lambda>_. Inr (st3, informational))))))))))"

definition matrix_main ::
  "py_env \<Rightarrow> (ustr \<Rightarrow> ustr) \<Rightarrow> (json \<Rightarrow> ustr) \<Rightarrow> 'n network \<Rightarrow> runner_config \<Rightarrow> 'n runner \<Rightarrow> matrix_exc + nat" where
  "matrix_main env unescape str_of nw cfg st =
     rbind (legacy_rp_legacy_op env unescape nw cfg (st\<lparr>last_totp_counter := Some (- 1)\<rparr>)) (\<lambda>(st1, legacy_session, _).
     rbind (legacy_rp_enabled_op env unescape nw cfg st1) (\<lambda>(st2, _, _).
     rbind (fallback_legacy_op env unescape nw cfg legacy_session st2) (\<lambda>(st3, _).
     rbind (enabled_rp_enabled_op env unescape nw cfg st3) (\<lambda>(st4, _).
     rbind (informational_op env unescape str_of nw cfg st4) (\<lambda>_. Inr 0)))))"

section \<open>What the helpers establish\<close>

text \<open>A section of the result page holds a value that does, or does not, contain the details.\<close>

definition carries :: "py_env \<Rightarrow> (ustr \<Rightarrow> ustr) \<Rightarrow> ustr \<Rightarrow> authorization_result \<Rightarrow> bool" where
  "carries env unescape heading r \<longleftrightarrow>
     (\<exists>v. json_section env unescape heading r = Inr v \<and> py_in (U ''amr_details'') v = Inr True)"

lemma lift_Inr [simp]:
  "lift_run r = Inr x \<longleftrightarrow> r = Inr x" "lift_drive r' = Inr y \<longleftrightarrow> r' = Inr y"
  by (auto simp: lift_run_def lift_drive_def split: sum.splits)

lemma require_Inr [simp]: "require c f = Inr u \<longleftrightarrow> c" "require True f = Inr ()"
  by (simp_all add: require_def)

lemma has_details_False:
  "has_details env unescape r = Inr False \<Longrightarrow>
     \<not> carries env unescape id_token_heading r \<and> \<not> carries env unescape userinfo_heading r"
  by (auto simp: has_details_def rbind_eq_Inr carries_def split: if_splits)

lemma authorized_success:
  "authorized env unescape nw cfg st cl session pl oc = Inr (st', s', r) \<Longrightarrow>
     require_success unescape r = Inr r"
  by (auto simp: authorized_def rbind_eq_Inr require_success_def split: option.splits if_splits)

lemma before_last_None: "before_last pat s = None \<longleftrightarrow> \<not> contains s pat"
proof (induction s)
  case Nil
  then show ?case by (simp add: contains_def)
next
  case (Cons c s)
  then show ?case by (auto simp: contains_def split: option.splits)
qed

lemma before_last_split: "\<not> contains (tl (pat @ s)) pat \<Longrightarrow> pat \<noteq> [] \<Longrightarrow> before_last pat (a @ pat @ s) = Some a"
proof (induction a)
  case Nil
  then obtain c t where p: "pat @ s = c # t" by (cases "pat @ s") auto
  have "startswith (pat @ s) pat" by simp
  with Nil p show ?case by (simp add: before_last_None [symmetric])
qed simp

lemma plain_request_logged:
  assumes "plain_request (logged nw) st call = Inr (st', r)"
  shows "snd (net st') = snd (net st) @ [(call, r)]"
  using assms request_logged(1) by (fastforce simp: plain_request_def rbind_eq_Inr)

definition ordinary :: "py_env \<Rightarrow> (ustr \<Rightarrow> ustr) \<Rightarrow> authorization_result \<Rightarrow> bool" where
  "ordinary env unescape r \<longleftrightarrow> require_success unescape r = Inr r
     \<and> \<not> carries env unescape id_token_heading r \<and> \<not> carries env unescape userinfo_heading r"

lemma authorized_Inr:
  "authorized env unescape nw cfg st cl session pl oc = Inr (st', s', r) \<longleftrightarrow>
     authorize env nw cfg st cl session pl oc False False = Inr (st', s', r) \<and> require_success unescape r = Inr r"
  by (auto simp: authorized_def rbind_eq_Inr require_success_def split: option.splits if_splits)

lemma ordinary_success_Inr:
  "ordinary_success env unescape nw cfg e label session pl st = Inr (st', s', r) \<Longrightarrow>
     authorize env nw cfg (configure e st) [] session pl True False False = Inr (st', s', r) \<and> ordinary env unescape r"
  by (auto simp: ordinary_success_def rbind_eq_Inr authorized_Inr ordinary_def dest: has_details_False)

text \<open>What the steps of a run leave behind, each from one state of the runner to the next: a discovery document that
  was read, a flow with its requests, a change of the realm.\<close>

definition discovered ::
  "py_env \<Rightarrow> 'n network \<Rightarrow> endpoint \<Rightarrow> ('n \<times> (http_call \<times> reply) list) runner \<Rightarrow> ('n \<times> (http_call \<times> reply) list) runner
     \<Rightarrow> (ustr, json) dict \<Rightarrow> bool" where
  "discovered env nw e st st' document \<longleftrightarrow>
     (\<exists>r. let call = Get (endpoint_issuer e @ U ''/.well-known/openid-configuration'') [] in
        plain_request (logged nw) st call = Inr (st', r) \<and> snd (net st') = snd (net st) @ [(call, r)]
        \<and> status_code r = 200 \<and> loads env (reply_text r) = Inr (JObj document))"

definition lists_details :: "(ustr, json) dict \<Rightarrow> bool" where
  "lists_details document \<longleftrightarrow>
     (\<exists>v. map_of document (U ''claims_supported'') = Some v \<and> py_in (U ''amr_details'') v = Inr True)"

definition flow_done ::
  "py_env \<Rightarrow> 'n network \<Rightarrow> runner_config \<Rightarrow> endpoint \<Rightarrow> ('n \<times> (http_call \<times> reply) list) runner \<Rightarrow> (ustr, json) dict
     \<Rightarrow> cookie list option \<Rightarrow> bool \<Rightarrow> bool \<Rightarrow> ('n \<times> (http_call \<times> reply) list) runner \<Rightarrow> cookie list
     \<Rightarrow> authorization_result \<Rightarrow> bool" where
  "flow_done env nw cfg e st rc session prompt_login omit_claims st' s' r \<longleftrightarrow>
     authorize env (logged nw) cfg (configure e st) rc session prompt_login omit_claims False False = Inr (st', s', r)
     \<and> configure e st' = st'
     \<and> (\<exists>data r0 k exch final. login_data env rc prompt_login omit_claims False = Inr data
          \<and> snd (net st') = snd (net st) @ (Post (endpoint_client e @ U ''/login'') data, r0) # exch
          \<and> conversation env nw cfg None r0 k exch (result_forms r) final \<and> result_text r = reply_text final)"

definition rebound ::
  "py_env \<Rightarrow> (json \<Rightarrow> ustr) \<Rightarrow> ('n \<times> (http_call \<times> reply) list) runner \<Rightarrow> ('n \<times> (http_call \<times> reply) list) runner \<Rightarrow> bool" where
  "rebound env str_of st st' \<longleftrightarrow>
     (\<exists>r1 r2 r3 token answer realm. let realm_url = U ''http://localhost:8186/admin/realms/oidc4ac'';
          headers = [(U ''Authorization'', U ''Bearer '' @ str_of token)] in
        snd (net st') = snd (net st) @
          [(Post (U ''http://localhost:8186/realms/master/protocol/openid-connect/token'') admin_data, r1),
           (Get realm_url headers, r2),
           (Put realm_url headers (JObj (AList.update (U ''browserFlow'') (JStr (U ''browser'')) realm)), r3)]
      \<and> status_code r1 = 200 \<and> loads env (reply_text r1) = Inr (JObj answer)
      \<and> map_of answer (U ''access_token'') = Some token \<and> loads env (reply_text r2) = Inr (JObj realm)
      \<and> (status_code r3 = 200 \<or> status_code r3 = 204))"

lemma configure_simps [simp]:
  "net (configure e st) = net st" "client_url (configure e st) = endpoint_client e"
  "configure e st\<lparr>net := n\<rparr> = configure e (st\<lparr>net := n\<rparr>)"
  by (simp_all add: configure_def)

lemma configured_iff: "configure e st = st \<longleftrightarrow> client_url st = endpoint_client e \<and> issuer_url st = endpoint_issuer e"
  by (cases st) (auto simp: configure_def)

lemma drive_configured:
  "drive fuel env (logged nw) cfg None st session r submitted = Inr (st', s', res) \<Longrightarrow>
     client_url st' = client_url st \<and> issuer_url st' = issuer_url st"
proof (induction fuel arbitrary: st session r submitted)
  case (Suc fuel)
  have "?case" if "request (logged nw) st1 session1 call = Inr (st2, s2, r2)" "client_url st1 = client_url st"
    "issuer_url st1 = issuer_url st" "drive fuel env (logged nw) cfg None st2 s2 r2 submitted2 = Inr (st', s', res)"
    for st1 session1 call st2 s2 r2 submitted2
    using Suc.IH [OF that(4)] request_logged(2,3) [OF that(1)] that(2,3) by simp
  note step = this
  have otp: "client_url st1 = client_url st \<and> issuer_url st1 = issuer_url st"
    if "next_code env (logged nw) cfg None st = Inr (st1, code)" for st1 code
    using that next_totp_logged(2,3) [of nw cfg st st1 code] by (simp add: next_code_def)
  show ?case
    using Suc.prems step [OF _ refl refl] step otp
    by (simp add: Let_def rbind_eq_Inr split: if_splits option.splits) (metis prod_cases3)+
qed simp

lemma flow_doneI:
  assumes "authorize env (logged nw) cfg (configure e st) rc session pl oc False False = Inr (st', s', r)"
  shows "flow_done env nw cfg e st rc session pl oc st' s' r"
proof -
  from assms obtain data st1 s1 r0 where a: "login_data env rc pl oc False = Inr data"
    "request (logged nw) (configure e st) (case session of None \<Rightarrow> [] | Some s \<Rightarrow> s)
       (Post (endpoint_client e @ U ''/login'') data) = Inr (st1, s1, r0)"
    "drive 16 env (logged nw) cfg None st1 s1 r0 [] = Inr (st', s', r)"
    by (auto simp: authorize_def previous_messages_def rbind_eq_Inr simp del: drive.simps split: if_splits)
  from drive_conversation [OF a(3)] obtain k exch final where "snd (net st') = snd (net st1) @ exch"
    "conversation env nw cfg None r0 k exch (result_forms r) final" "result_text r = reply_text final" by auto
  moreover have "client_url st' = endpoint_client e" "issuer_url st' = endpoint_issuer e"
    using drive_configured [OF a(3)] request_logged(2,3) [OF a(2)] by (simp_all add: configure_def)
  ultimately show ?thesis
    unfolding flow_done_def configured_iff using assms a(1) request_logged(1) [OF a(2)] by auto
qed

lemma advertises_Inr:
  "advertises v = Inr b \<Longrightarrow> \<exists>document. v = JObj document \<and> b = lists_details document"
  by (cases v) (auto simp: advertises_def rbind_eq_Inr py_get_def lists_details_def py_in_def split: option.splits)

lemma discovery_Inr:
  "endpoint_discovery env (logged nw) e st = Inr (st', JObj document) \<Longrightarrow> discovered env nw e st st' document"
proof -
  assume a: "endpoint_discovery env (logged nw) e st = Inr (st', JObj document)"
  let ?call = "Get (endpoint_issuer e @ U ''/.well-known/openid-configuration'') []"
  from a obtain r where r: "plain_request (logged nw) st ?call = Inr (st', r)" "status_code r = 200"
    "reply_json env r = Inr (JObj document)" by (auto simp: endpoint_discovery_def rbind_eq_Inr)
  have "loads env (reply_text r) = Inr (JObj document)" using r(3) by (simp add: reply_json_def split: sum.splits)
  with plain_request_logged [OF r(1)] r(1,2) show ?thesis unfolding discovered_def Let_def by blast
qed

lemma legacy_legacy_Inr:
  assumes "legacy_rp_legacy_op env unescape (logged nw) cfg st = Inr (st', s', r)"
  shows "\<exists>t document. discovered env nw DISABLED st t document \<and> \<not> lists_details document
    \<and> flow_done env nw cfg DISABLED t [] None True True st' s' r \<and> ordinary env unescape r"
  using assms
  by (fastforce simp: legacy_rp_legacy_op_def rbind_eq_Inr dest!: ordinary_success_Inr advertises_Inr intro: discovery_Inr flow_doneI)

lemma legacy_enabled_Inr:
  assumes "legacy_rp_enabled_op env unescape (logged nw) cfg st = Inr (st', s', r)"
  shows "\<exists>t document. discovered env nw ENABLED st t document \<and> lists_details document
    \<and> flow_done env nw cfg ENABLED t [] None True True st' s' r \<and> ordinary env unescape r"
  using assms
  by (fastforce simp: legacy_rp_enabled_op_def rbind_eq_Inr dest!: ordinary_success_Inr advertises_Inr intro: discovery_Inr flow_doneI)

abbreviation pwd_request :: "(ustr, json) dict" where
  "pwd_request \<equiv> claims (amr_method (U ''pwd'') None None) True True True"

abbreviation pop_request :: "(ustr, json) dict" where
  "pop_request \<equiv> claims (amr_method (U ''pop'') None None) True True True"

lemma fallback_Inr:
  assumes "fallback_legacy_op env unescape (logged nw) cfg session st = Inr (st', r)"
  shows "\<exists>t1 s1 r1 s2. flow_done env nw cfg DISABLED st [] (Some session) False True t1 s1 r1 \<and> ordinary env unescape r1
    \<and> flow_done env nw cfg DISABLED t1 pwd_request (Some s1) False False st' s2 r \<and> ordinary env unescape r"
proof -
  from assms obtain t1 s1 r1 s2 where f:
    "authorize env (logged nw) cfg (configure DISABLED st) [] (Some session) False True False False = Inr (t1, s1, r1)"
    "ordinary env unescape r1" "ordinary env unescape r"
    "authorize env (logged nw) cfg t1 pwd_request (Some s1) False False False False = Inr (st', s2, r)"
    by (auto simp: fallback_legacy_op_def rbind_eq_Inr authorized_Inr ordinary_def [of _ _ r]
        dest!: ordinary_success_Inr has_details_False)
  note first = flow_doneI [OF f(1)]
  then have "configure DISABLED t1 = t1" by (simp add: flow_done_def)
  with f(4) have "flow_done env nw cfg DISABLED t1 pwd_request (Some s1) False False st' s2 r" by (intro flow_doneI) simp
  with first f(2,3) show ?thesis by blast
qed

definition reports_pwd_first :: "py_env \<Rightarrow> (ustr \<Rightarrow> ustr) \<Rightarrow> ustr \<Rightarrow> authorization_result \<Rightarrow> bool" where
  "reports_pwd_first env unescape heading r \<longleftrightarrow>
     (\<exists>v. json_section env unescape heading r = Inr v \<and> py_in (U ''amr_details'') v = Inr True
        \<and> first_identifier v = Inr (JStr (U ''pwd'')))"

lemma enabled_Inr:
  assumes "enabled_rp_enabled_op env unescape (logged nw) cfg st = Inr (st', r)"
  shows "\<exists>s'. flow_done env nw cfg ENABLED st pwd_request None True False st' s' r
    \<and> reports_pwd_first env unescape id_token_heading r \<and> reports_pwd_first env unescape userinfo_heading r"
  using assms
  by (auto simp: enabled_rp_enabled_op_def rbind_eq_Inr authorized_Inr reports_pwd_first_def intro: flow_doneI split: if_splits)

lemma enabled_base: "rsplit_first (endpoint_issuer ENABLED) (U ''/realms/'') = U ''http://localhost:8186''"
  by (simp add: rsplit_first_def ENABLED_def U_def)

lemma use_flow_rebound:
  assumes "use_flow_without_planner env str_of (logged nw) ENABLED st = Inr st'"
  shows "rebound env str_of st st'"
proof -
  have url: "U ''http://localhost:8186'' @ U ''/admin/realms/oidc4ac'' = U ''http://localhost:8186/admin/realms/oidc4ac''"
    "U ''http://localhost:8186'' @ U ''/realms/master/protocol/openid-connect/token'' =
     U ''http://localhost:8186/realms/master/protocol/openid-connect/token''"
    by (simp_all add: U_append [symmetric])
  from assms obtain st1 r1 v token st2 r2 realm realm' r3 where a:
    "plain_request (logged nw) st (Post (U ''http://localhost:8186/realms/master/protocol/openid-connect/token'') admin_data) = Inr (st1, r1)"
    "plain_request (logged nw) st1 (Get (U ''http://localhost:8186/admin/realms/oidc4ac'')
       [(U ''Authorization'', U ''Bearer '' @ str_of token)]) = Inr (st2, r2)"
    "reply_json env r2 = Inr realm" "set_member realm (U ''browserFlow'') (JStr (U ''browser'')) = Inr realm'"
    "plain_request (logged nw) st2 (Put (U ''http://localhost:8186/admin/realms/oidc4ac'')
       [(U ''Authorization'', U ''Bearer '' @ str_of token)] realm') = Inr (st', r3)"
    "status_code r3 = 200 \<or> status_code r3 = 204"
    "status_code r1 = 200" "reply_json env r1 = Inr v" "py_item v (U ''access_token'') = Inr token"
    unfolding use_flow_without_planner_def enabled_base Let_def url
    by (auto simp: rbind_eq_Inr)
  obtain ms where ms: "realm = JObj ms" "realm' = JObj (AList.update (U ''browserFlow'') (JStr (U ''browser'')) ms)"
    using a(4) by (auto simp: set_member_def split: json.splits)
  obtain answer where t: "v = JObj answer" "map_of answer (U ''access_token'') = Some token"
    using a(9) by (auto simp: py_item_def split: json.splits option.splits)
  have l: "loads env (reply_text r2) = Inr (JObj ms)" "loads env (reply_text r1) = Inr (JObj answer)"
    using a(3,8) ms(1) t(1) by (auto simp: reply_json_def split: sum.splits)
  show ?thesis
    unfolding rebound_def Let_def
    using plain_request_logged [OF a(1)] plain_request_logged [OF a(2)] plain_request_logged [OF a(5)] l a(6,7) ms(2) t(2)
    by (intro exI [of _ r1] exI [of _ r2] exI [of _ r3] exI [of _ token] exI [of _ answer] exI [of _ ms]) simp
qed

lemma informational_Inr:
  assumes "informational_op env unescape str_of (logged nw) cfg st = Inr (st', r)"
  shows "\<exists>t1 t2 document s' v executed. rebound env str_of st t1 \<and> discovered env nw ENABLED t1 t2 document
    \<and> lists_details document \<and> map_of document (U ''amr_details_request_supported'') = Some (JBool False)
    \<and> flow_done env nw cfg ENABLED t2 pop_request None True False st' s' r
    \<and> json_section env unescape id_token_heading r = Inr v \<and> detail_map v = Inr executed
    \<and> U ''pwd'' \<in> set (map fst executed) \<and> U ''pop'' \<notin> set (map fst executed)"
proof -
  from assms obtain t1 t2 metadata a b s' v executed where i:
    "use_flow_without_planner env str_of (logged nw) ENABLED st = Inr t1"
    "endpoint_discovery env (logged nw) ENABLED t1 = Inr (t2, metadata)" "advertises metadata = Inr a"
    "(if a then rbind (py_get metadata (U ''amr_details_request_supported'') JNull) (\<lambda>v. Inr (v = JBool False))
      else Inr False) = Inr b" "b"
    "authorize env (logged nw) cfg (configure ENABLED t2) pop_request None True False False False = Inr (st', s', r)"
    "json_section env unescape id_token_heading r = Inr v" "detail_map v = Inr executed"
    "U ''pwd'' \<in> set (map fst executed)" "U ''pop'' \<notin> set (map fst executed)"
    unfolding informational_op_def rbind_eq_Inr split_paired_Ex prod.case authorized_Inr lift_Inr require_Inr sum.inject prod.inject
    by (elim exE conjE) blast
  from advertises_Inr [OF i(3)] obtain document where d: "metadata = JObj document" "a = lists_details document" by blast
  then have "lists_details document" "map_of document (U ''amr_details_request_supported'') = Some (JBool False)"
    using i(4,5) by (auto simp: rbind_eq_Inr py_get_def split: if_splits option.splits)
  with use_flow_rebound [OF i(1)] discovery_Inr [OF i(2) [unfolded d(1)]] flow_doneI [OF i(6)] i(7-10) show ?thesis by blast
qed

section \<open>Properties\<close>

text \<open>C32: a compatibility run that ends with 0 has seen what it claims. It is one chain of steps from the state it
  starts in, each with exactly the requests it sent: the legacy issuer's document was read and does
  not list the details, and an ordinary flow with it succeeded with no details in either token; the enabled issuer's document
  lists them, and an ordinary flow with it has none either; with the session of the first flow, a second ordinary
  flow with the legacy issuer succeeded without details, and with that session a structured request, answered
  without details; a structured request to the enabled issuer delivered the details in both tokens with
  the password first; then the realm was rewritten with what was read from it and the built-in browser flow, by
  an administrator's token; after that, the issuer's document lists the details and denies request
  support, and a flow that asks for a method it does not run reported the password and not that method.\<close>

theorem matrix_passes:
  assumes "matrix_main env unescape str_of (logged nw) cfg st = Inr n"
  shows "n = 0 \<and> (\<exists>t1 t2 t5 t6 m1 m2 m6 u1 u2 u3 u4 u5 u6 s1 s2 s3 s4 s5 s6 a b c d e f v executed.
      discovered env nw DISABLED (st\<lparr>last_totp_counter := Some (- 1)\<rparr>) t1 m1 \<and> \<not> lists_details m1
    \<and> flow_done env nw cfg DISABLED t1 [] None True True u1 s1 a \<and> ordinary env unescape a
    \<and> discovered env nw ENABLED u1 t2 m2 \<and> lists_details m2
    \<and> flow_done env nw cfg ENABLED t2 [] None True True u2 s2 b \<and> ordinary env unescape b
    \<and> flow_done env nw cfg DISABLED u2 [] (Some s1) False True u3 s3 c \<and> ordinary env unescape c
    \<and> flow_done env nw cfg DISABLED u3 pwd_request (Some s3) False False u4 s4 d \<and> ordinary env unescape d
    \<and> flow_done env nw cfg ENABLED u4 pwd_request None True False u5 s5 e
    \<and> reports_pwd_first env unescape id_token_heading e \<and> reports_pwd_first env unescape userinfo_heading e
    \<and> rebound env str_of u5 t5
    \<and> discovered env nw ENABLED t5 t6 m6 \<and> lists_details m6
    \<and> map_of m6 (U ''amr_details_request_supported'') = Some (JBool False)
    \<and> flow_done env nw cfg ENABLED t6 pop_request None True False u6 s6 f
    \<and> json_section env unescape id_token_heading f = Inr v \<and> detail_map v = Inr executed
    \<and> U ''pwd'' \<in> set (map fst executed) \<and> U ''pop'' \<notin> set (map fst executed))"
proof -
  from assms obtain u1 s1 a u2 s2 b u4 d u5 e u6 f where m:
    "legacy_rp_legacy_op env unescape (logged nw) cfg (st\<lparr>last_totp_counter := Some (- 1)\<rparr>) = Inr (u1, s1, a)"
    "legacy_rp_enabled_op env unescape (logged nw) cfg u1 = Inr (u2, s2, b)"
    "fallback_legacy_op env unescape (logged nw) cfg s1 u2 = Inr (u4, d)"
    "enabled_rp_enabled_op env unescape (logged nw) cfg u4 = Inr (u5, e)"
    "informational_op env unescape str_of (logged nw) cfg u5 = Inr (u6, f)" "n = 0"
    by (auto simp: matrix_main_def rbind_eq_Inr)
  show ?thesis
    using legacy_legacy_Inr [OF m(1)] legacy_enabled_Inr [OF m(2)] fallback_Inr [OF m(3)] enabled_Inr [OF m(4)]
      informational_Inr [OF m(5)] m(6)
    by (elim exE conjE) (intro conjI exI, assumption+)
qed

section \<open>A passing run\<close>

text \<open>A network whose state is the list of the replies to come, for the witnesses: every flow redirects to a page.\<close>

definition json_reply :: "ustr \<Rightarrow> reply" where
  "json_reply t = \<lparr>status_code = 200, reply_url = [], is_redirect = False, location = None, reply_text = t\<rparr>"

definition redirect_reply :: reply where
  "redirect_reply = \<lparr>status_code = 302, reply_url = [], is_redirect = True, location = Some [], reply_text = []\<rparr>"

definition scripted :: "reply list network" where
  "scripted = \<lparr>send = (\<lambda>rs c call. case rs of [] \<Rightarrow> ([], None) | r # rs' \<Rightarrow> (rs', Some (c, r))),
     clock = (\<lambda>rs. (rs, 0, 0, 31)),
     monotonic = (\<lambda>rs. (rs, 0)), sleep = (\<lambda>rs d. rs), tokenize = (\<lambda>s. []), urljoin = (\<lambda>u l. u), url_path = (\<lambda>u. u),
     chars = sample_cd, repr_of = (\<lambda>v. [])\<rparr>"

definition sample_page :: "ustr \<Rightarrow> ustr \<Rightarrow> ustr" where
  "sample_page i u = U ''Verified authentication context'' @ U ''<h2>Verified ID Token</h2><pre>'' @ i @ U ''</pre>''
     @ U ''<h2>Access-token-bound UserInfo</h2><pre>'' @ u @ U ''</pre>''"

definition plain_page :: ustr where
  "plain_page = sample_page (U ''{}'') (U ''{}'')"

definition pwd_details :: ustr where
  "pwd_details = U ''{\"amr\":[\"pwd\"],\"amr_details\":[{\"amr_identifier\":\"pwd\",\"amr_metadata\":{\"time\":\"t\"}}]}''"

definition details_page :: ustr where
  "details_page = sample_page pwd_details pwd_details"

lemma scripted_request:
  "net st = (r # rs, l) \<Longrightarrow> request (logged scripted) st session call = Inr (st\<lparr>net := (rs, l @ [(call, r)])\<rparr>, session, r)"
  by (simp add: request_def logged_def scripted_def)

lemma logged_plain:
  "net st = (r # rs, l) \<Longrightarrow> plain_request (logged scripted) st call = Inr (st\<lparr>net := (rs, l @ [(call, r)])\<rparr>, r)"
  by (simp add: plain_request_def scripted_request lift_drive_def)

lemma marked_page: "terminal_page (json_reply (sample_page i u))"
  using contains_middle [of "[]"] by (simp add: terminal_page_def json_reply_def sample_page_def)

lemma scripted_authorize:
  assumes "net st = (redirect_reply # json_reply (sample_page i u) # rs, l)"
    and "login_data env cl pl oc False = Inr data" "session = None \<or> session = Some []"
  shows "\<exists>l'. authorize env (logged scripted) cfg st cl session pl oc False False =
     Inr (st\<lparr>net := (rs, l')\<rparr>, [], \<lparr>result_text = sample_page i u, result_forms = []\<rparr>)"
proof -
  have "\<exists>l'. drive (Suc (Suc k)) env (logged scripted) cfg None (st\<lparr>net := (json_reply (sample_page i u) # rs, m)\<rparr>) [] redirect_reply [] =
     Inr (st\<lparr>net := (rs, l')\<rparr>, [], \<lparr>result_text = sample_page i u, result_forms = []\<rparr>)" for k m
    using marked_page [of i u]
    by (simp add: scripted_request redirect_reply_def json_reply_def allow_loopback_secure_cookies_def)
       (simp add: scripted_def parse_forms_def, blast)
  from this [of 14] show ?thesis
    using assms by (auto simp: authorize_def previous_messages_def scripted_request eval_nat_numeral redirect_reply_def simp del: drive.simps)
qed

lemma page_sections:
  "section_text id_token_heading plain_page = Some (U ''{}'')"
  "section_text userinfo_heading plain_page = Some (U ''{}'')"
  "section_text id_token_heading details_page = Some pwd_details"
  "section_text userinfo_heading details_page = Some pwd_details"
  by (simp_all add: section_text_def plain_page_def details_page_def sample_page_def pwd_details_def U_def)

lemma no_public_error: "public_error unescape \<lparr>result_text = plain_page, result_forms = fs\<rparr> = None"
  "public_error unescape \<lparr>result_text = details_page, result_forms = fs\<rparr> = None"
  by (simp_all add: public_error_def plain_page_def details_page_def sample_page_def pwd_details_def U_def)

definition pwd_token :: json where
  "pwd_token = JObj [(U ''amr'', JArr [JStr (U ''pwd'')]), (U ''amr_details'', JArr [JObj [(U ''amr_identifier'', JStr (U ''pwd'')),
     (U ''amr_metadata'', JObj [(U ''time'', JStr (U ''t''))])]])]"

abbreviation page_result :: "ustr \<Rightarrow> authorization_result" where
  "page_result t \<equiv> \<lparr>result_text = t, result_forms = []\<rparr>"

lemma page_values:
  "loads sample_env (U ''{}'') = Inr (JObj [])"
  "loads sample_env pwd_details = Inr pwd_token"
  by (simp_all add: json_eval pwd_details_def pwd_token_def cong: json_eval_cong)

lemma page_json [simp]:
  "json_section sample_env (\<lambda>s. s) id_token_heading (page_result plain_page) = Inr (JObj [])"
  "json_section sample_env (\<lambda>s. s) userinfo_heading (page_result plain_page) = Inr (JObj [])"
  "json_section sample_env (\<lambda>s. s) id_token_heading (page_result details_page) = Inr pwd_token"
  "json_section sample_env (\<lambda>s. s) userinfo_heading (page_result details_page) = Inr pwd_token"
  by (simp_all add: json_section_def page_sections page_values)

lemma pages_succeed [simp]:
  "require_success u (page_result plain_page) = Inr (page_result plain_page)"
  "require_success u (page_result details_page) = Inr (page_result details_page)"
  using contains_middle [of "[]" "U ''Verified authentication context''"]
  by (simp_all add: require_success_def no_public_error) (simp_all add: plain_page_def details_page_def sample_page_def)

definition legacy_metadata_text :: ustr where
  "legacy_metadata_text = U ''{\"claims_supported\":[]}''"

definition enabled_metadata_text :: ustr where
  "enabled_metadata_text = U ''{\"claims_supported\":[\"amr_details\"],\"amr_details_request_supported\":false}''"

lemma script_values [simp]:
  "reply_json sample_env (json_reply legacy_metadata_text) = Inr (JObj [(U ''claims_supported'', JArr [])])"
  "reply_json sample_env (json_reply enabled_metadata_text) =
     Inr (JObj [(U ''claims_supported'', JArr [JStr (U ''amr_details'')]), (U ''amr_details_request_supported'', JBool False)])"
  "reply_json sample_env (json_reply (U ''{\"access_token\":\"x\"}'')) = Inr (JObj [(U ''access_token'', JStr (U ''x''))])"
  "reply_json sample_env (json_reply (U ''{\"realm\":\"oidc4ac\"}'')) = Inr (JObj [(U ''realm'', JStr (U ''oidc4ac''))])"
  by (simp_all add: reply_json_def json_reply_def legacy_metadata_text_def enabled_metadata_text_def json_eval
      cong: json_eval_cong)

lemma json_reply_status [simp]: "status_code (json_reply t) = 200"
  by (simp add: json_reply_def)

lemma scripted_page:
  assumes "net st = (redirect_reply # json_reply page # rs, l)" "page = plain_page \<or> page = details_page"
    and "\<exists>data. login_data sample_env cl pl oc False = Inr data" "session = None \<or> session = Some []"
  shows "\<exists>l'. authorized sample_env (\<lambda>s. s) (logged scripted) cfg st cl session pl oc =
     Inr (st\<lparr>net := (rs, l')\<rparr>, [], page_result page)"
proof -
  obtain i u where p: "page = sample_page i u" using assms(2) by (auto simp: plain_page_def details_page_def)
  obtain data where d: "login_data sample_env cl pl oc False = Inr data" using assms(3) by blast
  obtain l' where "authorize sample_env (logged scripted) cfg st cl session pl oc False False
      = Inr (st\<lparr>net := (rs, l')\<rparr>, [], page_result page)"
    using scripted_authorize [OF assms(1) [unfolded p] d assms(4)] unfolding p by blast
  moreover have "require_success (\<lambda>s. s) (page_result page) = Inr (page_result page)"
    using assms(2) by auto
  ultimately show ?thesis by (auto simp: authorized_Inr)
qed

lemma login_data_samples:
  "\<exists>d. login_data sample_env cl pl True False = Inr d"
  "\<exists>d. login_data sample_env pwd_request pl False False = Inr d"
  "\<exists>d. login_data sample_env pop_request pl False False = Inr d"
  by (simp_all add: login_data_def dumps_default_def claims_def amr_method_def spread_def Let_def)

lemma py_samples [simp]:
  "py_in k (JObj ms) = Inr (k \<in> set (map fst ms))" "py_in k (JArr vs) = Inr (JStr k \<in> set vs)"
  "py_get (JObj ms) k d = Inr (case map_of ms k of None \<Rightarrow> d | Some x \<Rightarrow> x)"
  "lift_run (Inr x) = Inr x"
  by (simp_all add: py_in_def py_get_def lift_run_def)

lemma plain_ordinary:
  assumes "net st = (redirect_reply # json_reply plain_page # rs, l)" "session = None \<or> session = Some []"
  shows "\<exists>l'. ordinary_success sample_env (\<lambda>s. s) (logged scripted) cfg e label session pl st =
     Inr (configure e (st\<lparr>net := (rs, l')\<rparr>), [], page_result plain_page)"
  using scripted_page [of "configure e st" plain_page rs l "[]" pl True session cfg] login_data_samples(1) assms
  by (auto simp: ordinary_success_def has_details_def)

text \<open>Each stage consumes its part of the script.\<close>

lemma scripted_discovery:
  assumes "net st = (json_reply t # rs, l)" "reply_json sample_env (json_reply t) = Inr v"
  shows "\<exists>l'. endpoint_discovery sample_env (logged scripted) e st = Inr (st\<lparr>net := (rs, l')\<rparr>, v)"
  using assms by (simp add: endpoint_discovery_def logged_plain) blast

lemma stage_1:
  assumes "net st = (json_reply legacy_metadata_text # redirect_reply # json_reply plain_page # rs, l)"
  shows "\<exists>l'. legacy_rp_legacy_op sample_env (\<lambda>s. s) (logged scripted) cfg st =
     Inr (configure DISABLED (st\<lparr>net := (rs, l')\<rparr>), [], page_result plain_page)"
proof -
  from scripted_discovery [OF assms script_values(1)] obtain m where d:
    "endpoint_discovery sample_env (logged scripted) DISABLED st
       = Inr (st\<lparr>net := (redirect_reply # json_reply plain_page # rs, m)\<rparr>, JObj [(U ''claims_supported'', JArr [])])" by blast
  show ?thesis
    using plain_ordinary [of "st\<lparr>net := (redirect_reply # json_reply plain_page # rs, m)\<rparr>" rs m None cfg DISABLED]
    by (simp add: legacy_rp_legacy_op_def d advertises_def)
qed

lemma stage_2:
  assumes "net st = (json_reply enabled_metadata_text # redirect_reply # json_reply plain_page # rs, l)"
  shows "\<exists>l'. legacy_rp_enabled_op sample_env (\<lambda>s. s) (logged scripted) cfg st =
     Inr (configure ENABLED (st\<lparr>net := (rs, l')\<rparr>), [], page_result plain_page)"
proof -
  have v: "advertises (JObj [(U ''claims_supported'', JArr [JStr (U ''amr_details'')]),
      (U ''amr_details_request_supported'', JBool False)]) = Inr True" by (simp add: advertises_def)
  with scripted_discovery [OF assms script_values(2), of ENABLED] obtain m v where d:
    "endpoint_discovery sample_env (logged scripted) ENABLED st
       = Inr (st\<lparr>net := (redirect_reply # json_reply plain_page # rs, m)\<rparr>, v)" "advertises v = Inr True" by blast
  show ?thesis
    using plain_ordinary [of "st\<lparr>net := (redirect_reply # json_reply plain_page # rs, m)\<rparr>" rs m None cfg ENABLED]
    by (simp add: legacy_rp_enabled_op_def d)
qed

lemma stage_3:
  assumes "net st = (redirect_reply # json_reply plain_page # redirect_reply # json_reply plain_page # rs, l)"
  shows "\<exists>l'. fallback_legacy_op sample_env (\<lambda>s. s) (logged scripted) cfg [] st =
     Inr (configure DISABLED (st\<lparr>net := (rs, l')\<rparr>), page_result plain_page)"
proof -
  from plain_ordinary [OF assms, of "Some []" cfg DISABLED "U ''OIDC4AC RP / legacy OP fallback''" False] obtain m where o:
    "ordinary_success sample_env (\<lambda>s. s) (logged scripted) cfg DISABLED (U ''OIDC4AC RP / legacy OP fallback'') (Some []) False st
     = Inr (configure DISABLED (st\<lparr>net := (redirect_reply # json_reply plain_page # rs, m)\<rparr>), [], page_result plain_page)" by auto
  show ?thesis
    using scripted_page [of "configure DISABLED (st\<lparr>net := (redirect_reply # json_reply plain_page # rs, m)\<rparr>)" plain_page rs m
        pwd_request False False "Some []" cfg] login_data_samples(2)
    by (auto simp: fallback_legacy_op_def o has_details_def)
qed

lemma stage_4:
  assumes "net st = (redirect_reply # json_reply details_page # rs, l)"
  shows "\<exists>l'. enabled_rp_enabled_op sample_env (\<lambda>s. s) (logged scripted) cfg st =
     Inr (configure ENABLED (st\<lparr>net := (rs, l')\<rparr>), page_result details_page)"
  using assms scripted_page [of "configure ENABLED st" details_page rs l pwd_request True False None cfg] login_data_samples(2)
  by (auto simp: enabled_rp_enabled_op_def pwd_token_def first_identifier_def py_item_def py_first_def)

lemma binding_succeeds:
  assumes "net st = (json_reply (U ''{\"access_token\":\"x\"}'') # json_reply (U ''{\"realm\":\"oidc4ac\"}'') # json_reply [] # rs, l)"
  shows "\<exists>l'. use_flow_without_planner sample_env str_of (logged scripted) ENABLED st = Inr (st\<lparr>net := (rs, l')\<rparr>)"
  using assms by (simp add: use_flow_without_planner_def Let_def py_item_def set_member_def logged_plain) blast

lemma pwd_token_map: "\<exists>d. detail_map pwd_token = Inr [(U ''pwd'', d)]"
  by (simp add: detail_map_def pwd_token_def details_of_def text_member_def detail_time_def spread_def)

lemma stage_5:
  assumes "net st = (json_reply (U ''{\"access_token\":\"x\"}'') # json_reply (U ''{\"realm\":\"oidc4ac\"}'') # json_reply []
     # json_reply enabled_metadata_text # redirect_reply # json_reply details_page # rs, l)"
  shows "\<exists>l'. informational_op sample_env (\<lambda>s. s) str_of (logged scripted) cfg st =
     Inr (configure ENABLED (st\<lparr>net := (rs, l')\<rparr>), page_result details_page)"
proof -
  obtain d where d: "detail_map pwd_token = Inr [(U ''pwd'', d)]" using pwd_token_map by blast
  from binding_succeeds [OF assms] obtain m where b: "use_flow_without_planner sample_env str_of (logged scripted) ENABLED st
    = Inr (st\<lparr>net := (json_reply enabled_metadata_text # redirect_reply # json_reply details_page # rs, m)\<rparr>)" by blast
  let ?st = "st\<lparr>net := (json_reply enabled_metadata_text # redirect_reply # json_reply details_page # rs, m)\<rparr>"
  from scripted_discovery [of ?st, OF _ script_values(2)] obtain k where e:
    "endpoint_discovery sample_env (logged scripted) ENABLED ?st = Inr (st\<lparr>net := (redirect_reply # json_reply details_page # rs, k)\<rparr>,
       JObj [(U ''claims_supported'', JArr [JStr (U ''amr_details'')]), (U ''amr_details_request_supported'', JBool False)])" by auto
  show ?thesis
    using scripted_page [of "configure ENABLED (st\<lparr>net := (redirect_reply # json_reply details_page # rs, k)\<rparr>)"
        details_page rs k pop_request True False None cfg] login_data_samples(3)
    by (auto simp: informational_op_def b e advertises_def d)
qed

text \<open>The whole script, and the runs of the witnesses.\<close>

definition binding_script :: "reply list" where
  "binding_script = [json_reply (U ''{\"access_token\":\"x\"}''), json_reply (U ''{\"realm\":\"oidc4ac\"}''), json_reply []]"

definition matrix_script :: "reply list" where
  "matrix_script =
    [json_reply legacy_metadata_text, redirect_reply, json_reply plain_page,
     json_reply enabled_metadata_text, redirect_reply, json_reply plain_page,
     redirect_reply, json_reply plain_page, redirect_reply, json_reply plain_page,
     redirect_reply, json_reply details_page] @ binding_script
    @ [json_reply enabled_metadata_text, redirect_reply, json_reply details_page]"

definition matrix_runner :: "'n \<Rightarrow> 'n runner" where
  "matrix_runner n = \<lparr>net = n, client_url = [], issuer_url = [], last_totp_counter = None\<rparr>"

lemma matrix_run:
  "matrix_main sample_env (\<lambda>s. s) str_of (logged scripted) cfg (matrix_runner (matrix_script, [])) = Inr 0"
proof -
  have n: "net ((matrix_runner (matrix_script, []))\<lparr>last_totp_counter := Some (- 1)\<rparr>) = (matrix_script, [])"
    by (simp add: matrix_runner_def)
  from stage_1 [OF n [unfolded matrix_script_def append_Cons], of cfg] obtain st1 l1 where 1:
    "legacy_rp_legacy_op sample_env (\<lambda>s. s) (logged scripted) cfg ((matrix_runner (matrix_script, []))\<lparr>last_totp_counter := Some (- 1)\<rparr>)
      = Inr (st1, [], page_result plain_page)" "net st1 = (drop 3 matrix_script, l1)"
    by (auto simp: matrix_script_def matrix_runner_def)
  from stage_2 [of st1 _ l1 cfg] 1(2) obtain st2 l2 where 2:
    "legacy_rp_enabled_op sample_env (\<lambda>s. s) (logged scripted) cfg st1 = Inr (st2, [], page_result plain_page)"
    "net st2 = (drop 6 matrix_script, l2)" by (auto simp: matrix_script_def)
  from stage_3 [of st2 _ l2 cfg] 2(2) obtain st3 l3 where 3:
    "fallback_legacy_op sample_env (\<lambda>s. s) (logged scripted) cfg [] st2 = Inr (st3, page_result plain_page)"
    "net st3 = (drop 10 matrix_script, l3)" by (auto simp: matrix_script_def)
  from stage_4 [of st3 _ l3 cfg] 3(2) obtain st4 l4 where 4:
    "enabled_rp_enabled_op sample_env (\<lambda>s. s) (logged scripted) cfg st3 = Inr (st4, page_result details_page)"
    "net st4 = (drop 12 matrix_script, l4)" by (auto simp: matrix_script_def)
  from stage_5 [of st4 _ l4 str_of cfg] 4(2) obtain st5 where
    "informational_op sample_env (\<lambda>s. s) str_of (logged scripted) cfg st4 = Inr (st5, page_result details_page)"
    by (auto simp: matrix_script_def binding_script_def)
  with 1(1) 2(1) 3(1) 4(1) show ?thesis by (simp add: matrix_main_def)
qed

theorem matrix_passes_witness:
  "\<exists>u5 t5 t6 u6 s6 f document. rebound sample_env (\<lambda>v. []) u5 t5 \<and> discovered sample_env scripted ENABLED t5 t6 document
     \<and> lists_details document \<and> map_of document (U ''amr_details_request_supported'') = Some (JBool False)
     \<and> flow_done sample_env scripted sample_credentials ENABLED t6 pop_request None True False u6 s6 f"
  using matrix_passes [OF matrix_run [of "\<lambda>v. []" sample_credentials]] by blast

end
