(* ===== verification/Feature_Disabled.thy ===== *)
theory Feature_Disabled
  imports Compat_Matrix
begin

text \<open>
  The check of a server without the feature (tests/feature-disabled.py), on the requests of
  E2E_Network and the JSON helpers of Compat_Matrix. \<open>issuer\<close> is the module's \<open>ISSUER\<close>, \<open>str_of\<close> the
  formatting of a value in an f-string. Printing is left out.

  Proved: what a check that returns 0 has sent and seen.
\<close>

section \<open>The script\<close>

datatype disabled_failure = DisabledDiscovery nat | AdvertisesDetails | AdvertisesMethods | DisabledAdminToken
  | BuiltInFlow nat | DisabledAuthorization nat | ExperimentalError

datatype disabled_exc = CheckFailed disabled_failure | Other matrix_exc

definition lift_other :: "matrix_exc + 'a \<Rightarrow> disabled_exc + 'a" where
  "lift_other r = (case r of Inl e \<Rightarrow> Inl (Other e) | Inr x \<Rightarrow> Inr x)"

definition check_that :: "bool \<Rightarrow> disabled_failure \<Rightarrow> disabled_exc + unit" where
  "check_that condition f = (if condition then Inr () else Inl (CheckFailed f))"

definition disabled_parameters :: "(ustr, ustr) dict" where
  "disabled_parameters = [(U ''response_type'', U ''code''), (U ''client_id'', U ''oidc4ac-test-client''),
     (U ''redirect_uri'', U ''http://localhost:5003/callback''), (U ''scope'', U ''openid''),
     (U ''state'', U ''feature-disabled-state''), (U ''nonce'', U ''feature-disabled-nonce''),
     (U ''claims'', U ''{\"id_token\":{\"amr_details\":{\"amr_identifier\":{\"value\":\"pwd\"}}}}'')]"

definition disabled_headers :: "ustr \<Rightarrow> (ustr, ustr) dict" where
  "disabled_headers token = [(U ''Authorization'', U ''Bearer '' @ token), (U ''Content-Type'', U ''application/json'')]"

abbreviation disabled_token_url :: ustr where
  "disabled_token_url \<equiv> U ''http://localhost:8187/realms/master/protocol/openid-connect/token''"

abbreviation disabled_realm_url :: ustr where
  "disabled_realm_url \<equiv> U ''http://localhost:8187/admin/realms/oidc4ac''"

text \<open>\<open>main\<close>: discovery, the realm's browser flow, an authorization request; one definition for each.\<close>

definition disabled_discovery :: "py_env \<Rightarrow> 'n network \<Rightarrow> ustr \<Rightarrow> 'n runner \<Rightarrow> disabled_exc + 'n runner" where
  "disabled_discovery env nw issuer st =
     rbind (lift_other (plain_request nw st (Get (issuer @ U ''/.well-known/openid-configuration'') []))) (\<lambda>(st1, r).
     rbind (check_that (status_code r = 200) (DisabledDiscovery (status_code r))) (\<lambda>_.
     rbind (lift_other (reply_json env r)) (\<lambda>metadata.
     rbind (lift_other (advertises metadata)) (\<lambda>b.
     rbind (check_that (\<not> b) AdvertisesDetails) (\<lambda>_.
     rbind (lift_other (py_in (U ''amr_identifiers_supported'') metadata)) (\<lambda>c.
     rbind (check_that (\<not> c) AdvertisesMethods) (\<lambda>_. Inr st1)))))))"

definition disabled_flow :: "py_env \<Rightarrow> (json \<Rightarrow> ustr) \<Rightarrow> 'n network \<Rightarrow> 'n runner \<Rightarrow> disabled_exc + 'n runner" where
  "disabled_flow env str_of nw st =
     rbind (lift_other (plain_request nw st (Post disabled_token_url admin_data))) (\<lambda>(st1, admin).
     rbind (check_that (status_code admin = 200) DisabledAdminToken) (\<lambda>_.
     rbind (lift_other (reply_json env admin)) (\<lambda>v.
     rbind (lift_other (py_item v (U ''access_token''))) (\<lambda>access.
     rbind (lift_other (plain_request nw st1 (Get disabled_realm_url (disabled_headers (str_of access))))) (\<lambda>(st2, fetched).
     rbind (lift_other (reply_json env fetched)) (\<lambda>realm.
     rbind (lift_other (set_member realm (U ''browserFlow'') (JStr (U ''browser'')))) (\<lambda>realm'.
     rbind (lift_other (plain_request nw st2 (Put disabled_realm_url (disabled_headers (str_of access)) realm'))) (\<lambda>(st3, update).
     rbind (check_that (status_code update = 204 \<or> status_code update = 200) (BuiltInFlow (status_code update))) (\<lambda>_.
       Inr st3)))))))))"

definition disabled_authorization :: "'n network \<Rightarrow> ustr \<Rightarrow> 'n runner \<Rightarrow> disabled_exc + 'n runner" where
  "disabled_authorization nw issuer st =
     rbind (lift_other (plain_request nw st (GetQuery (issuer @ U ''/protocol/openid-connect/auth'') disabled_parameters))) (\<lambda>(st1, r).
     rbind (check_that (status_code r = 200 \<or> status_code r = 302) (DisabledAuthorization (status_code r))) (\<lambda>_.
     rbind (check_that (\<not> contains (reply_text r) (U ''unmet_authentication_requirements'')) ExperimentalError) (\<lambda>_.
       Inr st1)))"

definition disabled_main ::
  "py_env \<Rightarrow> (json \<Rightarrow> ustr) \<Rightarrow> 'n network \<Rightarrow> ustr \<Rightarrow> 'n runner \<Rightarrow> disabled_exc + ('n runner \<times> nat)" where
  "disabled_main env str_of nw issuer st =
     rbind (disabled_discovery env nw issuer st) (\<lambda>st1.
     rbind (disabled_flow env str_of nw st1) (\<lambda>st2.
     rbind (disabled_authorization nw issuer st2) (\<lambda>st3. Inr (st3, 0))))"

section \<open>What each part has sent and seen\<close>

lemma lift_other_Inr [simp]: "lift_other r = Inr x \<longleftrightarrow> r = Inr x"
  by (simp add: lift_other_def split: sum.splits)

lemma check_that_Inr [simp]: "check_that c f = Inr u \<longleftrightarrow> c"
  by (simp add: check_that_def)

lemma reply_json_Inr [simp]: "reply_json env r = Inr v \<longleftrightarrow> loads env (reply_text r) = Inr v"
  by (simp add: reply_json_def split: sum.splits)

text \<open>The metadata of a server that does not know the feature.\<close>

definition silent :: "(ustr, json) dict \<Rightarrow> bool" where
  "silent ms \<longleftrightarrow> map_of ms (U ''amr_identifiers_supported'') = None \<and> advertises (JObj ms) = Inr False"

lemma disabled_discovery_Inr:
  assumes "disabled_discovery env (logged nw) issuer st = Inr st'"
  shows "\<exists>r ms. snd (net st') = snd (net st) @ [(Get (issuer @ U ''/.well-known/openid-configuration'') [], r)]
    \<and> status_code r = 200 \<and> loads env (reply_text r) = Inr (JObj ms) \<and> silent ms"
proof -
  from assms obtain r v where a: "plain_request (logged nw) st (Get (issuer @ U ''/.well-known/openid-configuration'') []) = Inr (st', r)"
    "status_code r = 200" "loads env (reply_text r) = Inr v" "advertises v = Inr False"
    "py_in (U ''amr_identifiers_supported'') v = Inr False"
    by (auto simp: disabled_discovery_def rbind_eq_Inr)
  from a(4) obtain ms where ms: "v = JObj ms"
    by (cases v) (auto simp: advertises_def py_get_def rbind_eq_Inr)
  have "silent ms" using a(4,5) by (simp add: ms silent_def py_in_def map_of_eq_None_iff)
  with plain_request_logged [OF a(1)] a(2,3) ms show ?thesis by blast
qed

lemma disabled_flow_Inr:
  assumes "disabled_flow env str_of (logged nw) st = Inr st'"
  shows "\<exists>r1 r2 r3 token ms. let headers = disabled_headers (str_of token);
        realm = AList.update (U ''browserFlow'') (JStr (U ''browser'')) ms in
      snd (net st') = snd (net st) @ [(Post disabled_token_url admin_data, r1), (Get disabled_realm_url headers, r2),
        (Put disabled_realm_url headers (JObj realm), r3)]
    \<and> loads env (reply_text r2) = Inr (JObj ms)
    \<and> (\<forall>k. map_of realm k = (if k = U ''browserFlow'' then Some (JStr (U ''browser'')) else map_of ms k))"
proof -
  from assms obtain st1 r1 token st2 r2 realm realm' r3 where a:
    "plain_request (logged nw) st (Post disabled_token_url admin_data) = Inr (st1, r1)"
    "plain_request (logged nw) st1 (Get disabled_realm_url (disabled_headers (str_of token))) = Inr (st2, r2)"
    "loads env (reply_text r2) = Inr realm" "set_member realm (U ''browserFlow'') (JStr (U ''browser'')) = Inr realm'"
    "plain_request (logged nw) st2 (Put disabled_realm_url (disabled_headers (str_of token)) realm') = Inr (st', r3)"
    by (auto simp: disabled_flow_def rbind_eq_Inr)
  from a(4) obtain ms where ms: "realm = JObj ms" "realm' = JObj (AList.update (U ''browserFlow'') (JStr (U ''browser'')) ms)"
    by (cases realm) (auto simp: set_member_def)
  show ?thesis
    using plain_request_logged [OF a(1)] plain_request_logged [OF a(2)] plain_request_logged [OF a(5)] a(3) ms
    by (intro exI [of _ r1] exI [of _ r2] exI [of _ r3] exI [of _ token] exI [of _ ms])
       (auto simp: Let_def map_of_update)
qed

lemma disabled_authorization_Inr:
  assumes "disabled_authorization (logged nw) issuer st = Inr st'"
  shows "\<exists>r. snd (net st') = snd (net st) @ [(GetQuery (issuer @ U ''/protocol/openid-connect/auth'') disabled_parameters, r)]
    \<and> (status_code r = 200 \<or> status_code r = 302) \<and> \<not> contains (reply_text r) (U ''unmet_authentication_requirements'')"
  using assms by (fastforce simp: disabled_authorization_def rbind_eq_Inr dest: plain_request_logged)

section \<open>Properties\<close>

text \<open>A feature-disabled check that succeeds has seen a server without the feature, and has
  changed one member of its realm. It has sent exactly five requests: the metadata it read is an
  object without method capabilities whose claims do not list \<open>amr_details\<close>; the realm it wrote is
  the one it read with another \<open>browserFlow\<close>; and the authorization request with the
  structured claims, sent last, was answered by a page or a redirect without the experimental error.\<close>

theorem disabled_check_passes:
  assumes "disabled_main env str_of (logged nw) issuer st = Inr (st', n)"
  shows "n = 0 \<and> (\<exists>r1 r2 r3 r4 r5 metadata ms token. let headers = disabled_headers (str_of token);
        realm = AList.update (U ''browserFlow'') (JStr (U ''browser'')) ms in
      snd (net st') = snd (net st) @ [(Get (issuer @ U ''/.well-known/openid-configuration'') [], r1),
        (Post disabled_token_url admin_data, r2), (Get disabled_realm_url headers, r3),
        (Put disabled_realm_url headers (JObj realm), r4),
        (GetQuery (issuer @ U ''/protocol/openid-connect/auth'') disabled_parameters, r5)]
    \<and> loads env (reply_text r1) = Inr (JObj metadata) \<and> silent metadata
    \<and> loads env (reply_text r3) = Inr (JObj ms)
    \<and> (\<forall>k. map_of realm k = (if k = U ''browserFlow'' then Some (JStr (U ''browser'')) else map_of ms k))
    \<and> (status_code r5 = 200 \<or> status_code r5 = 302)
    \<and> \<not> contains (reply_text r5) (U ''unmet_authentication_requirements''))"
proof -
  from assms obtain st1 st2 where d: "disabled_discovery env (logged nw) issuer st = Inr st1"
    "disabled_flow env str_of (logged nw) st1 = Inr st2" "disabled_authorization (logged nw) issuer st2 = Inr st'" "n = 0"
    by (auto simp: disabled_main_def rbind_eq_Inr)
  from disabled_discovery_Inr [OF d(1)] obtain r1 metadata where A:
    "snd (net st1) = snd (net st) @ [(Get (issuer @ U ''/.well-known/openid-configuration'') [], r1)]"
    "loads env (reply_text r1) = Inr (JObj metadata)" "silent metadata" by blast
  from disabled_flow_Inr [OF d(2)] obtain r2 r3 r4 token ms where B:
    "snd (net st2) = snd (net st1) @ [(Post disabled_token_url admin_data, r2), (Get disabled_realm_url (disabled_headers (str_of token)), r3),
        (Put disabled_realm_url (disabled_headers (str_of token)) (JObj (AList.update (U ''browserFlow'') (JStr (U ''browser'')) ms)), r4)]"
    "loads env (reply_text r3) = Inr (JObj ms)"
    "\<forall>k. map_of (AList.update (U ''browserFlow'') (JStr (U ''browser'')) ms) k
       = (if k = U ''browserFlow'' then Some (JStr (U ''browser'')) else map_of ms k)"
    unfolding Let_def by blast
  from disabled_authorization_Inr [OF d(3)] obtain r5 where C:
    "snd (net st') = snd (net st2) @ [(GetQuery (issuer @ U ''/protocol/openid-connect/auth'') disabled_parameters, r5)]"
    "status_code r5 = 200 \<or> status_code r5 = 302"
    "\<not> contains (reply_text r5) (U ''unmet_authentication_requirements'')" by blast
  have whole: "snd (net st') = snd (net st) @ [(Get (issuer @ U ''/.well-known/openid-configuration'') [], r1),
        (Post disabled_token_url admin_data, r2), (Get disabled_realm_url (disabled_headers (str_of token)), r3),
        (Put disabled_realm_url (disabled_headers (str_of token)) (JObj (AList.update (U ''browserFlow'') (JStr (U ''browser'')) ms)), r4),
        (GetQuery (issuer @ U ''/protocol/openid-connect/auth'') disabled_parameters, r5)]"
    unfolding C(1) B(1) A(1) append_assoc append_Cons append_Nil ..
  show ?thesis
    unfolding Let_def
    by (intro conjI exI [of _ r1] exI [of _ r2] exI [of _ r3] exI [of _ r4] exI [of _ r5] exI [of _ metadata] exI [of _ ms]
        exI [of _ token]) (fact d(4) whole A(2) A(3) B(2) B(3) C(2) C(3))+
qed

section \<open>A passing check\<close>

definition disabled_replies :: "reply list" where
  "disabled_replies = [json_reply (U ''{}''), json_reply (U ''{\"access_token\":\"t\"}''), json_reply (U ''{}''),
     json_reply (U ''''), json_reply (U ''page'')]"

definition disabled_start :: "(reply list \<times> (http_call \<times> reply) list) runner" where
  "disabled_start = \<lparr>net = (disabled_replies, []), client_url = [], issuer_url = [], last_totp_counter = None\<rparr>"

lemma disabled_values:
  "loads sample_env (U ''{}'') = Inr (JObj [])"
  "loads sample_env (U ''{\"access_token\":\"t\"}'') = Inr (JObj [(U ''access_token'', JStr (U ''t''))])"
  by (simp_all add: json_eval cong: json_eval_cong)

lemma sample_disabled:
  "\<exists>st'. disabled_main sample_env (\<lambda>v. []) (logged scripted) (U ''i'') disabled_start = Inr (st', 0)"
  by (simp add: disabled_main_def disabled_discovery_def disabled_flow_def disabled_authorization_def logged_plain
      disabled_start_def disabled_replies_def json_reply_def reply_json_def disabled_values lift_other_def check_that_def
      advertises_def py_get_def py_in_def py_item_def set_member_def del: lift_other_Inr check_that_Inr)
     (simp add: U_def contains_def)

theorem disabled_check_passes_witness:
  "\<exists>st'. disabled_main sample_env (\<lambda>v. []) (logged scripted) (U ''i'') disabled_start = Inr (st', 0)
     \<and> length (snd (net st')) = 5"
proof -
  obtain st' where s: "disabled_main sample_env (\<lambda>v. []) (logged scripted) (U ''i'') disabled_start = Inr (st', 0)"
    using sample_disabled by blast
  have "length (snd (net st')) = length (snd (net disabled_start)) + 5"
    using disabled_check_passes [OF s] by (auto simp: Let_def)
  then show ?thesis using s by (simp add: disabled_start_def)
qed

end
