(* ===== verification/E2E_Direct.thy ===== *)
theory E2E_Direct
  imports E2E_Mail Client_Claims
begin

text \<open>
  The direct authorization requests of the HTTP end-to-end runner (e2e/http/run.py), used by its
  endpoint-validation scenarios: \<open>parse_first_form\<close>, \<open>decode_unverified_jwt_payload\<close>,
  \<open>direct_authorization\<close> and \<open>admin_token\<close>.

  Proved: the runner's view of a JARM response agrees with the client's view of a token; and a direct
  authorization ends in one of three ways after at most sixteen answers and never asks for a callback
  address itself.
\<close>

section \<open>A form without an id\<close>

definition quote_char :: "nat \<Rightarrow> bool" where
  "quote_char c \<longleftrightarrow> c = 39 \<or> c = 34"

definition letter :: "nat \<Rightarrow> bool" where
  "letter c \<longleftrightarrow> (65 \<le> c \<and> c \<le> 90) \<or> (97 \<le> c \<and> c \<le> 122)"

definition name_start :: "nat \<Rightarrow> bool" where
  "name_start c \<longleftrightarrow> letter c \<or> c = 95 \<or> c = 58"

definition name_char :: "nat \<Rightarrow> bool" where
  "name_char c \<longleftrightarrow> letter c \<or> (48 \<le> c \<and> c \<le> 57) \<or> c \<in> {45, 46, 58, 95}"

definition form_pattern :: "item list" where
  "form_pattern = literal_ignorecase (U ''<form'') @ [Boundary, Open, Many 0 (\<lambda>c. c \<noteq> 62), Close] @ literal (U ''>'')
     @ [Open, Lazy any_char, Close] @ literal_ignorecase (U ''</form>'')"

definition attribute_pattern :: "item list" where
  "attribute_pattern = [Open, One name_start, Many 0 name_char, Close, Many 0 is_space] @ literal (U ''='')
     @ [Many 0 is_space, One quote_char, Open, Many 0 (\<lambda>c. \<not> quote_char c), Close, One quote_char]"

definition input_pattern :: "item list" where
  "input_pattern = literal_ignorecase (U ''<input'') @ [Boundary, Many 0 (\<lambda>c. c \<noteq> 62), Boundary]
     @ literal_ignorecase (U ''name'') @ [Many 0 is_space] @ literal (U ''='') @ [Many 0 is_space, One quote_char,
       Open, Many 1 (\<lambda>c. \<not> quote_char c), Close, One quote_char, Many 0 (\<lambda>c. c \<noteq> 62), Boundary]
     @ literal_ignorecase (U ''value'') @ [Many 0 is_space] @ literal (U ''='') @ [Many 0 is_space, One quote_char,
       Open, Many 0 (\<lambda>c. \<not> quote_char c), Close, One quote_char]"

text \<open>\<open>dict(re.findall(...))\<close> of a pattern with two groups.\<close>

definition found_pairs :: "char_data \<Rightarrow> item list \<Rightarrow> ustr \<Rightarrow> (ustr, ustr option) dict" where
  "found_pairs cd r s = dict_of (map (\<lambda>gs. (gs ! 0, Some (gs ! 1))) (re_findall cd r s))"

definition parse_first_form :: "char_data \<Rightarrow> ustr \<Rightarrow> drive_exc + form" where
  "parse_first_form cd page =
     (case re_search cd form_pattern page of
        None \<Rightarrow> Inl NoForm
      | Some gs \<Rightarrow>
          (let attributes = found_pairs cd attribute_pattern (gs ! 0);
               vals = found_pairs cd input_pattern (gs ! 1) in
           Inr \<lparr>form_action = attribute attributes ''action'', form_values = vals\<rparr>))"

section \<open>The payload of a response JWT\<close>

fun split_all :: "nat \<Rightarrow> ustr \<Rightarrow> ustr list" where
  "split_all c [] = [[]]"
| "split_all c (x # s) =
     (if x = c then [] # split_all c s
      else case split_all c s of [] \<Rightarrow> [[x]] | p # ps \<Rightarrow> (x # p) # ps)"

definition decode_unverified_jwt_payload :: "py_env \<Rightarrow> ustr \<Rightarrow> drive_exc + (ustr, json) dict" where
  "decode_unverified_jwt_payload env encoded =
     (let parts = split_all 46 encoded in
      if length parts \<noteq> 3 then Inl NotCompact
      else
        (let payload = parts ! 1 @ b64_padding (parts ! 1) in
         case Option.bind (urlsafe_b64decode payload) utf8_decode of
           None \<Rightarrow> Inl BadPayload
         | Some s \<Rightarrow>
             (case loads env s of
                Inr (JObj decoded) \<Rightarrow> Inr decoded
              | Inr _ \<Rightarrow> Inl NotObject
              | Inl RecursionError \<Rightarrow> Inl (Checked (RaisedJson RecursionError))
              | Inl _ \<Rightarrow> Inl BadPayload)))"

section \<open>Direct authorization\<close>

definition endswith :: "ustr \<Rightarrow> ustr \<Rightarrow> bool" where
  "endswith s p \<longleftrightarrow> startswith (rev s) (rev p)"

text \<open>Whether a redirect leads to a callback of the client.\<close>

definition to_callback :: "'n network \<Rightarrow> reply \<Rightarrow> ustr \<Rightarrow> bool" where
  "to_callback nw response l \<longleftrightarrow> endswith (url_path nw (urljoin nw (reply_url response) (Some l))) (U ''/callback'')"

fun direct_turns ::
  "nat \<Rightarrow> 'n network \<Rightarrow> runner_config \<Rightarrow> bool \<Rightarrow> 'n runner \<Rightarrow> cookie list \<Rightarrow> reply \<Rightarrow> drive_exc + ('n runner \<times> reply)" where
  "direct_turns 0 nw cfg cancel_consent st session response = Inl NoTerminal"
| "direct_turns (Suc fuel) nw cfg cancel_consent st session response =
     (let session1 = allow_loopback_secure_cookies session;
          forms = parse_forms (tokenize nw (reply_text response)) in
      if is_redirect response then
        (case location response of
           None \<Rightarrow> Inl NoLocation
         | Some l \<Rightarrow>
             if to_callback nw response l then Inr (st, response)
             else rbind (request nw st session1 (Get (urljoin nw (reply_url response) (Some l)) [])) (\<lambda>(st', s', r').
                    direct_turns fuel nw cfg cancel_consent st' s' r'))
      else case map_of forms login_form of
        Some f \<Rightarrow>
          rbind (request nw st session1 (post_form nw response f (login_values cfg f))) (\<lambda>(st', s', r').
            direct_turns fuel nw cfg cancel_consent st' s' r')
      | None \<Rightarrow>
      if cancel_consent \<and> contains (reply_text response) (U ''kc-oauth'') then
        rbind (parse_first_form (chars nw) (reply_text response)) (\<lambda>f.
        rbind (request nw st session1 (post_form nw response f [(U ''cancel'', [])])) (\<lambda>(st', _, r'). Inr (st', r')))
      else if status_code response = 200 \<and> contains (reply_text response) (U ''error'')
                \<and> contains (reply_text response) (U ''/callback'') then Inr (st, response)
      else Inl (DirectPage (status_code response)))"

definition direct_authorization ::
  "'n network \<Rightarrow> runner_config \<Rightarrow> 'n runner \<Rightarrow> (ustr, ustr) dict \<Rightarrow> bool \<Rightarrow> drive_exc + ('n runner \<times> reply)" where
  "direct_authorization nw cfg st request_parameters cancel_consent =
     rbind (request nw st [] (GetQuery (issuer_url st @ U ''/protocol/openid-connect/auth'') request_parameters))
       (\<lambda>(st1, s1, response). direct_turns 16 nw cfg cancel_consent st1 s1 response)"

section \<open>The administration token\<close>

definition realms_base :: "ustr \<Rightarrow> ustr" where
  "realms_base issuer = (case before (U ''/realms/'') issuer of None \<Rightarrow> issuer | Some b \<Rightarrow> b)"

definition admin_token ::
  "py_env \<Rightarrow> 'n network \<Rightarrow> runner_config \<Rightarrow> 'n runner \<Rightarrow> drive_exc + ('n runner \<times> ustr)" where
  "admin_token env nw cfg st =
     rbind (fetch nw st (Post (realms_base (issuer_url st) @ U ''/realms/master/protocol/openid-connect/token'')
       [(U ''grant_type'', Some (U ''password'')), (U ''client_id'', Some (U ''admin-cli'')),
        (U ''username'', Some (admin_username cfg)), (U ''password'', Some (admin_password cfg))])) (\<lambda>(st', response).
     if status_code response \<noteq> 200 then Inl (TokenStatus (status_code response))
     else rbind (json_body env response) (\<lambda>v.
       case v of
         JObj ms \<Rightarrow> (case map_of ms (U ''access_token'') of
             Some (JStr t) \<Rightarrow> if t = [] then Inl NoToken else Inr (st', t)
           | _ \<Rightarrow> Inl NoToken)
       | _ \<Rightarrow> Inl (Checked RaisedAttributeError)))"

section \<open>The two token views\<close>

lemma length_split_all: "length (split_all c s) = Suc (count_list s c)"
  by (induction c s rule: split_all.induct) (auto split: list.splits)

lemma split_all_no: "c \<notin> set s \<Longrightarrow> split_all c s = [s]"
  by (induction c s rule: split_all.induct) auto

lemma split_all_append: "c \<notin> set s \<Longrightarrow> split_all c (s @ c # t) = s # split_all c t"
  by (induction s) auto

lemma split_jwt:
  "46 \<notin> set h \<Longrightarrow> 46 \<notin> set p \<Longrightarrow> 46 \<notin> set q \<Longrightarrow> split_all 46 (h @ 46 # p @ 46 # q) = [h, p, q]"
  by (simp add: split_all_append split_all_no)

section \<open>What a direct authorization sends\<close>

text \<open>How it ends: at a redirect to the callback, at an error page that names it, or with the cancelled consent.\<close>

definition direct_end :: "'n network \<Rightarrow> bool \<Rightarrow> (http_call \<times> reply) \<Rightarrow> bool" where
  "direct_end nw cancel_consent final \<longleftrightarrow>
     (case final of (call, r) \<Rightarrow>
        (is_redirect r \<and> (\<exists>l. location r = Some l \<and> to_callback nw r l))
        \<or> (\<not> is_redirect r \<and> status_code r = 200 \<and> contains (reply_text r) (U ''error'') \<and> contains (reply_text r) (U ''/callback''))
        \<or> (cancel_consent \<and> (\<exists>page f. contains (reply_text page) (U ''kc-oauth'')
             \<and> parse_first_form (chars nw) (reply_text page) = Inr f \<and> call = post_form nw page f [(U ''cancel'', [])])))"

text \<open>
  The one request that answers a page: the target of a redirect that is no callback, the login form, or
  the form of the consent page with \<open>cancel\<close>; and an exchange in which every request answers the reply before it.
\<close>

definition direct_answer :: "'n network \<Rightarrow> runner_config \<Rightarrow> bool \<Rightarrow> reply \<Rightarrow> http_call \<Rightarrow> bool" where
  "direct_answer nw cfg cancel_consent r call \<longleftrightarrow>
     (let forms = parse_forms (tokenize nw (reply_text r)) in
      (is_redirect r \<and> (\<exists>l. location r = Some l \<and> \<not> to_callback nw r l \<and> call = Get (urljoin nw (reply_url r) (Some l)) []))
      \<or> (\<not> is_redirect r \<and> (\<exists>f. map_of forms login_form = Some f \<and> call = post_form nw r f (login_values cfg f)))
      \<or> (\<not> is_redirect r \<and> map_of forms login_form = None \<and> cancel_consent
          \<and> (\<exists>f. parse_first_form (chars nw) (reply_text r) = Inr f \<and> call = post_form nw r f [(U ''cancel'', [])])))"

fun answered :: "(reply \<Rightarrow> http_call \<Rightarrow> bool) \<Rightarrow> reply \<Rightarrow> (http_call \<times> reply) list \<Rightarrow> bool" where
  "answered P r [] = True"
| "answered P r ((call, r') # exch) = (P r call \<and> answered P r' exch)"

lemma direct_turns_logged:
  "direct_turns fuel (logged nw) cfg cancel st session r = Inr (st', res) \<Longrightarrow>
     \<exists>exch. snd (net st') = snd (net st) @ exch \<and> length exch \<le> fuel \<and> answered (direct_answer nw cfg cancel) r exch
       \<and> res = snd (last ((c0, r) # exch)) \<and> direct_end nw cancel (last ((c0, r) # exch))"
proof (induction fuel arbitrary: st session r c0)
  case 0
  then show ?case by simp
next
  case (Suc fuel)
  let ?forms = "parse_forms (tokenize nw (reply_text r))"
  let ?s = "allow_loopback_secure_cookies session"
  let ?goal = "\<exists>exch. snd (net st') = snd (net st) @ exch \<and> length exch \<le> Suc fuel \<and> answered (direct_answer nw cfg cancel) r exch
       \<and> res = snd (last ((c0, r) # exch)) \<and> direct_end nw cancel (last ((c0, r) # exch))"
  have go: ?goal
    if a: "direct_answer nw cfg cancel r call" and q: "request (logged nw) st ?s call = Inr (st2, s2, r2)"
      and d: "direct_turns fuel (logged nw) cfg cancel st2 s2 r2 = Inr (st', res)" for call st2 s2 r2
  proof -
    from Suc.IH [OF d, of call] obtain exch where e: "snd (net st') = snd (net st2) @ exch" "length exch \<le> fuel"
      "answered (direct_answer nw cfg cancel) r2 exch" "res = snd (last ((call, r2) # exch))"
      "direct_end nw cancel (last ((call, r2) # exch))" by blast
    with a request_logged(1) [OF q] show ?thesis by (intro exI [of _ "(call, r2) # exch"]) auto
  qed
  have stop: ?goal if "st' = st" "res = r" "direct_end nw cancel (c0, r)"
    using that by (intro exI [of _ "[]"]) auto
  note d = Suc.prems
  have tc: "to_callback (logged nw) = to_callback nw" by (simp add: to_callback_def fun_eq_iff)
  show ?case
  proof (cases "is_redirect r")
    case True
    with d obtain l where l: "location r = Some l" by (auto simp: Let_def split: option.splits)
    show ?thesis
    proof (cases "to_callback nw r l")
      case True
      with d \<open>is_redirect r\<close> l have "st' = st" "res = r" by (auto simp: Let_def tc)
      with True \<open>is_redirect r\<close> l stop show ?thesis by (auto simp: direct_end_def)
    next
      case False
      with d \<open>is_redirect r\<close> l obtain st2 s2 r2 where
        "request (logged nw) st ?s (Get (urljoin nw (reply_url r) (Some l)) []) = Inr (st2, s2, r2)"
        "direct_turns fuel (logged nw) cfg cancel st2 s2 r2 = Inr (st', res)" by (auto simp: Let_def tc rbind_eq_Inr)
      moreover have "direct_answer nw cfg cancel r (Get (urljoin nw (reply_url r) (Some l)) [])"
        using False \<open>is_redirect r\<close> l by (simp add: direct_answer_def)
      ultimately show ?thesis using go by blast
    qed
  next
    case nr: False
    show ?thesis
    proof (cases "map_of ?forms login_form")
      case (Some f)
      with d nr obtain st2 s2 r2 where
        "request (logged nw) st ?s (post_form nw r f (login_values cfg f)) = Inr (st2, s2, r2)"
        "direct_turns fuel (logged nw) cfg cancel st2 s2 r2 = Inr (st', res)" by (auto simp: Let_def rbind_eq_Inr)
      moreover have "direct_answer nw cfg cancel r (post_form nw r f (login_values cfg f))"
        using nr Some by (simp add: direct_answer_def)
      ultimately show ?thesis using go by blast
    next
      case nl: None
      show ?thesis
      proof (cases "cancel \<and> contains (reply_text r) (U ''kc-oauth'')")
        case True
        with d nr nl obtain f s2 where f: "parse_first_form (chars nw) (reply_text r) = Inr f"
          "request (logged nw) st ?s (post_form nw r f [(U ''cancel'', [])]) = Inr (st', s2, res)"
          by (auto simp: Let_def rbind_eq_Inr)
        let ?call = "post_form nw r f [(U ''cancel'', [])]"
        have "direct_answer nw cfg cancel r ?call" using nr nl True f(1) by (simp add: direct_answer_def)
        moreover have "direct_end nw cancel (?call, res)" using True f(1) unfolding direct_end_def by auto
        ultimately show ?thesis using request_logged(1) [OF f(2)] by (intro exI [of _ "[(?call, res)]"]) auto
      next
        case False
        with d nr nl have "st' = st" "res = r" "status_code r = 200" "contains (reply_text r) (U ''error'')"
          "contains (reply_text r) (U ''/callback'')" by (auto simp: Let_def split: if_splits)
        with nr stop show ?thesis by (auto simp: direct_end_def)
      qed
    qed
  qed
qed

section \<open>Properties\<close>

text \<open>C31: the runner and the client read a JWT the same way. The object that the runner decodes
  from a response JWT is the one that the client's access-token view shows for the same text; where the
  runner reports a failed check the view is empty, and only a \<open>RecursionError\<close> leaves both.\<close>

theorem jarm_view_agrees:
  "decoded_access_token env (JStr encoded) =
     (case decode_unverified_jwt_payload env encoded of
        Inr decoded \<Rightarrow> Inr decoded
      | Inl (Checked (RaisedJson RecursionError)) \<Rightarrow> Inl RecursionError
      | Inl _ \<Rightarrow> Inr [])"
proof (cases "count_list encoded 46 = 2")
  case False
  then show ?thesis
    by (simp add: decoded_access_token_def decode_unverified_jwt_payload_def length_split_all Let_def)
next
  case True
  then obtain h p q where e: "encoded = h @ 46 # p @ 46 # q" "46 \<notin> set h" "46 \<notin> set p" "46 \<notin> set q" by (rule jwt_two_dots)
  then show ?thesis
    using True
    by (simp add: decoded_access_token_def decode_unverified_jwt_payload_def split_jwt Let_def
        split: option.splits sum.splits json.splits json_exc.splits)
qed

text \<open>C29: a direct authorization never asks for the client's callback. When it returns, it has
  sent the authorization request and then at most sixteen requests, each the one answer to the reply before it:
  a redirect is followed unless its path ends in \<open>/callback\<close>, the login form is filled in, a consent
  page is cancelled where that is asked for; and it stops at the redirect to the callback, at an
  error page that names the callback, or with the answer to the cancelled consent form.\<close>

theorem direct_never_calls_back:
  assumes "direct_authorization (logged nw) cfg st request_parameters cancel_consent = Inr (st', r)"
  shows "\<exists>r0 exch. let start = (GetQuery (issuer_url st @ U ''/protocol/openid-connect/auth'') request_parameters, r0) in
      snd (net st') = snd (net st) @ start # exch \<and> length exch \<le> 16 \<and> answered (direct_answer nw cfg cancel_consent) r0 exch
    \<and> r = snd (last (start # exch)) \<and> direct_end nw cancel_consent (last (start # exch))"
proof -
  let ?call = "GetQuery (issuer_url st @ U ''/protocol/openid-connect/auth'') request_parameters"
  from assms obtain st1 s1 r0 where a: "request (logged nw) st [] ?call = Inr (st1, s1, r0)"
    "direct_turns 16 (logged nw) cfg cancel_consent st1 s1 r0 = Inr (st', r)"
    by (auto simp: direct_authorization_def rbind_eq_Inr simp del: direct_turns.simps)
  from direct_turns_logged [OF a(2), of ?call] obtain exch where "snd (net st') = snd (net st1) @ exch" "length exch \<le> 16"
    "answered (direct_answer nw cfg cancel_consent) r0 exch" "r = snd (last ((?call, r0) # exch))"
    "direct_end nw cancel_consent (last ((?call, r0) # exch))" by blast
  with request_logged(1) [OF a(1)] show ?thesis
    by (intro exI [of _ r0] exI [of _ exch]) (simp add: Let_def del: last.simps)
qed

text \<open>A server that redirects to the login page, whose form leads back to the callback.\<close>

definition direct_reply :: "nat \<Rightarrow> reply" where
  "direct_reply n = \<lparr>status_code = 302, reply_url = U ''http://op'', is_redirect = True,
     location = Some (if n = 0 then U ''/login'' else U ''/callback''), reply_text = []\<rparr>"

definition direct_network :: "nat network" where
  "direct_network = mail_network\<lparr>send := (\<lambda>n c call. (Suc n, Some (c, direct_reply n))),
     urljoin := (\<lambda>u l. case l of None \<Rightarrow> u | Some t \<Rightarrow> t)\<rparr>"

lemma sample_direct:
  "\<exists>out. direct_authorization (logged direct_network) sample_credentials (mail_runner (0, [])) [] False = Inr out"
proof -
  have c: "endswith (U ''/login'') (U ''/callback'') = False" "endswith (U ''/callback'') (U ''/callback'') = True"
    by (simp_all add: endswith_def U_def)
  show ?thesis
    by (simp add: direct_authorization_def request_def logged_def direct_network_def mail_network_def mail_runner_def
        direct_reply_def to_callback_def c eval_nat_numeral Let_def)
qed

theorem direct_never_calls_back_witness:
  "\<exists>st' r r0 exch. direct_authorization (logged direct_network) sample_credentials (mail_runner (0, [])) [] False = Inr (st', r)
     \<and> snd (net st') = (GetQuery (U ''http://op/protocol/openid-connect/auth'') [], r0) # exch
     \<and> length exch \<le> 16 \<and> answered (direct_answer direct_network sample_credentials False) r0 exch"
proof -
  obtain st' r where o: "direct_authorization (logged direct_network) sample_credentials (mail_runner (0, [])) [] False
     = Inr (st', r)" using sample_direct by (metis prod.exhaust)
  from direct_never_calls_back [OF o] show ?thesis
    using o by (fastforce simp: mail_runner_def Let_def U_append [symmetric])
qed

end
