(* ===== verification/E2E_Scenarios.thy ===== *)
theory E2E_Scenarios
  imports Compat_Matrix E2E_Direct
begin

text \<open>
  The scenarios of the HTTP end-to-end runner (the \<open>test_\<close> functions of e2e/http/run.py), on the driver of
      E2E_Driver, the checks of E2E_Results and the direct requests of E2E_Direct. A
  scenario takes the state of the runner and returns the new one. Python's operators on JSON values are
  those of Compat_Matrix. Left out are the two scenarios that restore a setting in a \<open>finally\<close> block, as an
  exception keeps no state here, and the one with two threads.
\<close>

section \<open>The stage of a scenario\<close>

text \<open>
  \<open>same_float\<close> compares a float with another number; \<open>url_query\<close> and \<open>url_fragment\<close> are these parts of
  \<open>urlparse\<close>, \<open>query_values\<close> is \<open>parse_qs\<close>.
\<close>

record 'n stage =
  stage_env :: py_env
  stage_unescape :: "ustr \<Rightarrow> ustr"
  stage_network :: "'n network"
  stage_config :: runner_config
  same_float :: "ustr \<Rightarrow> json \<Rightarrow> bool"
  url_query :: "ustr \<Rightarrow> ustr"
  url_fragment :: "ustr \<Rightarrow> ustr"
  query_values :: "ustr \<Rightarrow> (ustr, ustr list) dict"

text \<open>
  \<open>WrongResult\<close> is a failed \<open>check\<close> of a scenario, with a short name for its message;
  \<open>PythonFault\<close> a \<open>KeyError\<close>, \<open>TypeError\<close>, \<open>AttributeError\<close>, \<open>ValueError\<close> or \<open>RecursionError\<close>; \<open>LabNotReady\<close> the
  message of \<open>wait_for_lab\<close>.
\<close>

datatype scenario_exc = FromRunner drive_exc | WrongResult string | PythonFault | LabNotReady

type_synonym 'n scenario = "'n stage \<Rightarrow> 'n runner \<Rightarrow> scenario_exc + 'n runner"
type_synonym 'n flow = "'n runner \<times> cookie list \<times> authorization_result"
type_synonym event = "(ustr, (ustr, json) dict) dict"

definition lift_flow :: "drive_exc + 'a \<Rightarrow> scenario_exc + 'a" where
  "lift_flow r = (case r of Inl e \<Rightarrow> Inl (FromRunner e) | Inr x \<Rightarrow> Inr x)"

definition lift_checks :: "run_exc + 'a \<Rightarrow> scenario_exc + 'a" where
  "lift_checks r = (case r of Inl e \<Rightarrow> Inl (FromRunner (Checked e)) | Inr x \<Rightarrow> Inr x)"

definition lift_py :: "matrix_exc + 'a \<Rightarrow> scenario_exc + 'a" where
  "lift_py r = (case r of Inl _ \<Rightarrow> Inl PythonFault | Inr x \<Rightarrow> Inr x)"

definition claim :: "bool \<Rightarrow> string \<Rightarrow> scenario_exc + unit" where
  "claim condition message = (if condition then Inr () else Inl (WrongResult message))"

text \<open>\<open>authorize\<close> with its keyword arguments, \<open>require_success\<close> and \<open>require_error\<close> of its result.\<close>

definition flow ::
  "'n stage \<Rightarrow> 'n runner \<Rightarrow> (ustr, json) dict \<Rightarrow> cookie list option \<Rightarrow> bool \<Rightarrow> bool \<Rightarrow> bool \<Rightarrow> bool \<Rightarrow> scenario_exc + 'n
      flow" where
  "flow S st rc session prompt_login omit_claims offline_access use_email_code =
     lift_flow (authorize (stage_env S) (stage_network S) (stage_config S) st rc session prompt_login omit_claims
       offline_access use_email_code)"

definition succeeded :: "'n stage \<Rightarrow> scenario_exc + 'n flow \<Rightarrow> scenario_exc + 'n flow" where
  "succeeded S x = rbind x (\<lambda>(st, s, r). rbind (lift_checks (require_success (stage_unescape S) r)) (\<lambda>r'. Inr
      (st, s, r')))"

definition refused :: "'n stage \<Rightarrow> string \<Rightarrow> scenario_exc + 'n flow \<Rightarrow> scenario_exc + 'n flow" where
  "refused S e x = rbind x (\<lambda>(st, s, r). rbind (lift_checks (require_error (stage_unescape S) (U e) r)) (\<lambda>r'.
      Inr (st, s, r')))"

text \<open>\<open>authorize(request)\<close>; \<open>authorize(request, session=session, prompt_login=False)\<close>.\<close>

abbreviation login_flow :: "'n stage \<Rightarrow> 'n runner \<Rightarrow> (ustr, json) dict \<Rightarrow> scenario_exc + 'n flow" where
  "login_flow S st rc \<equiv> flow S st rc None True False False False"

abbreviation sso_flow :: "'n stage \<Rightarrow> 'n runner \<Rightarrow> (ustr, json) dict \<Rightarrow> cookie list \<Rightarrow> scenario_exc + 'n flow" where
  "sso_flow S st rc s \<equiv> flow S st rc (Some s) False False False False"

definition sectioned :: "'n stage \<Rightarrow> ustr \<Rightarrow> authorization_result \<Rightarrow> scenario_exc + json" where
  "sectioned S heading r = lift_checks (json_section (stage_env S) (stage_unescape S) heading r)"

definition tokens :: "'n stage \<Rightarrow> authorization_result \<Rightarrow> scenario_exc + (json \<times> json)" where
  "tokens S r = rbind (sectioned S id_token_heading r) (\<lambda>i. rbind (sectioned S userinfo_heading r) (\<lambda>u. Inr (i, u)))"

abbreviation access_heading :: ustr where "access_heading \<equiv> U ''Verified Access Token (claims only)''"

definition complete_event :: "json \<times> json \<Rightarrow> string list \<Rightarrow> scenario_exc + (event \<times> event)" where
  "complete_event t ids = lift_checks (assert_complete_event (fst t) (snd t) (map U ids))"

text \<open>\<open>session.post(f"{CLIENT}/refresh")\<close> and \<open>require_success\<close> of its page.\<close>

definition refreshed :: "'n stage \<Rightarrow> 'n runner \<Rightarrow> cookie list \<Rightarrow> scenario_exc + 'n flow" where
  "refreshed S st s =
     rbind (lift_flow (request (stage_network S) st s (Post (client_url st @ U ''/refresh'') []))) (\<lambda>(st', s', response).
     rbind (lift_checks (require_success (stage_unescape S) \<lparr>result_text = reply_text response, result_forms = []\<rparr>)) (\<lambda>r.
       Inr (st', s', r)))"

definition success_result ::
  "'n stage \<Rightarrow> 'n runner \<Rightarrow> (ustr, json) dict \<Rightarrow> ustr list \<Rightarrow> scenario_exc + ('n flow \<times> json \<times> json)" where
  "success_result S st rc expected_forms =
     rbind (succeeded S (login_flow S st rc)) (\<lambda>(st', s, r).
     rbind (claim (result_forms r = expected_forms) ''screens'') (\<lambda>_.
     rbind (tokens S r) (\<lambda>t. Inr ((st', s, r), t))))"

section \<open>Reading details\<close>

text \<open>Python's \<open>==\<close>: members in any order, and numbers by their values.\<close>

fun int_value :: "json \<Rightarrow> int option" where
  "int_value (JInt i) = Some i"
| "int_value (JBool b) = Some (if b then 1 else 0)"
| "int_value _ = None"

fun py_eq :: "(ustr \<Rightarrow> json \<Rightarrow> bool) \<Rightarrow> json \<Rightarrow> json \<Rightarrow> bool" where
  "py_eq f (JArr vs) w = (case w of JArr ws \<Rightarrow> list_all2 (py_eq f) vs ws | _ \<Rightarrow> False)"
| "py_eq f (JObj ms) w =
     (case w of
        JObj ns \<Rightarrow> length ms = length ns
          \<and> (\<forall>kv \<in> set ms. case map_of ns (fst kv) of None \<Rightarrow> False | Some x \<Rightarrow> py_eq f (snd kv) x)
      | _ \<Rightarrow> False)"
| "py_eq f (JFloat t) w = (case w of JFloat _ \<Rightarrow> f t w | _ \<Rightarrow> int_value w \<noteq> None \<and> f t w)"
| "py_eq f (JStr s) w = (w = JStr s)"
| "py_eq f JNull w = (w = JNull)"
| "py_eq f v w = (case w of JFloat t \<Rightarrow> f t v | _ \<Rightarrow> int_value w = int_value v)"

definition event_json :: "event \<Rightarrow> json" where
  "event_json e = JObj (map (\<lambda>(k, d). (k, JObj d)) e)"

text \<open>\<open>details[identifier]\<close>, \<open>d.get("amr_properties", {})\<close>, \<open>d["amr_metadata"]["time"]\<close>.\<close>

definition execution_of :: "event \<Rightarrow> string \<Rightarrow> scenario_exc + json" where
  "execution_of e i = (case map_of e (U i) of None \<Rightarrow> Inl PythonFault | Some d \<Rightarrow> Inr (JObj d))"

definition has_member :: "string \<Rightarrow> json \<Rightarrow> scenario_exc + bool" where
  "has_member k v = lift_py (py_in (U k) v)"

definition item :: "json \<Rightarrow> string \<Rightarrow> scenario_exc + json" where
  "item v k = lift_py (py_item v (U k))"

definition got :: "json \<Rightarrow> string \<Rightarrow> json \<Rightarrow> scenario_exc + json" where
  "got v k dflt = lift_py (py_get v (U k) dflt)"

definition properties_of :: "event \<Rightarrow> string \<Rightarrow> scenario_exc + json" where
  "properties_of e i = rbind (execution_of e i) (\<lambda>d. got d ''amr_properties'' (JObj []))"

definition time_item :: "json \<Rightarrow> scenario_exc + json" where
  "time_item d = rbind (item d ''amr_metadata'') (\<lambda>m. item m ''time'')"

definition time_of :: "event \<Rightarrow> string \<Rightarrow> scenario_exc + json" where
  "time_of e i = rbind (execution_of e i) time_item"

definition property_reported :: "event \<Rightarrow> string \<Rightarrow> string \<Rightarrow> scenario_exc + unit" where
  "property_reported e i p = rbind (properties_of e i) (\<lambda>ps. rbind (has_member p ps) (\<lambda>b. claim b ''property''))"

definition details_absent :: "json \<Rightarrow> scenario_exc + unit" where
  "details_absent v = rbind (has_member ''amr_details'' v) (\<lambda>b. claim (\<not> b) ''amr_details'')"

definition event_of :: "'n stage \<Rightarrow> ustr \<Rightarrow> authorization_result \<Rightarrow> scenario_exc + event" where
  "event_of S heading r = rbind (sectioned S heading r) (\<lambda>v. lift_checks (detail_map v))"

definition listed_details :: "'n stage \<Rightarrow> ustr \<Rightarrow> authorization_result \<Rightarrow> scenario_exc + json list" where
  "listed_details S heading r = rbind (sectioned S heading r) (\<lambda>v. lift_checks (detail_list v))"

text \<open>\<open>"amr_details" not in a and "amr_details" not in b\<close>\<close>

definition both_absent :: "json \<times> json \<Rightarrow> scenario_exc + unit" where
  "both_absent t =
     rbind (has_member ''amr_details'' (fst t)) (\<lambda>a.
     rbind (if a then Inr True else has_member ''amr_details'' (snd t)) (\<lambda>b. claim (\<not> b) ''amr_details''))"

text \<open>\<open>"face" not in json.dumps(a) and "face" not in json.dumps(b)\<close>\<close>

definition mentions :: "'n stage \<Rightarrow> string \<Rightarrow> json \<Rightarrow> scenario_exc + bool" where
  "mentions S w v = (case dumps_default (stage_env S) v of Inl _ \<Rightarrow> Inl PythonFault | Inr t \<Rightarrow> Inr (contains t (U w)))"

definition unmentioned :: "'n stage \<Rightarrow> string \<Rightarrow> json \<Rightarrow> json \<Rightarrow> scenario_exc + unit" where
  "unmentioned S w a b =
     rbind (mentions S w a) (\<lambda>x. rbind (if x then Inr True else mentions S w b) (\<lambda>y. claim (\<not> y) ''unsupported method''))"

text \<open>\<open>[f(detail) for detail in details]\<close>\<close>

fun all_items :: "(json \<Rightarrow> scenario_exc + json) \<Rightarrow> json list \<Rightarrow> scenario_exc + json list" where
  "all_items f [] = Inr []"
| "all_items f (d # ds) = rbind (f d) (\<lambda>x. rbind (all_items f ds) (\<lambda>xs. Inr (x # xs)))"

section \<open>The requests\<close>

abbreviation by_method :: "string \<Rightarrow> (ustr, json) dict" where
  "by_method i \<equiv> amr_method (U i) None None"

abbreviation by_properties :: "string \<Rightarrow> (string \<times> json) list \<Rightarrow> (ustr, json) dict" where
  "by_properties i ps \<equiv> amr_method (U i) (Some (map (\<lambda>(k, v). (U k, v)) ps)) None"

abbreviation asking :: "(ustr, json) dict \<Rightarrow> (ustr, json) dict" where
  "asking e \<equiv> claims e True True True"

definition logical :: "string \<Rightarrow> (ustr, json) dict list \<Rightarrow> (ustr, json) dict" where
  "logical operator es = [(U operator, JArr (map JObj es))]"

definition members :: "(string \<times> json) list \<Rightarrow> json" where
  "members ms = JObj (map (\<lambda>(k, v). (U k, v)) ms)"

text \<open>A claim request for one location or for both, written out.\<close>

definition id_token_request :: "json \<Rightarrow> (ustr, json) dict" where
  "id_token_request v = [(U ''id_token'', members [(''amr_details'', v)])]"

definition located_requests :: "json \<Rightarrow> json \<Rightarrow> (ustr, json) dict" where
  "located_requests v w = id_token_request v @ [(U ''userinfo'', members [(''amr_details'', w)])]"

text \<open>\<open>{"essential": True, **expression}\<close>\<close>

definition essential :: "(ustr, json) dict \<Rightarrow> (ustr, json) dict" where
  "essential e = spread [(U ''essential'', JBool True)] e"

abbreviation unset :: json where "unset \<equiv> JNull"
abbreviation needed :: json where "needed \<equiv> members [(''essential'', JBool True)]"
abbreviation exactly :: "json \<Rightarrow> json" where "exactly v \<equiv> members [(''value'', v), (''essential'', JBool True)]"
abbreviation lit :: "string \<Rightarrow> json" where "lit s \<equiv> JStr (U s)"

abbreviation login_screen :: "ustr list" where "login_screen \<equiv> [login_form]"
abbreviation factor_screens :: "ustr list" where "factor_screens \<equiv> [login_form, otp_form]"

definition optional_metadata_request :: "(ustr, json) dict" where
  "optional_metadata_request =
     (let e = JObj (spread (essential (by_method ''pwd'')) [(U ''amr_metadata'',
                members [(''time'', needed), (''iss'', unset), (''location'', unset)])]) in
      located_requests e e)"

definition password_request :: "(ustr, json) dict" where
  "password_request = asking (amr_method (U ''pwd'') (Some [(U ''pwd_derivation_algorithm'', unset)]) (Some 300))"

definition credential_request :: "(ustr, json) dict" where
  "credential_request = asking (by_properties ''pwd'' [(''pwd_derivation_algorithm'', unset),
     (''pwd_iterations'', unset), (''pwd_last_updated_at'', unset)])"

definition null_request :: "(ustr, json) dict" where
  "null_request = located_requests unset unset"

definition essential_request :: "(ustr, json) dict" where
  "essential_request = located_requests needed needed"

definition best_effort_value_request :: "(ustr, json) dict" where
  "best_effort_value_request = asking (by_properties ''pwd''
     [(''pwd_derivation_algorithm'', members [(''value'', lit ''not-the-lab-algorithm'')])])"

definition identifier_values_request :: "(ustr, json) dict" where
  "identifier_values_request = id_token_request (members [(''essential'', JBool True),
     (''amr_identifier'', members [(''values'', JArr [lit ''otp'', lit ''pwd''])]),
     (''amr_metadata'', members [(''time'', needed)])])"

definition bounded_request :: "(ustr, json) dict" where
  "bounded_request = asking (by_properties ''otp''
     [(''otp_algorithm'', members [(''essential'', JBool True), (''values'', JArr [lit ''TOTP'', lit ''HOTP''])]),
      (''otp_length'', members [(''essential'', JBool True), (''min'', JInt 6), (''max'', JInt 6)]),
      (''otp_time_to_live'', members [(''essential'', JBool True), (''min'', JInt 30), (''max'', JInt 30)])])"

definition stronger_request :: "(ustr, json) dict" where
  "stronger_request = asking (logical ''all_of'' [by_method ''pwd'', by_method ''otp''])"

definition unsupported_request :: "bool \<Rightarrow> (ustr, json) dict" where
  "unsupported_request ess = claims (by_method ''face'') True True ess"

definition malformed_request :: "(ustr, json) dict" where
  "malformed_request = id_token_request (members [(''essential'', JBool True), (''all_of'', JArr [])])"

definition invalid_shape_request :: "(ustr, json) dict" where
  "invalid_shape_request = id_token_request (members [(''essential'', JBool True),
     (''amr_identifier'', members [(''value'', lit ''pwd'')]), (''amr_metadata'', members [])])"

definition invalid_grammar_requests :: "(ustr, json) dict list" where
  "invalid_grammar_requests =
     [id_token_request (members [(''essential'', JBool True), (''unknown_operator'', JArr [])]),
      id_token_request (members [(''essential'', JBool True), (''all_of'', JArr [JObj (essential (by_method ''pwd''))])]),
      id_token_request (JObj (essential (by_properties ''pwd''
        [(''pwd_iterations'', members [(''value'', JInt 1), (''values'', JArr [JInt 1])])]))),
      id_token_request (JObj (essential (by_properties ''pwd'' [(''pwd_iterations'', members [(''max_age'', JInt
          1)])])))]"

definition best_effort_leaf_request :: "(ustr, json) dict" where
  "best_effort_leaf_request = claims (logical ''all_of'' [by_method ''pwd'', by_method ''face'']) True True False"

definition otp_value_request :: "(ustr, json) dict" where
  "otp_value_request = asking (logical ''all_of'' [by_method ''pwd'',
     by_properties ''otp'' [(''otp_algorithm'', exactly (lit ''TOTP''))]])"

definition email_request :: "(ustr, json) dict" where
  "email_request = asking (by_properties ''email'' [(''email_verification_method'', exactly (lit ''code''))])"

definition repeated_request :: "(ustr, json) dict" where
  "repeated_request = asking (logical ''all_of'' [by_method ''pwd'', by_method ''pwd''])"

definition independent_request :: "(ustr, json) dict" where
  "independent_request = located_requests
     (JObj (essential (by_properties ''pwd'' [(''pwd_derivation_algorithm'', unset)])))
     (JObj (essential (by_properties ''otp'' [(''otp_algorithm'', exactly (lit ''TOTP''))])))"

definition one_of_request :: "(ustr, json) dict" where
  "one_of_request = asking (logical ''one_of'' [by_method ''pwd'', by_method ''otp''])"

definition nested_request :: "(ustr, json) dict" where
  "nested_request = asking (logical ''one_of'' [logical ''all_of'' [by_method ''pwd'', by_method ''otp''],
      by_method ''pop''])"

definition impossible_request :: "(ustr, json) dict" where
  "impossible_request = asking (by_properties ''pwd''
     [(''pwd_derivation_algorithm'', exactly (lit ''not-a-real-derivation''))])"

section \<open>The scenarios\<close>

definition located_metadata :: "ustr \<Rightarrow> event \<Rightarrow> scenario_exc + unit" where
  "located_metadata issuer e =
     rbind (execution_of e ''pwd'') (\<lambda>d.
     rbind (item d ''amr_metadata'') (\<lambda>metadata.
     rbind (got metadata ''iss'' unset) (\<lambda>iss.
     rbind (claim (iss = JStr issuer) ''issuer'') (\<lambda>_.
     rbind (got metadata ''location'' unset) (\<lambda>location.
       case location of
         JObj ms \<Rightarrow> claim (case map_of ms (U ''ip_address'') of Some (JStr a) \<Rightarrow> a \<noteq> [] | _ \<Rightarrow> False) ''ip_address''
       | _ \<Rightarrow> Inl (WrongResult ''location''))))))"

definition test_optional_metadata_uses_protocol_location_object :: "'n scenario" where
  "test_optional_metadata_uses_protocol_location_object S st =
     rbind (succeeded S (login_flow S st optional_metadata_request)) (\<lambda>(st', s, r).
     rbind (tokens S r) (\<lambda>t.
     rbind (complete_event t [''pwd'']) (\<lambda>(i, u).
     rbind (located_metadata (issuer_url st') i) (\<lambda>_.
     rbind (located_metadata (issuer_url st') u) (\<lambda>_. Inr st')))))"

text \<open>One of the two refreshes of the password scenario: the events must be those of the login.\<close>

definition same_event :: "'n stage \<Rightarrow> event \<Rightarrow> event \<Rightarrow> scenario_exc + unit" where
  "same_event S a b = claim (py_eq (same_float S) (event_json a) (event_json b)) ''snapshot''"

definition refresh_attempt ::
  "'n stage \<Rightarrow> event \<Rightarrow> event \<Rightarrow> 'n runner \<times> cookie list \<Rightarrow> scenario_exc + ('n runner \<times> cookie list)" where
  "refresh_attempt S i u p =
     rbind (refreshed S (fst p) (snd p)) (\<lambda>(st', s', r).
     rbind (claim (contains (result_text r) (U ''Refresh token response'')) ''refresh page'') (\<lambda>_.
     rbind (tokens S r) (\<lambda>t.
     rbind (lift_checks (detail_map (fst t))) (\<lambda>i'. rbind (same_event S i' i) (\<lambda>_.
     rbind (lift_checks (detail_map (snd t))) (\<lambda>u'. rbind (same_event S u' u) (\<lambda>_. Inr (st', s'))))))))"

definition test_essential_password_and_refresh :: "'n scenario" where
  "test_essential_password_and_refresh S st =
     rbind (success_result S st password_request login_screen) (\<lambda>((st', s, r), t).
     rbind (complete_event t [''pwd'']) (\<lambda>(i, u).
     rbind (property_reported i ''pwd'' ''pwd_derivation_algorithm'') (\<lambda>_.
     rbind (property_reported u ''pwd'' ''pwd_derivation_algorithm'') (\<lambda>_.
     rbind (refresh_attempt S i u (st', s)) (\<lambda>p.
     rbind (refresh_attempt S i u p) (\<lambda>(st'', _). Inr st''))))))"

text \<open>\<open>isinstance(v, int) and v > 0\<close> also holds of \<open>True\<close>.\<close>

definition credential_properties :: "event \<Rightarrow> scenario_exc + unit" where
  "credential_properties e =
     rbind (execution_of e ''pwd'') (\<lambda>d.
     rbind (got d ''amr_properties'' unset) (\<lambda>properties.
       case properties of
         JObj ms \<Rightarrow>
           rbind (claim (case map_of ms (U ''pwd_derivation_algorithm'') of Some (JStr a) \<Rightarrow> a \<noteq> [] | _ \<Rightarrow> False)
               ''algorithm'') (\<lambda>_.
           rbind (claim (case map_of ms (U ''pwd_iterations'') of
                Some (JInt n) \<Rightarrow> 0 < n | Some (JBool b) \<Rightarrow> b | _ \<Rightarrow> False) ''iterations'') (\<lambda>_.
             claim (case map_of ms (U ''pwd_last_updated_at'') of Some (JStr t) \<Rightarrow> t \<noteq> [] \<and> last t = 90 | _ \<Rightarrow>
                 False) ''update time''))
       | _ \<Rightarrow> Inl (WrongResult ''properties'')))"

definition same_properties :: "'n stage \<Rightarrow> event \<Rightarrow> event \<Rightarrow> scenario_exc + unit" where
  "same_properties S i u =
     rbind (execution_of i ''pwd'') (\<lambda>d. rbind (item d ''amr_properties'') (\<lambda>x.
     rbind (execution_of u ''pwd'') (\<lambda>e. rbind (item e ''amr_properties'') (\<lambda>y.
       claim (py_eq (same_float S) x y) ''same properties''))))"

definition test_password_credential_metadata_is_projected :: "'n scenario" where
  "test_password_credential_metadata_is_projected S st =
     rbind (success_result S st credential_request login_screen) (\<lambda>((st', s, r), t).
     rbind (complete_event t [''pwd'']) (\<lambda>(i, u).
     rbind (credential_properties i) (\<lambda>_. rbind (credential_properties u) (\<lambda>_.
     rbind (same_properties S i u) (\<lambda>_. Inr st')))))"

definition test_access_token_does_not_contain_amr_details :: "'n scenario" where
  "test_access_token_does_not_contain_amr_details S st =
     rbind (succeeded S (login_flow S st pwd_request)) (\<lambda>(st', s, r).
     rbind (sectioned S access_heading r) (\<lambda>access.
     rbind (got access ''sub'' unset) (\<lambda>sub.
     rbind (claim (case sub of JStr _ \<Rightarrow> True | _ \<Rightarrow> False) ''sub'') (\<lambda>_.
     rbind (details_absent access) (\<lambda>_. Inr st')))))"

definition has_properties :: "event \<Rightarrow> scenario_exc + unit" where
  "has_properties e =
     rbind (execution_of e ''pwd'') (\<lambda>d. rbind (has_member ''amr_properties'' d) (\<lambda>b. claim b ''properties''))"

definition test_null_claim_requests_complete_event_without_method_requirement :: "'n scenario" where
  "test_null_claim_requests_complete_event_without_method_requirement S st =
     rbind (succeeded S (login_flow S st null_request)) (\<lambda>(st', s, r).
     rbind (tokens S r) (\<lambda>t.
     rbind (complete_event t [''pwd'']) (\<lambda>(i, u).
     rbind (has_properties i) (\<lambda>_. rbind (has_properties u) (\<lambda>_. Inr st')))))"

definition got_time :: "event \<Rightarrow> scenario_exc + json" where
  "got_time e = rbind (execution_of e ''pwd'') (\<lambda>d. rbind (item d ''amr_metadata'') (\<lambda>m. got m ''time'' unset))"

definition test_essential_claim_without_expression_requests_complete_event :: "'n scenario" where
  "test_essential_claim_without_expression_requests_complete_event S st =
     rbind (succeeded S (login_flow S st essential_request)) (\<lambda>(st', s, r).
     rbind (tokens S r) (\<lambda>t.
     rbind (complete_event t [''pwd'']) (\<lambda>(i, u).
     rbind (got_time i) (\<lambda>x. rbind (claim (truthy x) ''time'') (\<lambda>_.
     rbind (got_time u) (\<lambda>y. rbind (claim (py_eq (same_float S) y x) ''same event'') (\<lambda>_. Inr st')))))))"

definition test_best_effort_value_constraint_reports_actual_property :: "'n scenario" where
  "test_best_effort_value_constraint_reports_actual_property S st =
     rbind (succeeded S (login_flow S st best_effort_value_request)) (\<lambda>(st', s, r).
     rbind (event_of S id_token_heading r) (\<lambda>e.
     rbind (properties_of e ''pwd'') (\<lambda>ps.
     rbind (got ps ''pwd_derivation_algorithm'' unset) (\<lambda>actual.
     rbind (claim (actual \<noteq> unset \<and> actual \<noteq> lit ''not-the-lab-algorithm'') ''actual value'') (\<lambda>_. Inr st')))))"

definition property_equals :: "'n stage \<Rightarrow> json \<Rightarrow> string \<Rightarrow> json \<Rightarrow> scenario_exc + unit" where
  "property_equals S ps k v = rbind (got ps k unset) (\<lambda>x. claim (py_eq (same_float S) x v) k)"

definition test_identifier_values_and_numeric_property_bounds :: "'n scenario" where
  "test_identifier_values_and_numeric_property_bounds S st =
     rbind (succeeded S (login_flow S st identifier_values_request)) (\<lambda>(st1, s1, r1).
     rbind (event_of S id_token_heading r1) (\<lambda>e1.
     rbind (claim (set (map fst e1) = {U ''pwd''}) ''realm priority'') (\<lambda>_.
     rbind (succeeded S (login_flow S st1 bounded_request)) (\<lambda>(st2, s2, r2).
     rbind (event_of S id_token_heading r2) (\<lambda>e2.
     rbind (properties_of e2 ''otp'') (\<lambda>ps.
     rbind (property_equals S ps ''otp_algorithm'' (lit ''TOTP'')) (\<lambda>_.
     rbind (property_equals S ps ''otp_length'' (JInt 6)) (\<lambda>_.
     rbind (property_equals S ps ''otp_time_to_live'' (JInt 30)) (\<lambda>_. Inr st2)))))))))"

text \<open>A session is handed on by its cookies.\<close>

definition same_time :: "'n stage \<Rightarrow> event \<Rightarrow> event \<Rightarrow> scenario_exc + unit" where
  "same_time S a b = rbind (time_of a ''pwd'') (\<lambda>x. rbind (time_of b ''pwd'') (\<lambda>y.
     claim (py_eq (same_float S) x y) ''same time''))"

definition test_oidc4ac_sso_reuse_preserves_original_execution_time :: "'n scenario" where
  "test_oidc4ac_sso_reuse_preserves_original_execution_time S st =
     rbind (succeeded S (login_flow S st pwd_request)) (\<lambda>(st1, s1, r1).
     rbind (event_of S id_token_heading r1) (\<lambda>first_id.
     rbind (succeeded S (sso_flow S st1 pwd_request s1)) (\<lambda>(st2, s2, r2).
     rbind (claim (result_forms r2 = []) ''screens'') (\<lambda>_.
     rbind (event_of S id_token_heading r2) (\<lambda>second_id.
     rbind (same_time S second_id first_id) (\<lambda>_.
     rbind (event_of S userinfo_heading r2) (\<lambda>second_info.
     rbind (same_time S second_info first_id) (\<lambda>_. Inr st2))))))))"

definition same_details :: "'n stage \<Rightarrow> json list \<Rightarrow> json list \<Rightarrow> scenario_exc + unit" where
  "same_details S a b = claim (py_eq (same_float S) (JArr a) (JArr b)) ''snapshot''"

definition test_offline_refresh_reuses_the_same_snapshot :: "'n scenario" where
  "test_offline_refresh_reuses_the_same_snapshot S st =
     rbind (succeeded S (flow S st pwd_request None True False True False)) (\<lambda>(st1, s1, r1).
     rbind (listed_details S id_token_heading r1) (\<lambda>original.
     rbind (sectioned S access_heading r1) (\<lambda>access.
     rbind (got access ''scope'' (JStr [])) (\<lambda>scope.
     rbind (claim (contains (py_str (repr_of (stage_network S)) scope) (U ''offline_access'')) ''offline scope'') (\<lambda>_.
     rbind (refreshed S st1 (clear_keycloak_cookies s1)) (\<lambda>(st2, s2, r2).
     rbind (listed_details S id_token_heading r2) (\<lambda>later.
     rbind (same_details S later original) (\<lambda>_.
     rbind (sectioned S access_heading r2) (\<lambda>access'.
     rbind (details_absent access') (\<lambda>_. Inr st2))))))))))"

definition identifiers_listed :: "json list \<Rightarrow> string list \<Rightarrow> scenario_exc + unit" where
  "identifiers_listed ds ids =
     rbind (all_items (\<lambda>d. item d ''amr_identifier'') ds) (\<lambda>is. claim (is = map lit ids) ''identifiers'')"

definition test_old_grant_userinfo_survives_a_later_authentication :: "'n scenario" where
  "test_old_grant_userinfo_survives_a_later_authentication S st =
     rbind (succeeded S (login_flow S st pwd_request)) (\<lambda>(st1, s1, r1).
     rbind (listed_details S id_token_heading r1) (\<lambda>first_details.
     rbind (succeeded S (sso_flow S st1 stronger_request s1)) (\<lambda>(st2, s2, r2).
     rbind (listed_details S id_token_heading r2) (\<lambda>stronger.
     rbind (identifiers_listed stronger [''pwd'', ''otp'']) (\<lambda>_.
     rbind (refreshed S st2 s1) (\<lambda>(st3, s3, r3).
     rbind (listed_details S id_token_heading r3) (\<lambda>i.
     rbind (same_details S i first_details) (\<lambda>_.
     rbind (listed_details S userinfo_heading r3) (\<lambda>u.
     rbind (same_details S u first_details) (\<lambda>_. Inr st3))))))))))"

definition test_ordinary_oidc_login_without_claims_parameter :: "'n scenario" where
  "test_ordinary_oidc_login_without_claims_parameter S st =
     rbind (succeeded S (flow S st [] None True True False False)) (\<lambda>(st', s, r).
     rbind (claim (result_forms r = login_screen) ''screens'') (\<lambda>_.
     rbind (tokens S r) (\<lambda>t. rbind (both_absent t) (\<lambda>_. Inr st'))))"

definition test_best_effort_unsupported_method_does_not_block_login :: "'n scenario" where
  "test_best_effort_unsupported_method_does_not_block_login S st =
     rbind (succeeded S (login_flow S st (unsupported_request False))) (\<lambda>(st', s, r).
     rbind (claim (result_forms r = login_screen) ''screens'') (\<lambda>_.
     rbind (tokens S r) (\<lambda>t. rbind (unmentioned S ''face'' (fst t) (snd t)) (\<lambda>_. Inr st'))))"

definition identified :: "json \<Rightarrow> scenario_exc + unit" where
  "identified v =
     rbind (lift_checks (detail_map v)) (\<lambda>e. rbind (execution_of e ''pwd'') (\<lambda>d. rbind (item d ''amr_identifier'') (\<lambda>i.
       claim (i = lit ''pwd'') ''identifier'')))"

definition test_single_location_disclosure :: "'n scenario" where
  "test_single_location_disclosure S st =
     rbind (succeeded S (login_flow S st (claims (by_method ''pwd'') True False True))) (\<lambda>(st1, s1, r1).
     rbind (tokens S r1) (\<lambda>t1.
     rbind (identified (fst t1)) (\<lambda>_.
     rbind (details_absent (snd t1)) (\<lambda>_.
     rbind (succeeded S (login_flow S st1 (claims (by_method ''pwd'') False True True))) (\<lambda>(st2, s2, r2).
     rbind (tokens S r2) (\<lambda>t2.
     rbind (details_absent (fst t2)) (\<lambda>_.
     rbind (identified (snd t2)) (\<lambda>_. Inr st2))))))))"

text \<open>A refusal of the request before any screen.\<close>

definition refused_unseen :: "(ustr, json) dict \<Rightarrow> 'n scenario" where
  "refused_unseen rc S st =
     rbind (refused S ''invalid_request'' (login_flow S st rc)) (\<lambda>(st', s, r).
     rbind (claim (result_forms r = []) ''screens'') (\<lambda>_. Inr st'))"

definition test_malformed_logical_expression_is_rejected :: "'n scenario" where
  "test_malformed_logical_expression_is_rejected S = refused_unseen malformed_request S"

definition test_ordinary_sso_reuse_without_oidc4ac_claim :: "'n scenario" where
  "test_ordinary_sso_reuse_without_oidc4ac_claim S st =
     rbind (succeeded S (flow S st [] None True True False False)) (\<lambda>(st1, s1, r1).
     rbind (succeeded S (flow S st1 [] (Some s1) False True False False)) (\<lambda>(st2, s2, r2).
     rbind (claim (result_forms r2 = []) ''screens'') (\<lambda>_.
     rbind (tokens S r2) (\<lambda>t. rbind (both_absent t) (\<lambda>_. Inr st2)))))"

definition test_sso_reauthentication_for_stronger_request :: "'n scenario" where
  "test_sso_reauthentication_for_stronger_request S st =
     rbind (succeeded S (login_flow S st pwd_request)) (\<lambda>(st1, s1, r1).
     rbind (succeeded S (sso_flow S st1 stronger_request s1)) (\<lambda>(st2, s2, r2).
     rbind (claim (result_forms r2 = factor_screens) ''screens'') (\<lambda>_.
     rbind (tokens S r2) (\<lambda>t.
     rbind (complete_event t [''pwd'', ''otp'']) (\<lambda>(i, u).
     rbind (time_of i ''pwd'') (\<lambda>x.
     rbind (claim (truthy x) ''time'') (\<lambda>_.
     rbind (same_time S u i) (\<lambda>_. Inr st2))))))))"

definition test_max_age_forces_reauthentication :: "'n scenario" where
  "test_max_age_forces_reauthentication S st =
     rbind (succeeded S (login_flow S st pwd_request)) (\<lambda>(st1, s1, r1).
     let st2 = st1\<lparr>net := sleep (stage_network S) (net st1) 2\<rparr> in
     rbind (succeeded S (sso_flow S st2 (asking (amr_method (U ''pwd'') None (Some 1))) s1)) (\<lambda>(st3, s3, r3).
     rbind (claim (result_forms r3 = login_screen) ''screens'') (\<lambda>_. Inr st3)))"

definition test_best_effort_leaf_inside_all_of_does_not_block :: "'n scenario" where
  "test_best_effort_leaf_inside_all_of_does_not_block S st =
     rbind (success_result S st best_effort_leaf_request login_screen) (\<lambda>((st', s, r), t).
     rbind (complete_event t [''pwd'']) (\<lambda>(i, u).
     rbind (unmentioned S ''face'' (event_json i) (event_json u)) (\<lambda>_. Inr st')))"

definition test_invalid_method_shape_is_rejected_before_authentication :: "'n scenario" where
  "test_invalid_method_shape_is_rejected_before_authentication S = refused_unseen invalid_shape_request S"

fun all_refused :: "'n stage \<Rightarrow> (ustr, json) dict list \<Rightarrow> 'n runner \<Rightarrow> scenario_exc + 'n runner" where
  "all_refused S [] st = Inr st"
| "all_refused S (rc # rcs) st = rbind (refused_unseen rc S st) (all_refused S rcs)"

definition test_invalid_request_grammar_variants_are_rejected_before_authentication :: "'n scenario" where
  "test_invalid_request_grammar_variants_are_rejected_before_authentication S st = all_refused S
      invalid_grammar_requests st"

definition otp_algorithm :: "'n stage \<Rightarrow> event \<Rightarrow> scenario_exc + unit" where
  "otp_algorithm S e = rbind (properties_of e ''otp'') (\<lambda>ps. property_equals S ps ''otp_algorithm'' (lit ''TOTP''))"

definition test_password_and_otp_all_of :: "'n scenario" where
  "test_password_and_otp_all_of S st =
     rbind (success_result S st otp_value_request factor_screens) (\<lambda>((st', s, r), t).
     rbind (complete_event t [''pwd'', ''otp'']) (\<lambda>(i, u).
     rbind (otp_algorithm S i) (\<lambda>_. rbind (otp_algorithm S u) (\<lambda>_. Inr st'))))"

definition email_property :: "'n stage \<Rightarrow> event \<Rightarrow> scenario_exc + unit" where
  "email_property S e =
     rbind (properties_of e ''email'') (\<lambda>ps. property_equals S ps ''email_verification_method'' (lit ''code''))"

definition test_email_authenticator_sends_and_verifies_code :: "'n scenario" where
  "test_email_authenticator_sends_and_verifies_code S st =
     rbind (succeeded S (flow S st email_request None True False False True)) (\<lambda>(st', s, r).
     rbind (claim (result_forms r = [otp_form]) ''screens'') (\<lambda>_.
     rbind (tokens S r) (\<lambda>t.
     rbind (complete_event t [''email'']) (\<lambda>(i, u).
     rbind (email_property S i) (\<lambda>_. rbind (email_property S u) (\<lambda>_. Inr st'))))))"

definition test_repeated_method_executions_preserve_each_timestamp :: "'n scenario" where
  "test_repeated_method_executions_preserve_each_timestamp S st =
     rbind (succeeded S (login_flow S st repeated_request)) (\<lambda>(st', s, r).
     rbind (claim (result_forms r = [login_form, login_form]) ''screens'') (\<lambda>_.
     rbind (listed_details S id_token_heading r) (\<lambda>i.
     rbind (listed_details S userinfo_heading r) (\<lambda>u.
     rbind (identifiers_listed i [''pwd'', ''pwd'']) (\<lambda>_.
     rbind (all_items time_item i) (\<lambda>ts.
     rbind (all_items time_item u) (\<lambda>us.
     rbind (claim (py_eq (same_float S) (JArr ts) (JArr us)) ''times'') (\<lambda>_. Inr st'))))))))"

definition no_properties :: "event \<Rightarrow> string \<Rightarrow> scenario_exc + unit" where
  "no_properties e i =
     rbind (execution_of e i) (\<lambda>d. rbind (has_member ''amr_properties'' d) (\<lambda>b. claim (\<not> b) ''unrequested''))"

definition test_independent_delivery_projections_preserve_the_complete_event :: "'n scenario" where
  "test_independent_delivery_projections_preserve_the_complete_event S st =
     rbind (success_result S st independent_request factor_screens) (\<lambda>((st', s, r), t).
     rbind (complete_event t [''pwd'', ''otp'']) (\<lambda>(i, u).
     rbind (property_reported i ''pwd'' ''pwd_derivation_algorithm'') (\<lambda>_.
     rbind (no_properties i ''otp'') (\<lambda>_.
     rbind (property_reported u ''otp'' ''otp_algorithm'') (\<lambda>_.
     rbind (no_properties u ''pwd'') (\<lambda>_. Inr st'))))))"

definition test_one_of_uses_realm_priority :: "'n scenario" where
  "test_one_of_uses_realm_priority S st =
     rbind (success_result S st one_of_request login_screen) (\<lambda>((st', s, r), t).
     rbind (complete_event t [''pwd'']) (\<lambda>_. Inr st'))"

definition test_nested_expression_selects_the_preferred_satisfiable_branch :: "'n scenario" where
  "test_nested_expression_selects_the_preferred_satisfiable_branch S st =
     rbind (success_result S st nested_request factor_screens) (\<lambda>((st', s, r), t).
     rbind (complete_event t [''pwd'', ''otp'']) (\<lambda>_. Inr st'))"

abbreviation unmet :: string where "unmet \<equiv> ''unmet_authentication_requirements''"

definition test_essential_constraint_failure_is_generic :: "'n scenario" where
  "test_essential_constraint_failure_is_generic S st =
     rbind (refused S unmet (login_flow S st impossible_request)) (\<lambda>(st', s, r).
     rbind (claim (result_forms r = login_screen) ''screens'') (\<lambda>_.
     rbind (claim (\<not> contains (result_text r) (U ''not-a-real-derivation'')) ''leak'') (\<lambda>_. Inr st')))"

text \<open>\<open>page.lower()\<close>; no other character has a lower case with a letter of the three words in it.\<close>

definition lowered :: "ustr \<Rightarrow> ustr" where
  "lowered = map (\<lambda>c. if 65 \<le> c \<and> c \<le> 90 then c + 32 else c)"

definition test_unsupported_essential_method_is_generic :: "'n scenario" where
  "test_unsupported_essential_method_is_generic S st =
     rbind (refused S unmet (login_flow S st (unsupported_request True))) (\<lambda>(st', s, r).
     rbind (claim (result_forms r = []) ''screens'') (\<lambda>_.
     let page = lowered (result_text r) in
     rbind (claim (\<not> contains page (U ''enrol'') \<and> \<not> contains page (U ''unsupported'') \<and> \<not> contains page (U
         ''face'')) ''leak'')
       (\<lambda>_. Inr st')))"

section \<open>Scenarios without a login\<close>

text \<open>A call of \<open>requests\<close> itself, \<open>response.json()\<close>, and the parameters of an authorization request.\<close>

definition called :: "'n stage \<Rightarrow> 'n runner \<Rightarrow> http_call \<Rightarrow> scenario_exc + ('n runner \<times> reply)" where
  "called S st call = lift_flow (fetch (stage_network S) st call)"

definition body_of :: "'n stage \<Rightarrow> reply \<Rightarrow> scenario_exc + json" where
  "body_of S r = lift_flow (json_body (stage_env S) r)"

definition auth_parameters ::
  "'n stage \<Rightarrow> 'n runner \<Rightarrow> (ustr, ustr) dict \<Rightarrow> string \<Rightarrow> (ustr, ustr) dict \<Rightarrow> (ustr, json) dict
     \<Rightarrow> scenario_exc + (ustr, ustr) dict" where
  "auth_parameters S st client name mode rc =
     (case dumps_compact (stage_env S) (JObj rc) of
        Inl _ \<Rightarrow> Inl PythonFault
      | Inr t \<Rightarrow> Inr ([(U ''response_type'', U ''code'')] @ client
          @ [(U ''redirect_uri'', client_url st @ U ''/callback''), (U ''scope'', U ''openid''),
             (U ''state'', U (name @ ''-state'')), (U ''nonce'', U (name @ ''-nonce''))] @ mode @ [(U ''claims'', t)]))"

text \<open>\<open>{**common, k: v}\<close>\<close>

definition replaced :: "(ustr, ustr) dict \<Rightarrow> (string \<times> string) list \<Rightarrow> (ustr, ustr) dict" where
  "replaced common kvs = fold (\<lambda>(k, v). AList.update (U k) (U v)) kvs common"

abbreviation test_client :: "(ustr, ustr) dict" where
  "test_client \<equiv> [(U ''client_id'', U ''oidc4ac-test-client'')]"

definition advertised_as :: "json \<Rightarrow> string \<Rightarrow> json \<Rightarrow> scenario_exc + unit" where
  "advertised_as document k v = rbind (got document k unset) (\<lambda>x. claim (x = v) k)"

definition suggested :: "json \<Rightarrow> string \<Rightarrow> string \<Rightarrow> scenario_exc + unit" where
  "suggested metadata i p =
     rbind (item metadata ''methods'') (\<lambda>ms. rbind (item ms i) (\<lambda>m. rbind (item m ''properties'') (\<lambda>ps.
     rbind (has_member p ps) (\<lambda>b. claim b p))))"

definition test_discovery_and_workbench :: "'n scenario" where
  "test_discovery_and_workbench S st =
     rbind (called S st (Get (issuer_url st @ U ''/.well-known/openid-configuration'') [])) (\<lambda>(st1, r1).
     rbind (claim (status_code r1 = 200) ''discovery'') (\<lambda>_.
     rbind (body_of S r1) (\<lambda>document.
     rbind (got document ''claims_supported'' (JArr [])) (\<lambda>supported.
     rbind (has_member ''amr_details'' supported) (\<lambda>b.
     rbind (claim b ''claims_supported'') (\<lambda>_.
     rbind (advertised_as document ''amr_details_request_supported'' (JBool True)) (\<lambda>_.
     rbind (advertised_as document ''pwd_metadata_supported'' (JArr [lit ''iss'', lit ''location''])) (\<lambda>_.
     rbind (advertised_as document ''location_types_supported'' (JArr [lit ''ip_address''])) (\<lambda>_.
     rbind (called S st1 (Get (client_url st @ U ''/discovery'') [])) (\<lambda>(st2, r2).
     rbind (claim (status_code r2 = 200) ''client discovery'') (\<lambda>_.
     rbind (body_of S r2) (\<lambda>metadata.
     rbind (advertised_as metadata ''identifiers'' (JArr [lit ''email'', lit ''otp'', lit ''pop'', lit ''pwd''])) (\<lambda>_.
     rbind (suggested metadata ''email'' ''email_verification_method'') (\<lambda>_.
     rbind (suggested metadata ''pwd'' ''pwd_derivation_algorithm'') (\<lambda>_.
     rbind (suggested metadata ''otp'' ''otp_algorithm'') (\<lambda>_.
     rbind (lift_checks (case dumps_default (stage_env S) (JObj pwd_request) of Inl e \<Rightarrow> Inl (RaisedJson e) | Inr
         t \<Rightarrow> Inr t)) (\<lambda>t.
     rbind (called S st2 (Post (client_url st @ U ''/preview'') [(U ''claims_json'', Some t)])) (\<lambda>(st3, r3).
     rbind (claim (status_code r3 = 200 \<and> contains (reply_text r3) (U ''amr_details'')) ''preview'') (\<lambda>_.
       Inr st3)))))))))))))))))))"

definition auth_url :: "'n runner \<Rightarrow> ustr" where
  "auth_url st = issuer_url st @ U ''/protocol/openid-connect/auth''"

definition test_client_and_redirect_validation_precedes_authentication :: "'n scenario" where
  "test_client_and_redirect_validation_precedes_authentication S st =
     rbind (auth_parameters S st [] ''endpoint-validation'' [] pwd_request) (\<lambda>common.
     rbind (called S st (GetQuery (auth_url st) (replaced common [(''client_id'',
         ''not-a-registered-client'')]))) (\<lambda>(st1, r1).
     rbind (claim (status_code r1 = 400) ''invalid client'') (\<lambda>_.
     rbind (claim (\<not> is_redirect r1) ''redirect'') (\<lambda>_.
     rbind (claim (\<not> contains (case location r1 of None \<Rightarrow> [] | Some l \<Rightarrow> l) (U ''invalid_request''))
         ''redirect target'') (\<lambda>_.
     rbind (called S st1 (GetQuery (auth_url st) (replaced common
         [(''client_id'', ''oidc4ac-test-client''), (''redirect_uri'',
             ''http://localhost:5999/not-registered'')]))) (\<lambda>(st2, r2).
     rbind (claim (status_code r2 = 400) ''invalid redirect'') (\<lambda>_.
     rbind (claim (\<not> is_redirect r2) ''redirect'') (\<lambda>_.
     rbind (claim (\<not> contains (reply_text r2) (U unmet)) ''error bridge'') (\<lambda>_. Inr st2)))))))))"

text \<open>\<open>next((e for e in executions if e.get("providerId") == ...), None)\<close>, which stops at the first one.\<close>

fun planner_of :: "json list \<Rightarrow> scenario_exc + json option" where
  "planner_of [] = Inr None"
| "planner_of (e # es) = rbind (got e ''providerId'' unset) (\<lambda>p.
     if p = lit ''oidc4ac-factor-planner'' then Inr (Some e) else planner_of es)"

definition listed_values :: "json \<Rightarrow> scenario_exc + json list" where
  "listed_values v =
     (case v of
        JArr vs \<Rightarrow> Inr vs
      | JObj ms \<Rightarrow> Inr (map (\<lambda>kv. JStr (fst kv)) ms)
      | JStr s \<Rightarrow> Inr (map (\<lambda>c. JStr [c]) s)
      | _ \<Rightarrow> Inl PythonFault)"

definition flows_url :: "'n runner \<Rightarrow> ustr" where
  "flows_url st = realms_base (issuer_url st) @ U ''/admin/realms/oidc4ac/authentication/''"

definition test_admin_api_exposes_configured_factor_container :: "'n scenario" where
  "test_admin_api_exposes_configured_factor_container S st =
     rbind (lift_flow (admin_token (stage_env S) (stage_network S) (stage_config S) st)) (\<lambda>(st1, token).
     let headers = [(U ''Authorization'', U ''Bearer '' @ token)] in
     rbind (called S st1 (Get (flows_url st @ U ''flows/oidc4ac%20browser%20forms/executions'') headers)) (\<lambda>(st2, r2).
     rbind (claim (status_code r2 = 200) ''executions'') (\<lambda>_.
     rbind (body_of S r2) (\<lambda>body.
     rbind (listed_values body) (\<lambda>executions.
     rbind (planner_of executions) (\<lambda>found.
     case found of None \<Rightarrow> Inl (WrongResult ''planner'') | Some planner \<Rightarrow>
     rbind (got planner ''authenticationConfig'' unset) (\<lambda>config_id.
     case config_id of
       JStr i \<Rightarrow>
         if i = [] then Inl (WrongResult ''configuration id'')
         else case quote i of None \<Rightarrow> Inl PythonFault | Some q \<Rightarrow>
         rbind (called S st2 (Get (flows_url st @ U ''config/'' @ q) headers)) (\<lambda>(st3, r3).
         rbind (claim (status_code r3 = 200) ''configuration'') (\<lambda>_.
         rbind (body_of S r3) (\<lambda>v.
         rbind (got v ''config'' unset) (\<lambda>c.
         rbind (got (py_or c (JObj [])) ''factor_flow_alias'' unset) (\<lambda>alias.
         rbind (claim (alias = lit ''oidc4ac-factors'') ''factor flow'') (\<lambda>_.
         rbind (all_items (\<lambda>e. got e ''displayName'' unset) executions) (\<lambda>names.
         if \<not> list_all hashable names then Inl PythonFault
         else rbind (claim (lit ''oidc4ac-factors'' \<in> set names) ''container'') (\<lambda>_. Inr st3))))))))
     | _ \<Rightarrow> Inl (WrongResult ''configuration id''))))))))"

text \<open>The answers to an unmet requirement in the response modes.\<close>

definition direct_call :: "'n stage \<Rightarrow> 'n runner \<Rightarrow> (ustr, ustr) dict \<Rightarrow> scenario_exc + ('n runner \<times> reply)" where
  "direct_call S st ps = lift_flow (direct_authorization (stage_network S) (stage_config S) st ps False)"

fun response_modes :: "'n stage \<Rightarrow> (ustr, ustr) dict \<Rightarrow> string list \<Rightarrow> 'n runner \<Rightarrow> scenario_exc + 'n runner" where
  "response_modes S common [] st = Inr st"
| "response_modes S common (mode # modes) st =
     rbind (direct_call S st (replaced common [(''response_mode'', mode)])) (\<lambda>(st', r).
     rbind
       (if mode = ''form_post'' then
          rbind (lift_flow (parse_first_form (chars (stage_network S)) (reply_text r))) (\<lambda>f.
          rbind (claim (map_of (form_values f) (U ''error'') = Some (Some (U unmet))) ''error'') (\<lambda>_.
            claim (map_of (form_values f) (U ''state'') = Some (map_of common (U ''state''))) ''state''))
        else
          (case location r of
             None \<Rightarrow> Inl (WrongResult ''location'')
           | Some l \<Rightarrow>
               (let values = query_values S (if mode = ''query'' then url_query S l else url_fragment S l) in
                rbind (claim (map_of values (U ''error'') = Some [U unmet]) ''error'') (\<lambda>_.
                  claim (map_of values (U ''state'') = map_option (\<lambda>s. [s]) (map_of common (U ''state''))) ''state''))))
       (\<lambda>_. response_modes S common modes st'))"

definition test_unmet_error_response_modes :: "'n scenario" where
  "test_unmet_error_response_modes S st =
     rbind (auth_parameters S st test_client ''response-mode'' [] (unsupported_request True)) (\<lambda>common.
       response_modes S common [''query'', ''fragment'', ''form_post''] st)"

definition test_unmet_error_jarm_response_mode :: "'n scenario" where
  "test_unmet_error_jarm_response_mode S st =
     rbind (auth_parameters S st test_client ''jarm-response-mode'' [(U ''response_mode'', U ''jwt'')]
         (unsupported_request True)) (\<lambda>common.
     rbind (direct_call S st common) (\<lambda>(st', r).
     case location r of None \<Rightarrow> Inl (WrongResult ''location'') | Some l \<Rightarrow>
       (case map_of (query_values S (if url_query S l \<noteq> [] then url_query S l else url_fragment S l)) (U ''response'') of
          None \<Rightarrow> Inl (WrongResult ''response'')
        | Some [] \<Rightarrow> Inl PythonFault
        | Some (encoded # _) \<Rightarrow>
            rbind (lift_flow (decode_unverified_jwt_payload (stage_env S) encoded)) (\<lambda>payload.
            rbind (claim (map_of payload (U ''error'') = Some (lit unmet)) ''error'') (\<lambda>_.
            rbind (claim (map_of payload (U ''state'') = map_option JStr (map_of common (U ''state''))) ''state'') (\<lambda>_.
              Inr st'))))))"

end
