(* ===== verification/E2E_Lab.thy ===== *)
theory E2E_Lab
  imports Compat_Matrix
begin

text \<open>
  A laboratory for the witnesses: servers that answer every request of a login with a password, of a
  refresh, of the administration API and of the metrics, in any order and number. Requests without claims get a page
  without details, others the details of one password execution; a cookie tells the pages apart.
\<close>

section \<open>The servers\<close>

definition detail_cookie :: cookie where
  "detail_cookie = \<lparr>cookie_domain = U ''lab'', cookie_path = U ''/'', cookie_name = U ''details'', cookie_secure = False\<rparr>"

definition lab_session :: "bool \<Rightarrow> cookie list" where
  "lab_session details = (if details then [detail_cookie] else [])"

definition lab_page :: "bool \<Rightarrow> ustr" where
  "lab_page details = (if details then details_page else plain_page) @ U ''Refresh token response''"

definition lab_redirect :: "ustr \<Rightarrow> reply" where
  "lab_redirect u = \<lparr>status_code = 302, reply_url = [], is_redirect = True, location = Some u, reply_text = []\<rparr>"

definition lab_post :: "cookie list \<Rightarrow> (ustr, ustr option) dict \<Rightarrow> cookie list \<times> reply" where
  "lab_post s d =
     (if map_of d (U ''grant_type'') \<noteq> None then (s, json_reply (U ''{\"access_token\":\"t\"}''))
      else if d = [] \<or> map_of d (U ''username'') \<noteq> None then (s, json_reply (lab_page (s \<noteq> [])))
      else (lab_session (map_of d (U ''claims_json'') \<noteq> None),
            lab_redirect (if map_of d (U ''prompt_login'') \<noteq> None then U ''form'' else U ''page'')))"

definition lab_reply :: "cookie list \<Rightarrow> http_call \<Rightarrow> cookie list \<times> reply" where
  "lab_reply s call =
     (case call of
        Post u d \<Rightarrow> lab_post s d
      | Get u h \<Rightarrow> (s, json_reply (if u = U ''form'' then U ''form'' else if u = U ''page'' then lab_page (s \<noteq> [])
            else if u = U ''lab/healthz'' then U ''{\"status\":\"ok\"}'' else []))
      | GetWith u h p \<Rightarrow> (s, json_reply (U ''[{\"id\":\"u\"}]''))
      | _ \<Rightarrow> (s, json_reply []))"

definition lab :: "unit network" where
  "lab = \<lparr>send = (\<lambda>n s call. ((), Some (lab_reply s call))), clock = (\<lambda>n. ((), 0, 0, 31)), monotonic = (\<lambda>n. ((), 100)),
     sleep = (\<lambda>n d. ()),
     tokenize = (\<lambda>s. if s = U ''form'' then [StartTag (U ''form'') [(U ''id'', Some login_form)],
        StartTag (U ''input'') [(U ''name'', Some (U ''password''))], EndTag (U ''form'')] else []),
     urljoin = (\<lambda>u l. case l of None \<Rightarrow> [] | Some x \<Rightarrow> x), url_path = (\<lambda>u. u), chars = sample_cd, repr_of = (\<lambda>v. [])\<rparr>"

lemma unit_runner [simp]: "(st :: unit runner)\<lparr>net := n\<rparr> = st"
  by (cases st) simp

lemma lab_request [simp]: "request lab st s call = Inr (st, fst (lab_reply s call), snd (lab_reply s call))"
  by (cases "lab_reply s call") (simp add: request_def lab_def)

lemma lab_plain [simp]: "plain_request lab st call = Inr (st, snd (lab_reply [] call))"
  by (simp add: plain_request_def lift_drive_def case_prod_beta)

lemma lab_simps [simp]: "urljoin lab u (Some x) = x" "monotonic lab n = ((), 100)" "chars lab = sample_cd"
  by (simp_all add: lab_def)

lemma lab_forms:
  "parse_forms (tokenize lab (U ''form'')) =
     [(login_form, \<lparr>form_action = Some [], form_values = [(U ''password'', Some [])]\<rparr>)]"
  "t \<noteq> U ''form'' \<Longrightarrow> parse_forms (tokenize lab t) = []"
  by (simp_all add: lab_def parse_forms_def attribute_def dict_of_def true_text_def)

lemma lab_loopback [simp]: "allow_loopback_secure_cookies (lab_session d) = lab_session d"
  by (simp add: allow_loopback_secure_cookies_def lab_session_def detail_cookie_def)

section \<open>The pages\<close>

lemma lab_page_text: "lab_page d \<noteq> U ''form''"
  by (simp add: lab_page_def plain_page_def details_page_def sample_page_def U_def)

lemma lab_marked: "contains (lab_page d) (U ''Verified authentication context'')"
  using contains_middle [of "[]" "U ''Verified authentication context''"]
  by (simp add: lab_page_def plain_page_def details_page_def sample_page_def)

lemma lab_refreshed: "contains (lab_page d) (U ''Refresh token response'')"
  using contains_middle [of _ "U ''Refresh token response''" "[]"] by (simp add: lab_page_def)

lemma lab_sections:
  "section_text id_token_heading (lab_page d) = Some (if d then pwd_details else U ''{}'')"
  "section_text userinfo_heading (lab_page d) = Some (if d then pwd_details else U ''{}'')"
  by (simp_all add: section_text_def lab_page_def plain_page_def details_page_def sample_page_def pwd_details_def U_def)

definition lab_token :: "bool \<Rightarrow> json" where
  "lab_token d = (if d then pwd_token else JObj [])"

lemma lab_json [simp]:
  "json_section sample_env (\<lambda>s. s) id_token_heading \<lparr>result_text = lab_page d, result_forms = fs\<rparr> = Inr (lab_token d)"
  "json_section sample_env (\<lambda>s. s) userinfo_heading \<lparr>result_text = lab_page d, result_forms = fs\<rparr> = Inr (lab_token d)"
  by (simp_all add: json_section_def lab_sections page_values lab_token_def)

lemma lab_success [simp]:
  "require_success (\<lambda>s. s) \<lparr>result_text = lab_page d, result_forms = fs\<rparr> = Inr \<lparr>result_text = lab_page d, result_forms = fs\<rparr>"
proof -
  have "public_error (\<lambda>s. s) \<lparr>result_text = lab_page d, result_forms = fs\<rparr> = None"
    by (simp add: public_error_def lab_page_def plain_page_def details_page_def sample_page_def pwd_details_def U_def)
  then show ?thesis using lab_marked by (simp add: require_success_def)
qed

section \<open>Flows\<close>

lemma lab_data:
  assumes "login_data sample_env cl pl oc False = Inr data"
  shows "map_of data (U ''grant_type'') = None" "map_of data (U ''username'') = None" "data \<noteq> []"
    "map_of data (U ''claims_json'') = None \<longleftrightarrow> oc" "map_of data (U ''prompt_login'') = None \<longleftrightarrow> \<not> pl"
  using assms by (auto simp: login_data_def Let_def U_def split: if_splits sum.splits)

lemma lab_session_set [simp]: "lab_session d = [] \<longleftrightarrow> \<not> d"
  by (simp add: lab_session_def)

lemma lab_terminal: "terminal_page (json_reply (lab_page d))"
  using lab_marked by (simp add: terminal_page_def json_reply_def)

lemma lab_gets [simp]:
  "lab_reply s (Get (U ''form'') []) = (s, json_reply (U ''form''))"
  "lab_reply s (Get (U ''page'') []) = (s, json_reply (lab_page (s \<noteq> [])))"
  by (simp_all add: lab_reply_def)

lemma lab_form_post [simp]:
  "lab_reply s (post_form lab r f (login_values cfg f)) = (s, json_reply (lab_page (s \<noteq> [])))" if "form_values f = [(U ''password'', Some [])]"
  using that by (simp add: lab_reply_def lab_post_def post_form_def login_values_def)

lemma lab_fields [simp]:
  "is_redirect (json_reply t) = False" "reply_text (json_reply t) = t" "reply_url (json_reply t) = []"
  "is_redirect (lab_redirect u) = True" "location (lab_redirect u) = Some u" "reply_text (lab_redirect u) = []"
  by (simp_all add: json_reply_def lab_redirect_def)

lemma lab_page_step:
  "drive (Suc k) sample_env lab cfg None st (lab_session d) (json_reply (lab_page d)) sub =
     Inr (st, lab_session d, \<lparr>result_text = lab_page d, result_forms = sub\<rparr>)"
  using lab_terminal [of d] lab_forms(2) [OF lab_page_text] by simp

lemma lab_form_step:
  "drive (Suc (Suc k)) sample_env lab cfg None st (lab_session d) (json_reply (U ''form'')) sub =
     Inr (st, lab_session d, \<lparr>result_text = lab_page d, result_forms = sub @ [login_form]\<rparr>)"
  by (subst drive.simps(2)) (simp add: lab_forms(1) Let_def lab_page_step del: drive.simps)

lemma lab_drive:
  "drive (Suc (Suc (Suc k))) sample_env lab cfg None st (lab_session d) (lab_redirect (if pl then U ''form'' else U ''page'')) sub =
     Inr (st, lab_session d, \<lparr>result_text = lab_page d, result_forms = sub @ (if pl then [login_form] else [])\<rparr>)"
  by (subst drive.simps(2)) (simp add: Let_def lab_page_step lab_form_step del: drive.simps)

lemma lab_authorize:
  assumes "login_data sample_env cl pl oc False = Inr data"
  shows "authorize sample_env lab cfg st cl (Some s) pl oc False False =
     Inr (st, lab_session (\<not> oc), \<lparr>result_text = lab_page (\<not> oc), result_forms = (if pl then [login_form] else [])\<rparr>)"
proof -
  have r: "lab_reply s (Post u data) = (lab_session (\<not> oc), lab_redirect (if pl then U ''form'' else U ''page''))" for u
    using lab_data [OF assms] by (simp add: lab_reply_def lab_post_def)
  show ?thesis
    using lab_drive [of 13 cfg st "\<not> oc" pl "[]"]
    by (simp add: authorize_def previous_messages_def assms r del: drive.simps if_split)
qed

end
