(* ===== verification/E2E_Suite.thy ===== *)
theory E2E_Suite
  imports E2E_Scenarios E2E_Lab
begin

text \<open>
  The suite of the HTTP end-to-end runner (e2e/http/run.py): \<open>wait_for_lab\<close>, the list of cases and \<open>main\<close>.
  Printing is left out; the scenarios that E2E_Scenarios leaves out are an argument.

  Proved: the wait ends; and what a passing case has established of the first login of its scenario, whose
  request the client accepts.
\<close>

section \<open>Waiting for the client\<close>

text \<open>
  One probe: an unreachable client and a body that is no JSON are \<open>RequestException\<close>s, which the loop
  catches.
\<close>

definition lab_status :: "'n stage \<Rightarrow> (cookie list \<times> reply) option \<Rightarrow> scenario_exc + bool" where
  "lab_status S answer =
     (case answer of
        None \<Rightarrow> Inr False
      | Some (_, r) \<Rightarrow>
          if status_code r \<noteq> 200 then Inr False
          else (case loads (stage_env S) (reply_text r) of
                  Inl (JSONDecodeError _ _) \<Rightarrow> Inr False
                | Inl _ \<Rightarrow> Inl PythonFault
                | Inr v \<Rightarrow> rbind (got v ''status'' unset) (\<lambda>x. Inr (x = lit ''ok''))))"

fun poll_lab :: "nat \<Rightarrow> 'n stage \<Rightarrow> rat \<Rightarrow> 'n runner \<Rightarrow> scenario_exc + 'n runner" where
  "poll_lab 0 S deadline st = Inl (FromRunner OutOfTurns)"
| "poll_lab (Suc fuel) S deadline st =
     (case monotonic (stage_network S) (net st) of (n, now) \<Rightarrow>
        if \<not> now < deadline then Inl LabNotReady
        else (case send (stage_network S) n [] (Get (client_url st @ U ''/healthz'') []) of (n', answer) \<Rightarrow>
          rbind (lab_status S answer) (\<lambda>ready.
            if ready then Inr (st\<lparr>net := n'\<rparr>)
            else poll_lab fuel S deadline (st\<lparr>net := sleep (stage_network S) n' 1\<rparr>))))"

definition wait_for_lab :: "'n stage \<Rightarrow> 'n runner \<Rightarrow> scenario_exc + 'n runner" where
  "wait_for_lab S st =
     (case monotonic (stage_network S) (net st) of (n, now) \<Rightarrow>
        poll_lab (mail_turns (stage_config S)) S (now + wait_timeout (stage_config S)) (st\<lparr>net := n\<rparr>))"

section \<open>The cases\<close>

definition CASES :: "(string \<Rightarrow> 'n scenario) \<Rightarrow> (string \<times> 'n scenario) list" where
  "CASES others =
    [(''discovery and visual-workbench request handling'', test_discovery_and_workbench),
     (''realm switch gates discovery and authorization'', others ''test_realm_switch_gates_discovery_and_authorization''),
     (''structured optional metadata'', test_optional_metadata_uses_protocol_location_object),
     (''client and redirect validation'', test_client_and_redirect_validation_precedes_authentication),
     (''configured factor flow is visible to the admin API'', test_admin_api_exposes_configured_factor_container),
     (''realm and client disclosure policy'', others ''test_realm_and_client_disclosure_policy_is_enforced''),
     (''query, fragment, and form_post error modes'', test_unmet_error_response_modes),
     (''JARM error response mode'', test_unmet_error_jarm_response_mode),
     (''essential password, freshness, and refresh snapshot'', test_essential_password_and_refresh),
     (''password credential metadata projection'', test_password_credential_metadata_is_projected),
     (''access token excludes amr_details'', test_access_token_does_not_contain_amr_details),
     (''null claim requests the complete event'', test_null_claim_requests_complete_event_without_method_requirement),
     (''essential claim without expression'', test_essential_claim_without_expression_requests_complete_event),
     (''offline refresh reuses the immutable snapshot'', test_offline_refresh_reuses_the_same_snapshot),
     (''old grant survives a later authentication'', test_old_grant_userinfo_survives_a_later_authentication),
     (''ordinary OIDC login without a claims parameter'', test_ordinary_oidc_login_without_claims_parameter),
     (''best-effort unsupported method'', test_best_effort_unsupported_method_does_not_block_login),
     (''best-effort value constraint reports actual property'',
         test_best_effort_value_constraint_reports_actual_property),
     (''identifier values and numeric property bounds'', test_identifier_values_and_numeric_property_bounds),
     (''essential password and OTP all_of'', test_password_and_otp_all_of),
     (''email authenticator sends and verifies an SMTP code'', test_email_authenticator_sends_and_verifies_code),
     (''repeated method executions preserve timestamps'', test_repeated_method_executions_preserve_each_timestamp),
     (''independent delivery projections retain one complete event'',
         test_independent_delivery_projections_preserve_the_complete_event),
     (''single-location disclosure'', test_single_location_disclosure),
     (''one_of branch policy'', test_one_of_uses_realm_priority),
     (''nested all_of / one_of branch policy'', test_nested_expression_selects_the_preferred_satisfiable_branch),
     (''essential property constraint failure'', test_essential_constraint_failure_is_generic),
     (''unsupported essential method failure'', test_unsupported_essential_method_is_generic),
     (''malformed logical expression'', test_malformed_logical_expression_is_rejected),
     (''SSO reauthentication for stronger request'', test_sso_reauthentication_for_stronger_request),
     (''essential max_age forces reauthentication'', test_max_age_forces_reauthentication),
     (''best-effort all_of leaf'', test_best_effort_leaf_inside_all_of_does_not_block),
     (''invalid method shape'', test_invalid_method_shape_is_rejected_before_authentication),
     (''invalid grammar variants'', test_invalid_request_grammar_variants_are_rejected_before_authentication),
     (''ordinary SSO reuse without OIDC4AC claims'', test_ordinary_sso_reuse_without_oidc4ac_claim),
     (''OIDC4AC SSO reuse preserves execution time'', test_oidc4ac_sso_reuse_preserves_original_execution_time),
     (''concurrent grants retain isolated projections'', others
         ''test_concurrent_grants_keep_location_projections_isolated'')]"

text \<open>The cases in order, up to the first that raises; the exit code.\<close>

fun run_cases :: "'n stage \<Rightarrow> (string \<times> 'n scenario) list \<Rightarrow> 'n runner \<Rightarrow> nat" where
  "run_cases S [] st = 0"
| "run_cases S ((name, case_of) # cases) st =
     (case case_of S st of Inl _ \<Rightarrow> 1 | Inr st' \<Rightarrow> run_cases S cases st')"

text \<open>\<open>main\<close> runs all cases, \<open>CASES others\<close>.\<close>

definition suite_main :: "'n stage \<Rightarrow> (string \<times> 'n scenario) list \<Rightarrow> 'n runner \<Rightarrow> scenario_exc + nat" where
  "suite_main S cases st = rbind (wait_for_lab S st) (\<lambda>st'. Inr (run_cases S cases st'))"

section \<open>The wait ends\<close>

lemma got_turns: "got v k d \<noteq> Inl (FromRunner OutOfTurns)"
  by (simp add: got_def lift_py_def split: sum.splits)

lemma lab_status_turns: "lab_status S a \<noteq> Inl (FromRunner OutOfTurns)"
  using got_turns by (auto simp: lab_status_def rbind_eq_Inl split: option.splits sum.splits json_exc.splits)

lemma poll_lab_turns:
  assumes clock: "clock_ok (stage_network S) now"
  shows "deadline - now (net st) \<le> rat_of_nat k \<Longrightarrow> k < fuel \<Longrightarrow>
    poll_lab fuel S deadline st \<noteq> Inl (FromRunner OutOfTurns)
    \<and> poll_lab fuel S deadline st = poll_lab (Suc k) S deadline st"
proof (induction k arbitrary: fuel st)
  case 0
  obtain n t where m: "monotonic (stage_network S) (net st) = (n, t)" by (cases "monotonic (stage_network S) (net st)")
  then have "now (net st) \<le> t" using clock unfolding clock_ok_def by (metis snd_conv)
  with 0 m show ?case by (cases fuel) auto
next
  case (Suc k)
  obtain n t where m: "monotonic (stage_network S) (net st) = (n, t)" by (cases "monotonic (stage_network S) (net st)")
  then have t: "now (net st) \<le> now n" using clock unfolding clock_ok_def by (metis fst_conv order_trans snd_conv)
  obtain f where f: "fuel = Suc f" "k < f" using Suc.prems(2) by (cases fuel) auto
  obtain n' a where s: "send (stage_network S) n [] (Get (client_url st @ U ''/healthz'') []) = (n', a)"
    by (cases "send (stage_network S) n [] (Get (client_url st @ U ''/healthz'') [])")
  let ?st = "st\<lparr>net := sleep (stage_network S) n' 1\<rparr>"
  have "now n \<le> now n'" using clock s unfolding clock_ok_def by (metis fst_conv)
  moreover have "now n' + 1 \<le> now (sleep (stage_network S) n' 1)" using clock unfolding clock_ok_def by blast
  ultimately have "deadline - now (net ?st) \<le> rat_of_nat k" using t Suc.prems(1) by simp
  note step = Suc.IH [OF this f(2)]
  have run: "poll_lab (Suc f') S deadline st =
      (if \<not> t < deadline then Inl LabNotReady
       else rbind (lab_status S a) (\<lambda>ready. if ready then Inr (st\<lparr>net := n'\<rparr>) else poll_lab f' S deadline ?st))" for f'
    by (simp add: m s)
  show ?case
    unfolding f(1) run using step lab_status_turns [of S a]
    by (cases "lab_status S a") (auto simp del: poll_lab.simps)
qed

text \<open>The wait for the client ends: it never runs out of turns on a monotonic clock whose sleeps last.\<close>

theorem lab_wait_ends:
  assumes "clock_ok (stage_network S) now"
  shows "wait_for_lab S st \<noteq> Inl (FromRunner OutOfTurns)"
proof -
  let ?cfg = "stage_config S"
  obtain n t where m: "monotonic (stage_network S) (net st) = (n, t)" by (cases "monotonic (stage_network S) (net st)")
  then have "t \<le> now n" using assms unfolding clock_ok_def by (metis fst_conv snd_conv)
  then have "t + wait_timeout ?cfg - now (net (st\<lparr>net := n\<rparr>)) \<le> rat_of_nat (nat \<lceil>wait_timeout ?cfg\<rceil>)"
    by (simp add: of_nat_ceiling order_trans [of _ "wait_timeout ?cfg"])
  from poll_lab_turns [OF assms this, of "mail_turns ?cfg"] show ?thesis
    by (simp add: wait_for_lab_def mail_turns_def m del: poll_lab.simps)
qed

section \<open>What the client makes of a request\<close>

text \<open>An upper bound for the length of a printed value.\<close>

fun print_bound :: "json \<Rightarrow> nat" where
  "print_bound (JArr vs) = 2 + sum_list (map (\<lambda>v. print_bound v + 2) vs)"
| "print_bound (JObj ms) = 2 + sum_list (map (\<lambda>kv. 12 * length (fst kv) + print_bound (snd kv) + 6) ms)"
| "print_bound (JStr s) = 12 * length s + 2"
| "print_bound (JFloat t) = length t"
| "print_bound (JInt i) = length (int_text i)"
| "print_bound _ = 5"

lemma join_bound: "length (join sep xs) \<le> sum_list (map (\<lambda>x. length x + length sep) xs)"
  by (induction sep xs rule: join.induct) auto

lemma quoted_bound: "length (quoted default_style s) \<le> 12 * length s + 2"
proof -
  have "length (esc_ascii c) \<le> 12" for c by (simp add: esc_ascii_def u4_def)
  then have "length (concat (map esc_ascii s)) \<le> 12 * length s"
    by (induction s) (auto intro: order_trans [OF add_le_mono])
  then show ?thesis by (simp add: quoted_def default_style_def)
qed

lemma default_simps: "item_sep default_style l = [44, 32]" "key_sep default_style = [58, 32]"
    "open_txt default_style l = []" "close_txt default_style l = []"
  by (simp_all add: default_style_def no_indent_def)

lemma dump_bound: "length (dump default_style l v) \<le> print_bound v"
proof (induction v arbitrary: l)
  case (JArr vs)
  have "length (join [44, 32] (map (dump default_style (Suc l)) vs)) \<le> sum_list (map (\<lambda>v. length (dump
      default_style (Suc l) v) + 2) vs)"
    using join_bound [of "[44, 32]" "map (dump default_style (Suc l)) vs"] by (simp add: comp_def)
  also have "\<dots> \<le> sum_list (map (\<lambda>v. print_bound v + 2) vs)" using JArr by (intro sum_list_mono) simp
  finally show ?case by (simp add: default_simps)
next
  case (JObj ms)
  let ?m = "\<lambda>kv. quoted default_style (fst kv) @ key_sep default_style @ dump default_style (Suc l) (snd kv)"
  have "length (?m kv) \<le> 12 * length (fst kv) + print_bound (snd kv) + 4" if "kv \<in> set ms" for kv
  proof -
    have "length (dump default_style (Suc l) (snd kv)) \<le> print_bound (snd kv)"
      by (rule JObj [OF that]) (cases kv, simp add: prod_set_simps)
    then show ?thesis using quoted_bound [of "fst kv"] by (simp add: default_simps)
  qed
  note m = this
  have "length (join [44, 32] (map ?m ms)) \<le> sum_list (map (\<lambda>kv. length (?m kv) + 2) ms)"
    using join_bound [of "[44, 32]" "map ?m ms"] by (simp add: comp_def)
  also have "\<dots> \<le> sum_list (map (\<lambda>kv. 12 * length (fst kv) + print_bound (snd kv) + 6) ms)"
    using m by (intro sum_list_mono) fastforce
  finally show ?case by (simp add: default_simps del: append_assoc)
qed (use quoted_bound in \<open>auto simp: U_def\<close>)

lemma json_ok_mono: "json_ok env d v \<Longrightarrow> d \<le> e \<Longrightarrow> json_ok env e v"
  by (induction env d v arbitrary: e rule: json_ok.induct) (auto intro: diff_le_mono)

lemma accepted_text:
  assumes "json_ok env (scan_depth env) (JObj ms)" "length (dump default_style 0 (JObj ms)) \<le> 64000"
  shows "parse_claims env (Some (dump default_style 0 (JObj ms))) = Inr ms"
proof -
  let ?t = "dump default_style 0 (JObj ms)"
  have a: "\<forall>c \<in> set ?t. c < 128" by (rule dump_ascii [OF style_ok_default _ assms(1)]) (simp add: default_style_def)
  have "123 \<in> set ?t" by (cases ms) simp_all
  then have s: "strip ?t \<noteq> []" by (auto simp only: strip_empty_iff) (auto simp: is_space_def)
  show ?thesis
    using parse_claims_Some [OF s utf8_encode_ascii [OF a]] loads_dump [OF style_ok_default assms(1), of 0] assms(2)
    by simp
qed

text \<open>A request that the client accepts as printed, at any nesting limit from 10 on.\<close>

definition printable :: "(ustr, json) dict \<Rightarrow> bool" where
  "printable rc \<longleftrightarrow> (\<forall>env. json_ok env 10 (JObj rc)) \<and> print_bound (JObj rc) \<le> 64000"

lemma printable_accepted:
  assumes "printable rc" "10 \<le> scan_depth env"
  shows "parse_claims env (Some (dump default_style 0 (JObj rc))) = Inr rc"
proof (rule accepted_text)
  show "json_ok env (scan_depth env) (JObj rc)" 
    using assms(1) unfolding printable_def by (intro json_ok_mono [OF _ assms(2)]) blast
  show "length (dump default_style 0 (JObj rc)) \<le> 64000"
    using assms(1) dump_bound [of 0 "JObj rc"] unfolding printable_def by linarith
qed

section \<open>What a case establishes\<close>

datatype expected_outcome = Accepted | Completed "string list" | Refused string

record plan =
  plan_request :: "(ustr, json) dict"
  plan_omit :: bool
  plan_offline :: bool
  plan_email :: bool
  plan_screens :: "ustr list option"
  plan_outcome :: expected_outcome

definition simple_plan :: "(ustr, json) dict \<Rightarrow> ustr list option \<Rightarrow> expected_outcome \<Rightarrow> plan" where
  "simple_plan rc screens outcome = \<lparr>plan_request = rc, plan_omit = False, plan_offline = False, plan_email = False,
     plan_screens = screens, plan_outcome = outcome\<rparr>"

definition ordinary_plan :: "ustr list option \<Rightarrow> plan" where
  "ordinary_plan screens = (simple_plan [] screens Accepted)\<lparr>plan_omit := True\<rparr>"

text \<open>What each case expects of its logins without a session: the request, the screens, the outcome.\<close>

definition PLANS :: "(string \<times> plan) list" where
  "PLANS =
    [(''structured optional metadata'', simple_plan optional_metadata_request None (Completed [''pwd''])),
     (''essential password, freshness, and refresh snapshot'', simple_plan password_request (Some login_screen)
         (Completed [''pwd''])),
     (''password credential metadata projection'', simple_plan credential_request (Some login_screen) (Completed
         [''pwd''])),
     (''access token excludes amr_details'', simple_plan pwd_request None Accepted),
     (''null claim requests the complete event'', simple_plan null_request None (Completed [''pwd''])),
     (''essential claim without expression'', simple_plan essential_request None (Completed [''pwd''])),
     (''offline refresh reuses the immutable snapshot'', (simple_plan pwd_request None Accepted)\<lparr>plan_offline := True\<rparr>),
     (''old grant survives a later authentication'', simple_plan pwd_request None Accepted),
     (''ordinary OIDC login without a claims parameter'', ordinary_plan (Some login_screen)),
     (''best-effort unsupported method'', simple_plan (unsupported_request False) (Some login_screen) Accepted),
     (''best-effort value constraint reports actual property'', simple_plan best_effort_value_request None Accepted),
     (''identifier values and numeric property bounds'', simple_plan identifier_values_request None Accepted),
     (''identifier values and numeric property bounds'', simple_plan bounded_request None Accepted),
     (''essential password and OTP all_of'', simple_plan otp_value_request (Some factor_screens) (Completed
         [''pwd'', ''otp''])),
     (''email authenticator sends and verifies an SMTP code'',
       (simple_plan email_request (Some [otp_form]) (Completed [''email'']))\<lparr>plan_email := True\<rparr>),
     (''repeated method executions preserve timestamps'', simple_plan repeated_request (Some [login_form,
         login_form]) Accepted),
     (''independent delivery projections retain one complete event'',
       simple_plan independent_request (Some factor_screens) (Completed [''pwd'', ''otp''])),
     (''single-location disclosure'', simple_plan (claims (by_method ''pwd'') True False True) None Accepted),
     (''single-location disclosure'', simple_plan (claims (by_method ''pwd'') False True True) None Accepted),
     (''one_of branch policy'', simple_plan one_of_request (Some login_screen) (Completed [''pwd''])),
     (''nested all_of / one_of branch policy'', simple_plan nested_request (Some factor_screens) (Completed
         [''pwd'', ''otp''])),
     (''essential property constraint failure'', simple_plan impossible_request (Some login_screen) (Refused unmet)),
     (''unsupported essential method failure'', simple_plan (unsupported_request True) (Some []) (Refused unmet)),
     (''malformed logical expression'', simple_plan malformed_request (Some []) (Refused ''invalid_request'')),
     (''SSO reauthentication for stronger request'', simple_plan pwd_request None Accepted),
     (''essential max_age forces reauthentication'', simple_plan pwd_request None Accepted),
     (''best-effort all_of leaf'', simple_plan best_effort_leaf_request (Some login_screen) (Completed [''pwd''])),
     (''invalid method shape'', simple_plan invalid_shape_request (Some []) (Refused ''invalid_request'')),
     (''ordinary SSO reuse without OIDC4AC claims'', ordinary_plan None),
     (''OIDC4AC SSO reuse preserves execution time'', simple_plan pwd_request None Accepted)]
    @ map (\<lambda>rc. (''invalid grammar variants'', simple_plan rc (Some []) (Refused ''invalid_request'')))
        invalid_grammar_requests"

text \<open>The tokens on the page list exactly these executions, at the same times in both.\<close>

definition event_shown :: "'n stage \<Rightarrow> authorization_result \<Rightarrow> string list \<Rightarrow> bool" where
  "event_shown S r ids \<longleftrightarrow> (\<exists>i u a b.
     json_section (stage_env S) (stage_unescape S) id_token_heading r = Inr i
     \<and> json_section (stage_env S) (stage_unescape S) userinfo_heading r = Inr u
     \<and> detail_map i = Inr a \<and> detail_map u = Inr b
     \<and> set (map fst a) = U ` set ids \<and> set (map fst b) = U ` set ids
     \<and> (\<forall>k \<in> U ` set ids. \<exists>t. Option.bind (map_of a k) detail_time = Some t \<and> Option.bind (map_of b k)
         detail_time = Some t))"

definition outcome_shown :: "'n stage \<Rightarrow> authorization_result \<Rightarrow> expected_outcome \<Rightarrow> bool" where
  "outcome_shown S r outcome =
     (case outcome of
        Refused e \<Rightarrow> public_error (stage_unescape S) r = Some (U e)
      | Accepted \<Rightarrow> require_success (stage_unescape S) r = Inr r
      | Completed ids \<Rightarrow> require_success (stage_unescape S) r = Inr r \<and> event_shown S r ids)"

definition established :: "'n stage \<Rightarrow> plan \<Rightarrow> bool" where
  "established S p \<longleftrightarrow> (\<exists>st st' s r.
     authorize (stage_env S) (stage_network S) (stage_config S) st (plan_request p) None True (plan_omit p)
         (plan_offline p)
       (plan_email p) = Inr (st', s, r)
     \<and> (case plan_screens p of None \<Rightarrow> True | Some forms \<Rightarrow> result_forms r = forms)
     \<and> outcome_shown S r (plan_outcome p))"

lemma lift_scenario_Inr [simp]: "lift_flow x = Inr y \<longleftrightarrow> x = Inr y" "lift_checks z = Inr w \<longleftrightarrow> z = Inr w"
  "lift_py a = Inr b \<longleftrightarrow> a = Inr b"
  by (simp_all add: lift_flow_def lift_checks_def lift_py_def split: sum.splits)

lemma claim_Inr [simp]: "claim c m = Inr u \<longleftrightarrow> c" "rbind (claim c m) f = (if c then f () else Inl (WrongResult m))"
  by (simp_all add: claim_def)

lemma require_success_same: "require_success unescape r = Inr r' \<Longrightarrow> r' = r"
  by (auto simp: require_success_def split: option.splits if_splits)

lemma require_error_iff: "require_error unescape e r = Inr r' \<longleftrightarrow> r' = r \<and> public_error unescape r = Some e"
  by (auto simp: require_error_def split: if_splits)

lemma succeeded_Inr:
  "succeeded S (flow S st rc session pl om off em) = Inr (st', s, r) \<longleftrightarrow>
     authorize (stage_env S) (stage_network S) (stage_config S) st rc session pl om off em = Inr (st', s, r)
     \<and> require_success (stage_unescape S) r = Inr r"
  unfolding succeeded_def flow_def rbind_eq_Inr by (auto simp: rbind_eq_Inr dest: require_success_same)

lemma refused_Inr:
  "refused S e (flow S st rc session pl om off em) = Inr (st', s, r) \<longleftrightarrow>
     authorize (stage_env S) (stage_network S) (stage_config S) st rc session pl om off em = Inr (st', s, r)
     \<and> public_error (stage_unescape S) r = Some (U e)"
  unfolding refused_def flow_def rbind_eq_Inr by (auto simp: rbind_eq_Inr require_error_iff)

lemma tokens_event:
  assumes "tokens S r = Inr t" "complete_event t ids = Inr e"
  shows "event_shown S r ids"
proof -
  obtain i u a b where t: "t = (i, u)" "e = (a, b)" by (cases t; cases e)
  with assms have s: "json_section (stage_env S) (stage_unescape S) id_token_heading r = Inr i"
    "json_section (stage_env S) (stage_unescape S) userinfo_heading r = Inr u"
    by (auto simp: tokens_def sectioned_def rbind_eq_Inr)
  have "assert_complete_event i u (map U ids) = Inr (a, b)" using assms(2) t by (simp add: complete_event_def)
  then have "detail_map i = Inr a" "detail_map u = Inr b" "set (map fst a) = U ` set ids" "set (map fst b) = U ` set ids"
    "check_snapshot a b (map U ids) = Inr ()"
    by (auto simp: assert_complete_event_def rbind_eq_Inr split: if_splits)
  with s show ?thesis unfolding event_shown_def check_snapshot_Inr by auto
qed

lemma success_result_Inr:
  "success_result S st rc forms = Inr ((st', s, r), t) \<Longrightarrow>
     authorize (stage_env S) (stage_network S) (stage_config S) st rc None True False False False = Inr (st', s, r)
     \<and> require_success (stage_unescape S) r = Inr r \<and> result_forms r = forms \<and> tokens S r = Inr t"
  by (auto simp: success_result_def rbind_eq_Inr succeeded_Inr split: if_splits)

text \<open>The first login of a scenario, by the checks that follow it.\<close>

lemma first_login:
  assumes "authorize (stage_env S) (stage_network S) (stage_config S) st (plan_request p) None True (plan_omit p)
      (plan_offline p) (plan_email p) = Inr (st', s, r)"
    and "\<And>forms. plan_screens p = Some forms \<Longrightarrow> result_forms r = forms" "outcome_shown S r (plan_outcome p)"
  shows "established S p"
  using assms unfolding established_def by (intro exI [of _ st] exI [of _ st'] exI [of _ s] exI [of _ r]) (auto
      split: option.splits)

lemma plan_simps [simp]:
  "plan_request (simple_plan rc f e) = rc" "plan_omit (simple_plan rc f e) = False" "plan_offline (simple_plan
      rc f e) = False"
  "plan_email (simple_plan rc f e) = False" "plan_screens (simple_plan rc f e) = f" "plan_outcome (simple_plan
      rc f e) = e"
  "plan_request (ordinary_plan f) = []" "plan_omit (ordinary_plan f) = True" "plan_offline (ordinary_plan f) = False"
  "plan_email (ordinary_plan f) = False" "plan_screens (ordinary_plan f) = f" "plan_outcome (ordinary_plan f) = Accepted"
  by (simp_all add: simple_plan_def ordinary_plan_def)

lemma success_plan:
  assumes "success_result S st rc forms = Inr (x, t)" "complete_event t ids = Inr e"
  shows "established S (simple_plan rc (Some forms) (Completed ids))"
proof -
  obtain st' s r where x: "x = (st', s, r)" by (cases x)
  from success_result_Inr [OF assms(1) [unfolded x]] tokens_event [of S r t ids e] assms(2) show ?thesis
    by (intro first_login [of S st _ st' s r]) (auto simp: outcome_shown_def)
qed

lemma event_plan:
  assumes "succeeded S (login_flow S st rc) = Inr (st', s, r)" "tokens S r = Inr t" "complete_event t ids = Inr e"
    and "\<And>forms. screens = Some forms \<Longrightarrow> result_forms r = forms"
  shows "established S (simple_plan rc screens (Completed ids))"
  using assms tokens_event [of S r t ids e]
  by (intro first_login [of S st _ st' s r]) (auto simp: outcome_shown_def succeeded_Inr)

lemma accepted_plan:
  assumes "succeeded S (login_flow S st rc) = Inr (st', s, r)" "\<And>forms. screens = Some forms \<Longrightarrow> result_forms r = forms"
  shows "established S (simple_plan rc screens Accepted)"
  using assms by (intro first_login [of S st _ st' s r]) (auto simp: outcome_shown_def succeeded_Inr)

lemma refused_plan:
  assumes "refused S e (login_flow S st rc) = Inr (st', s, r)" "result_forms r = forms"
  shows "established S (simple_plan rc (Some forms) (Refused e))"
  using assms by (intro first_login [of S st _ st' s r]) (auto simp: outcome_shown_def refused_Inr)

lemma ordinary_established:
  assumes "succeeded S (flow S st [] None True True False False) = Inr (st', s, r)"
    and "\<And>forms. screens = Some forms \<Longrightarrow> result_forms r = forms"
  shows "established S (ordinary_plan screens)"
  using assms by (intro first_login [of S st _ st' s r]) (auto simp: outcome_shown_def succeeded_Inr)

lemma refused_unseen_plan:
  "refused_unseen rc S st = Inr st' \<Longrightarrow> established S (simple_plan rc (Some []) (Refused ''invalid_request''))"
  by (auto simp: refused_unseen_def rbind_eq_Inr split: if_splits intro: refused_plan)

lemma all_refused_plans:
  "all_refused S rcs st = Inr st' \<Longrightarrow> rc \<in> set rcs \<Longrightarrow> established S (simple_plan rc (Some []) (Refused ''invalid_request''))"
  by (induction rcs arbitrary: st) (auto simp: rbind_eq_Inr intro: refused_unseen_plan)

text \<open>Each scenario.\<close>

lemma scenario_plans:
  "test_optional_metadata_uses_protocol_location_object S st = Inr st' \<Longrightarrow> established S (simple_plan
      optional_metadata_request None (Completed [''pwd'']))"
  "test_essential_password_and_refresh S st = Inr st' \<Longrightarrow> established S (simple_plan password_request (Some
      login_screen) (Completed [''pwd'']))"
  "test_password_credential_metadata_is_projected S st = Inr st' \<Longrightarrow> established S (simple_plan credential_request
      (Some login_screen) (Completed [''pwd'']))"
  "test_access_token_does_not_contain_amr_details S st = Inr st' \<Longrightarrow> established S (simple_plan pwd_request None Accepted)"
  "test_null_claim_requests_complete_event_without_method_requirement S st = Inr st' \<Longrightarrow> established S
      (simple_plan null_request None (Completed [''pwd'']))"
  "test_essential_claim_without_expression_requests_complete_event S st = Inr st' \<Longrightarrow> established S (simple_plan
      essential_request None (Completed [''pwd'']))"
  "test_old_grant_userinfo_survives_a_later_authentication S st = Inr st' \<Longrightarrow> established S (simple_plan
      pwd_request None Accepted)"
  "test_ordinary_oidc_login_without_claims_parameter S st = Inr st' \<Longrightarrow> established S (ordinary_plan (Some login_screen))"
  "test_best_effort_unsupported_method_does_not_block_login S st = Inr st' \<Longrightarrow> established S (simple_plan
      (unsupported_request False) (Some login_screen) Accepted)"
  "test_best_effort_value_constraint_reports_actual_property S st = Inr st' \<Longrightarrow> established S (simple_plan
      best_effort_value_request None Accepted)"
  by (auto simp: test_optional_metadata_uses_protocol_location_object_def
      test_essential_password_and_refresh_def test_password_credential_metadata_is_projected_def
      test_access_token_does_not_contain_amr_details_def
          test_null_claim_requests_complete_event_without_method_requirement_def
          test_essential_claim_without_expression_requests_complete_event_def
          test_old_grant_userinfo_survives_a_later_authentication_def
          test_ordinary_oidc_login_without_claims_parameter_def
      test_best_effort_unsupported_method_does_not_block_login_def
          test_best_effort_value_constraint_reports_actual_property_def rbind_eq_Inr split: if_splits
      intro: success_plan event_plan accepted_plan ordinary_established)

lemma more_scenario_plans:
  "test_identifier_values_and_numeric_property_bounds S st = Inr st' \<Longrightarrow> established S (simple_plan
      identifier_values_request None Accepted)
     \<and> established S (simple_plan bounded_request None Accepted)"
  "test_password_and_otp_all_of S st = Inr st' \<Longrightarrow> established S (simple_plan otp_value_request (Some
      factor_screens) (Completed [''pwd'', ''otp'']))"
  "test_repeated_method_executions_preserve_each_timestamp S st = Inr st' \<Longrightarrow> established S (simple_plan
      repeated_request (Some [login_form, login_form]) Accepted)"
  "test_independent_delivery_projections_preserve_the_complete_event S st = Inr st' \<Longrightarrow>
     established S (simple_plan independent_request (Some factor_screens) (Completed [''pwd'', ''otp'']))"
  "test_single_location_disclosure S st = Inr st' \<Longrightarrow> established S (simple_plan (claims (by_method ''pwd'') True
      False True) None Accepted)
     \<and> established S (simple_plan (claims (by_method ''pwd'') False True True) None Accepted)"
  "test_one_of_uses_realm_priority S st = Inr st' \<Longrightarrow> established S (simple_plan one_of_request (Some
      login_screen) (Completed [''pwd'']))"
  "test_nested_expression_selects_the_preferred_satisfiable_branch S st = Inr st' \<Longrightarrow>
     established S (simple_plan nested_request (Some factor_screens) (Completed [''pwd'', ''otp'']))"
  "test_essential_constraint_failure_is_generic S st = Inr st' \<Longrightarrow> established S (simple_plan impossible_request
      (Some login_screen) (Refused unmet))"
  "test_unsupported_essential_method_is_generic S st = Inr st' \<Longrightarrow> established S (simple_plan (unsupported_request
      True) (Some []) (Refused unmet))"
  "test_sso_reauthentication_for_stronger_request S st = Inr st' \<Longrightarrow> established S (simple_plan pwd_request None Accepted)"
  "test_max_age_forces_reauthentication S st = Inr st' \<Longrightarrow> established S (simple_plan pwd_request None Accepted)"
  "test_best_effort_leaf_inside_all_of_does_not_block S st = Inr st' \<Longrightarrow> established S (simple_plan
      best_effort_leaf_request (Some login_screen) (Completed [''pwd'']))"
  "test_ordinary_sso_reuse_without_oidc4ac_claim S st = Inr st' \<Longrightarrow> established S (ordinary_plan None)"
  "test_oidc4ac_sso_reuse_preserves_original_execution_time S st = Inr st' \<Longrightarrow> established S (simple_plan
      pwd_request None Accepted)"
  by (auto simp: test_identifier_values_and_numeric_property_bounds_def test_password_and_otp_all_of_def
      test_repeated_method_executions_preserve_each_timestamp_def
      test_independent_delivery_projections_preserve_the_complete_event_def
      test_single_location_disclosure_def test_one_of_uses_realm_priority_def
          test_nested_expression_selects_the_preferred_satisfiable_branch_def
          test_essential_constraint_failure_is_generic_def test_unsupported_essential_method_is_generic_def
      test_sso_reauthentication_for_stronger_request_def test_max_age_forces_reauthentication_def
          test_best_effort_leaf_inside_all_of_does_not_block_def
          test_ordinary_sso_reuse_without_oidc4ac_claim_def test_oidc4ac_sso_reuse_preserves_original_execution_time_def
      rbind_eq_Inr Let_def split: if_splits
      intro: success_plan event_plan accepted_plan refused_plan ordinary_established)

lemma option_plans:
  "test_offline_refresh_reuses_the_same_snapshot S st = Inr st' \<Longrightarrow> established S ((simple_plan pwd_request None
      Accepted)\<lparr>plan_offline := True\<rparr>)"
  "test_email_authenticator_sends_and_verifies_code S st = Inr st' \<Longrightarrow>
     established S ((simple_plan email_request (Some [otp_form]) (Completed [''email'']))\<lparr>plan_email := True\<rparr>)"
proof -
  assume "test_offline_refresh_reuses_the_same_snapshot S st = Inr st'"
  then obtain st1 s1 r1 where "succeeded S (flow S st pwd_request None True False True False) = Inr (st1, s1, r1)"
    by (auto simp: test_offline_refresh_reuses_the_same_snapshot_def rbind_eq_Inr)
  then show "established S ((simple_plan pwd_request None Accepted)\<lparr>plan_offline := True\<rparr>)"
    by (intro first_login [of S st _ st1 s1 r1]) (auto simp: simple_plan_def outcome_shown_def succeeded_Inr)
next
  assume "test_email_authenticator_sends_and_verifies_code S st = Inr st'"
  then obtain st1 s1 r1 t e where "succeeded S (flow S st email_request None True False False True) = Inr (st1, s1, r1)"
    "result_forms r1 = [otp_form]" "tokens S r1 = Inr t" "complete_event t [''email''] = Inr e"
    by (auto simp: test_email_authenticator_sends_and_verifies_code_def rbind_eq_Inr split: if_splits)
  then show "established S ((simple_plan email_request (Some [otp_form]) (Completed [''email'']))\<lparr>plan_email := True\<rparr>)"
    using tokens_event [of S r1 t "[''email'']" e]
    by (intro first_login [of S st _ st1 s1 r1]) (auto simp: simple_plan_def outcome_shown_def succeeded_Inr)
qed

lemma grammar_plans:
  "test_malformed_logical_expression_is_rejected S st = Inr st' \<Longrightarrow> established S (simple_plan malformed_request
      (Some []) (Refused ''invalid_request''))"
  "test_invalid_method_shape_is_rejected_before_authentication S st = Inr st' \<Longrightarrow> established S (simple_plan
      invalid_shape_request (Some []) (Refused ''invalid_request''))"
  "test_invalid_request_grammar_variants_are_rejected_before_authentication S st = Inr st' \<Longrightarrow> rc \<in> set
      invalid_grammar_requests \<Longrightarrow>
     established S (simple_plan rc (Some []) (Refused ''invalid_request''))"
  by (simp_all add: test_malformed_logical_expression_is_rejected_def
      test_invalid_method_shape_is_rejected_before_authentication_def
      test_invalid_request_grammar_variants_are_rejected_before_authentication_def refused_unseen_plan all_refused_plans)

lemma case_plans:
  assumes "(name, case_of) \<in> set (CASES others)" "case_of S st = Inr st'" "(name, p) \<in> set PLANS"
  shows "established S p"
  using assms unfolding CASES_def PLANS_def
  by (auto simp: scenario_plans more_scenario_plans option_plans grammar_plans)

text \<open>A passing list of cases.\<close>

lemma run_cases_passed:
  "run_cases S cases st = 0 \<Longrightarrow> (name, case_of) \<in> set cases \<Longrightarrow> \<exists>st0 st1. case_of S st0 = Inr st1"
  by (induction S cases st rule: run_cases.induct) (auto split: sum.splits)

lemmas request_defs = claims_def amr_method_def spread_def essential_def logical_def members_def id_token_request_def
  located_requests_def Let_def

lemmas printable_eval = printable_def request_defs dict_ok_def str_ok_def U_def no_pair.simps is_high_def is_low_def
  int_text_def dec.simps max_int_digits_def

lemma requests_printable:
  "printable []" "printable pwd_request" "printable optional_metadata_request" "printable password_request"
  "printable credential_request" "printable null_request" "printable essential_request"
  "printable (unsupported_request b)" "printable best_effort_value_request" "printable identifier_values_request"
  by (simp_all add: printable_eval optional_metadata_request_def password_request_def credential_request_def
      null_request_def
      essential_request_def unsupported_request_def best_effort_value_request_def identifier_values_request_def)

lemma more_requests_printable:
  "printable bounded_request" "printable otp_value_request" "printable email_request" "printable repeated_request"
  "printable independent_request" "printable one_of_request" "printable nested_request" "printable impossible_request"
  "printable (claims (by_method ''pwd'') True False True)" "printable (claims (by_method ''pwd'') False True True)"
  "printable best_effort_leaf_request" "printable malformed_request" "printable invalid_shape_request"
  by (simp_all add: printable_eval bounded_request_def otp_value_request_def email_request_def repeated_request_def
      independent_request_def one_of_request_def nested_request_def impossible_request_def best_effort_leaf_request_def
      malformed_request_def invalid_shape_request_def)

lemma grammar_printable: "list_all printable invalid_grammar_requests"
  by (simp add: printable_eval invalid_grammar_requests_def)

lemma plans_printable: "(name, p) \<in> set PLANS \<Longrightarrow> printable (plan_request p)"
proof -
  have "list_all (\<lambda>(name, p). printable (plan_request p)) PLANS"
    using grammar_printable
    by (simp add: PLANS_def requests_printable more_requests_printable list_all_iff simple_plan_def)
  then show "(name, p) \<in> set PLANS \<Longrightarrow> printable (plan_request p)" by (auto simp: list_all_iff)
qed

lemma established_data:
  assumes "established S p" "printable (plan_request p)" "10 \<le> scan_depth env"
  shows "\<exists>data. login_data (stage_env S) (plan_request p) True (plan_omit p) (plan_offline p) = Inr data
    \<and> (if plan_omit p then map_of data (U ''claims_json'') = None
       else \<exists>t. map_of data (U ''claims_json'') = Some (Some t) \<and> parse_claims env (Some t) = Inr (plan_request p))"
proof -
  from assms(1) obtain data where d: "login_data (stage_env S) (plan_request p) True (plan_omit p) (plan_offline
      p) = Inr data"
    by (auto simp: established_def authorize_def rbind_eq_Inr)
  then show ?thesis
    using printable_accepted [OF assms(2,3)]
    by (auto simp: login_data_def dumps_default_def Let_def U_def simp del: dump.simps fits.simps split: if_splits)
qed

section \<open>Properties\<close>

text \<open>C33: what a passing suite has established. When \<open>main\<close> returns 0 for some of its cases, then for each of these and
  for every login its scenario makes in a new session (the table \<open>PLANS\<close>): the driver has run that login, with
  exactly the listed screens; the page has the public error where one is expected, and no error
  otherwise; and where the scenario asks for a complete event both tokens list exactly the named executions, at
  the same times. The request it posted is one the client accepts and reads back unchanged, so
  a refusal that a scenario sees, for example of an invalid expression, is the issuer's and not the client's.\<close>

theorem suite_establishes:
  assumes "suite_main S cases st = Inr 0" "set cases \<subseteq> set (CASES others)"
    and "(name, case_of) \<in> set cases" "(name, p) \<in> set PLANS" "10 \<le> scan_depth env"
  shows "established S p
    \<and> (\<exists>data. login_data (stage_env S) (plan_request p) True (plan_omit p) (plan_offline p) = Inr data
        \<and> (if plan_omit p then map_of data (U ''claims_json'') = None
           else \<exists>t. map_of data (U ''claims_json'') = Some (Some t) \<and> parse_claims env (Some t) = Inr (plan_request p)))"
proof -
  from assms(1) obtain st0 where "run_cases S cases st0 = 0" by (auto simp: suite_main_def rbind_eq_Inr)
  from run_cases_passed [OF this assms(3)] obtain st1 st2 where "case_of S st1 = Inr st2" by blast
  moreover have "(name, case_of) \<in> set (CASES others)" using assms(2,3) by blast
  ultimately have "established S p" using case_plans assms(4) by blast
  with established_data [OF this plans_printable [OF assms(4)] assms(5)] show ?thesis by blast
qed

section \<open>A passing suite\<close>

definition lab_stage :: "unit stage" where
  "lab_stage = \<lparr>stage_env = sample_env, stage_unescape = (\<lambda>s. s), stage_network = lab, stage_config = sample_credentials,
     same_float = (\<lambda>_ _. False), url_query = (\<lambda>u. u), url_fragment = (\<lambda>u. u), query_values = (\<lambda>_. [])\<rparr>"

definition lab_client :: "unit runner" where
  "lab_client = \<lparr>net = (), client_url = U ''lab'', issuer_url = U ''op'', last_totp_counter = None\<rparr>"

lemma lab_stage_simps [simp]:
  "stage_env lab_stage = sample_env" "stage_unescape lab_stage = (\<lambda>s. s)" "stage_network lab_stage = lab"
  "stage_config lab_stage = sample_credentials" "same_float lab_stage = (\<lambda>_ _. False)"
  by (simp_all add: lab_stage_def)

lemma lab_login_flow:
  assumes "printable rc"
  shows "succeeded lab_stage (flow lab_stage st rc None True om False False) =
     Inr (st, lab_session (\<not> om), \<lparr>result_text = lab_page (\<not> om), result_forms = [login_form]\<rparr>)"
proof -
  have "json_ok sample_env 10 (JObj rc)" using assms unfolding printable_def by blast
  from json_ok_mono [OF this, of 50] have "json_ok sample_env 50 (JObj rc)" by linarith
  then have "fits 50 (JObj rc)" by (rule json_ok_fits)
  then have "\<exists>data. login_data sample_env rc True om False = Inr data"
    by (simp add: login_data_def dumps_default_def Let_def del: fits.simps dump.simps)
  then obtain data where d: "login_data sample_env rc True om False = Inr data" by blast
  have "authorize sample_env lab sample_credentials st rc None True om False False
      = authorize sample_env lab sample_credentials st rc (Some []) True om False False"
    by (simp only: authorize_def option.case)
  with lab_authorize [OF d, of sample_credentials st "[]"]
  show ?thesis by (simp only: succeeded_Inr lab_stage_simps lab_success if_True simp_thms)
qed

lemma lab_is_up: "wait_for_lab lab_stage lab_client = Inr lab_client"
proof -
  have t: "mail_turns sample_credentials = Suc 90" by (simp add: mail_turns_def sample_credentials_def)
  have s: "send lab n [] (Get (client_url lab_client @ U ''/healthz'') []) = ((), Some ([], json_reply (U
      ''{\"status\":\"ok\"}'')))" for n
    by (simp add: lab_def lab_reply_def lab_client_def U_def)
  have l: "loads sample_env (U ''{\"status\":\"ok\"}'') = Inr (JObj [(U ''status'', lit ''ok'')])"
    by (simp add: json_eval cong: json_eval_cong)
  have w: "wait_timeout sample_credentials = 90" by (simp add: sample_credentials_def)
  have "poll_lab (Suc 90) lab_stage 190 lab_client = Inr lab_client"
    by (subst poll_lab.simps(2))
       (simp add: s l lab_status_def got_def py_get_def lift_py_def json_reply_def del: poll_lab.simps)
  then show ?thesis by (simp only: wait_for_lab_def lab_stage_simps lab_simps t w prod.case unit_runner) simp
qed

lemma lab_event: "\<exists>e. complete_event (pwd_token, pwd_token) [''pwd''] = Inr e"
  by (simp add: complete_event_def lift_checks_def assert_complete_event_def detail_map_def details_of_def
      pwd_token_def check_amr_def
      hashable_def text_member_def detail_time_def check_def)

lemma lab_cases:
  "suite_main lab_stage [(''one_of branch policy'', test_one_of_uses_realm_priority),
      (''ordinary OIDC login without a claims parameter'', test_ordinary_oidc_login_without_claims_parameter)]
     lab_client = Inr 0"
proof -
  have "test_one_of_uses_realm_priority lab_stage lab_client = Inr lab_client"
    using lab_event requests_printable more_requests_printable
    by (auto simp: test_one_of_uses_realm_priority_def success_result_def lab_login_flow tokens_def
        sectioned_def lift_checks_def lab_token_def)
  moreover have "test_ordinary_oidc_login_without_claims_parameter lab_stage lab_client = Inr lab_client"
    using requests_printable
    by (simp add: test_ordinary_oidc_login_without_claims_parameter_def lab_login_flow tokens_def sectioned_def
        lift_checks_def lab_token_def both_absent_def
        has_member_def py_in_def lift_py_def)
  ultimately show ?thesis by (simp add: suite_main_def lab_is_up)
qed

theorem suite_establishes_witness:
  "established lab_stage (simple_plan one_of_request (Some login_screen) (Completed [''pwd'']))
    \<and> (\<exists>t. parse_claims sample_env (Some t) = Inr one_of_request)"
proof -
  let ?p = "simple_plan one_of_request (Some login_screen) (Completed [''pwd''])"
  have "(''one_of branch policy'', ?p) \<in> set PLANS" by (simp add: PLANS_def)
  from suite_establishes [OF lab_cases _ _ this, where others = "\<lambda>_. test_one_of_uses_realm_priority" and env =
      sample_env and case_of = test_one_of_uses_realm_priority]
  show ?thesis by (auto simp: CASES_def)
qed

end
