(* ===== verification/Benchmark_Stats.thy ===== *)
theory Benchmark_Stats
  imports Complex_Main Py_Prelude "HOL-Library.Multiset"
begin

text \<open>
  The statistics of the timing benchmark (evaluation/benchmark/analyze.py): \<open>percentile\<close>,
  \<open>round_means\<close>, \<open>bootstrap_interval\<close>, \<open>half_means\<close> and \<open>summarize_kind\<close>. Floats are rationals, so the
  rounding errors of floating-point arithmetic are not modelled; \<open>round\<close> is. \<open>random.choices\<close> is
  an argument that threads the state of the generator.

  Proved: a percentile lies between the values it is taken of and grows with its fraction; the
  bootstrap interval is an interval within the observed differences; and on runs with complete rounds
  the summary never fails.
\<close>

section \<open>Numbers\<close>

text \<open>\<open>StatisticsError\<close>, \<open>KeyError\<close> and \<open>IndexError\<close>, the exceptions of this script.\<close>

datatype stats_exc = NoData | NoKey | NoIndex

text \<open>\<open>round(x, n)\<close>: half to even.\<close>

definition half_even :: "rat \<Rightarrow> int" where
  "half_even y =
     (let f = \<lfloor>y\<rfloor>; r = y - of_int f in
      if r < 1 / 2 then f else if 1 / 2 < r then f + 1 else if even f then f else f + 1)"

definition py_round :: "rat \<Rightarrow> nat \<Rightarrow> rat" where
  "py_round x n = of_int (half_even (x * 10 ^ n)) / 10 ^ n"

text \<open>\<open>statistics.mean\<close>, \<open>statistics.fmean\<close> and \<open>statistics.median\<close>.\<close>

definition py_mean :: "rat list \<Rightarrow> stats_exc + rat" where
  "py_mean values = (if values = [] then Inl NoData else Inr (sum_list values / of_nat (length values)))"

definition py_median :: "rat list \<Rightarrow> stats_exc + rat" where
  "py_median values =
     (let ordered = sort values; n = length ordered in
      if n = 0 then Inl NoData
      else if odd n then Inr (ordered ! (n div 2))
      else Inr ((ordered ! (n div 2 - 1) + ordered ! (n div 2)) / 2))"

text \<open>\<open>d[k]\<close>\<close>

definition item_of :: "('k, 'v) dict \<Rightarrow> 'k \<Rightarrow> stats_exc + 'v" where
  "item_of d k = (case map_of d k of None \<Rightarrow> Inl NoKey | Some v \<Rightarrow> Inr v)"

text \<open>A list comprehension whose element may raise.\<close>

fun each :: "('a \<Rightarrow> 'e + 'b) \<Rightarrow> 'a list \<Rightarrow> 'e + 'b list" where
  "each f [] = Inr []"
| "each f (x # xs) = rbind (f x) (\<lambda>y. rbind (each f xs) (\<lambda>ys. Inr (y # ys)))"

section \<open>The functions of the script\<close>

text \<open>The fractions are between 0 and 1, so \<open>int\<close> is the floor.\<close>

definition percentile :: "rat list \<Rightarrow> rat \<Rightarrow> stats_exc + rat" where
  "percentile values fraction =
     (let ordered = sort values;
          position = (of_nat (length ordered) - 1) * fraction;
          lower = nat \<lfloor>position\<rfloor>;
          upper = min (lower + 1) (length ordered - 1) in
      if lower < length ordered
      then Inr (ordered ! lower + (ordered ! upper - ordered ! lower) * (position - of_nat lower))
      else Inl NoIndex)"

record sample =
  sample_round :: nat
  sample_position :: nat
  client_ms :: rat
  server_ms :: rat

text \<open>\<open>METRICS\<close>: the member of a sample a summary is about.\<close>

datatype metric = ClientMs | ServerMs

definition METRICS :: "metric list" where
  "METRICS = [ClientMs, ServerMs]"

definition sample_metric :: "metric \<Rightarrow> sample \<Rightarrow> rat" where
  "sample_metric m s = (case m of ClientMs \<Rightarrow> client_ms s | ServerMs \<Rightarrow> server_ms s)"

text \<open>\<open>d.setdefault(k, []).append(v)\<close>\<close>

definition append_to :: "'k \<Rightarrow> 'v \<Rightarrow> ('k, 'v list) dict \<Rightarrow> ('k, 'v list) dict" where
  "append_to k v d = AList.update k ((case map_of d k of None \<Rightarrow> [] | Some vs \<Rightarrow> vs) @ [v]) d"

definition round_means :: "sample list \<Rightarrow> metric \<Rightarrow> stats_exc + (nat, rat) dict" where
  "round_means samples m =
     (let by_round = fold (\<lambda>s. append_to (sample_round s) (sample_metric m s)) samples [] in
      each (\<lambda>(r, values). rbind (py_mean values) (\<lambda>x. Inr (r, x))) by_round)"

text \<open>
  \<open>rng.choices(xs, k=len(xs))\<close>: the generator gives as many positions as there are elements.
\<close>

type_synonym 'r rng = "'r \<Rightarrow> nat \<Rightarrow> 'r \<times> nat list"

definition choices :: "'r rng \<Rightarrow> 'r \<Rightarrow> 'a list \<Rightarrow> 'r \<times> 'a list" where
  "choices rng r xs = (case rng r (length xs) of (r', is) \<Rightarrow> (r', map ((!) xs) is))"

fun resample_runs :: "'r rng \<Rightarrow> 'r \<Rightarrow> 'a list list \<Rightarrow> 'r \<times> 'a list" where
  "resample_runs rng r [] = (r, [])"
| "resample_runs rng r (run # runs) =
     (case choices rng r run of (r1, xs) \<Rightarrow>
        (case resample_runs rng r1 runs of (r2, ys) \<Rightarrow> (r2, xs @ ys)))"

definition BOOTSTRAP :: nat where
  "BOOTSTRAP = 10000"

fun bootstrap_means :: "nat \<Rightarrow> 'r rng \<Rightarrow> 'r \<Rightarrow> rat list list \<Rightarrow> stats_exc + ('r \<times> rat list)" where
  "bootstrap_means 0 rng r differences = Inr (r, [])"
| "bootstrap_means (Suc n) rng r differences =
     (case choices rng r differences of (r1, runs) \<Rightarrow>
        (case resample_runs rng r1 runs of (r2, resampled) \<Rightarrow>
           rbind (py_mean resampled) (\<lambda>m.
           rbind (bootstrap_means n rng r2 differences) (\<lambda>(r3, means). Inr (r3, m # means)))))"

definition bootstrap_interval :: "nat \<Rightarrow> 'r rng \<Rightarrow> 'r \<Rightarrow> rat list list \<Rightarrow> stats_exc + ('r \<times> rat \<times> rat)" where
  "bootstrap_interval n rng r differences =
     rbind (bootstrap_means n rng r differences) (\<lambda>(r', means).
     rbind (percentile means (25 / 1000)) (\<lambda>low.
     rbind (percentile means (975 / 1000)) (\<lambda>high. Inr (r', low, high))))"

definition half_means :: "rat list list \<Rightarrow> stats_exc + rat list" where
  "half_means differences =
     (let first = concat (map (\<lambda>run. take (length run div 2) run) differences);
          second = concat (map (\<lambda>run. drop (length run div 2) run) differences) in
      rbind (py_mean first) (\<lambda>a. rbind (py_mean second) (\<lambda>b. Inr [py_round a 3, py_round b 3])))"

section \<open>The summary of a kind of cycle\<close>

text \<open>The samples of a run, under kind and condition.\<close>

type_synonym run_samples = "(ustr, (ustr, sample list) dict) dict"

definition CHAIN :: "ustr list" where
  "CHAIN = [U ''keycloak_official'', U ''fork_feature_disabled'', U ''fork_realm_disabled'',
     U ''oidc4ac_without_request'', U ''oidc4ac_with_request'', U ''oidc4ac_with_full_request'']"

definition samples_of :: "ustr \<Rightarrow> ustr \<Rightarrow> run_samples \<Rightarrow> stats_exc + sample list" where
  "samples_of kind name run = rbind (item_of run kind) (\<lambda>d. item_of d name)"

record metric_summary =
  median_ms :: rat
  p95_ms :: rat

record condition_summary =
  summary_cycles :: nat
  summary_metrics :: "(metric \<times> metric_summary) list"

definition condition_entry :: "run_samples list \<Rightarrow> ustr \<Rightarrow> ustr \<Rightarrow> stats_exc + condition_summary" where
  "condition_entry runs kind name =
     rbind (each (samples_of kind name) runs) (\<lambda>lists.
     rbind (each (\<lambda>m.
         let values = concat (map (map (sample_metric m)) lists) in
         rbind (py_median values) (\<lambda>a. rbind (percentile values (95 / 100)) (\<lambda>b.
           Inr (m, \<lparr>median_ms = py_round a 3, p95_ms = py_round b 3\<rparr>)))) METRICS) (\<lambda>ms.
       Inr \<lparr>summary_cycles = sum_list (map length lists), summary_metrics = ms\<rparr>))"

text \<open>The paired differences of one run: \<open>[second[index] - first[index] for index in sorted(first)]\<close>.\<close>

definition run_differences :: "ustr \<Rightarrow> ustr \<Rightarrow> ustr \<Rightarrow> metric \<Rightarrow> run_samples \<Rightarrow> stats_exc + rat list" where
  "run_differences kind before_name after_name m run =
     rbind (samples_of kind before_name run) (\<lambda>bs. rbind (round_means bs m) (\<lambda>first.
     rbind (samples_of kind after_name run) (\<lambda>as. rbind (round_means as m) (\<lambda>second.
       each (\<lambda>i. rbind (item_of second i) (\<lambda>b. rbind (item_of first i) (\<lambda>a. Inr (b - a)))) (sort (map fst first))))))"

record step_summary =
  mean_difference :: rat
  ci95 :: "rat \<times> rat"
  per_run :: "rat list"
  halves :: "rat list"

definition step_metric ::
  "'r rng \<Rightarrow> 'r \<Rightarrow> run_samples list \<Rightarrow> ustr \<Rightarrow> ustr \<Rightarrow> ustr \<Rightarrow> metric \<Rightarrow> stats_exc + ('r \<times> step_summary)" where
  "step_metric rng r runs kind before_name after_name m =
     rbind (each (run_differences kind before_name after_name m) runs) (\<lambda>differences.
     rbind (bootstrap_interval BOOTSTRAP rng r differences) (\<lambda>(r', low, high).
     rbind (py_mean (concat differences)) (\<lambda>d.
     rbind (each py_mean differences) (\<lambda>means.
     rbind (half_means differences) (\<lambda>hs.
       Inr (r', \<lparr>mean_difference = py_round d 3, ci95 = (py_round low 3, py_round high 3),
                per_run = map (\<lambda>x. py_round x 3) means, halves = hs\<rparr>))))))"

text \<open>The two metrics of a step and the steps of the chain, in order, with one generator.\<close>

fun step_metrics ::
  "metric list \<Rightarrow> 'r rng \<Rightarrow> 'r \<Rightarrow> run_samples list \<Rightarrow> ustr \<Rightarrow> ustr \<Rightarrow> ustr \<Rightarrow> stats_exc + ('r \<times> (metric \<times> step_summary) list)" where
  "step_metrics [] rng r runs kind b a = Inr (r, [])"
| "step_metrics (m # ms) rng r runs kind b a =
     rbind (step_metric rng r runs kind b a m) (\<lambda>(r1, s).
     rbind (step_metrics ms rng r1 runs kind b a) (\<lambda>(r2, ss). Inr (r2, (m, s) # ss)))"

fun chain_steps ::
  "(ustr \<times> ustr) list \<Rightarrow> 'r rng \<Rightarrow> 'r \<Rightarrow> run_samples list \<Rightarrow> ustr
     \<Rightarrow> stats_exc + ('r \<times> (ustr \<times> ustr \<times> (metric \<times> step_summary) list) list)" where
  "chain_steps [] rng r runs kind = Inr (r, [])"
| "chain_steps ((b, a) # pairs) rng r runs kind =
     rbind (step_metrics METRICS rng r runs kind b a) (\<lambda>(r1, ms).
     rbind (chain_steps pairs rng r1 runs kind) (\<lambda>(r2, ss). Inr (r2, (b, a, ms) # ss)))"

record kind_summary =
  summary_conditions :: "(ustr \<times> condition_summary) list"
  summary_steps :: "(ustr \<times> ustr \<times> (metric \<times> step_summary) list) list"

definition summarize_kind :: "'r rng \<Rightarrow> 'r \<Rightarrow> run_samples list \<Rightarrow> ustr \<Rightarrow> stats_exc + ('r \<times> kind_summary)" where
  "summarize_kind rng r runs kind =
     (case runs of
        [] \<Rightarrow> Inl NoIndex
      | first_run # _ \<Rightarrow>
          rbind (item_of first_run kind) (\<lambda>d.
            let chain = filter (\<lambda>name. map_of d name \<noteq> None) CHAIN in
            rbind (each (\<lambda>name. rbind (condition_entry runs kind name) (\<lambda>e. Inr (name, e))) chain) (\<lambda>conditions.
            rbind (chain_steps (zip chain (tl chain)) rng r runs kind) (\<lambda>(r', steps).
              Inr (r', \<lparr>summary_conditions = conditions, summary_steps = steps\<rparr>)))))"

section \<open>Percentiles and the bootstrap\<close>

lemma sort_eq_Nil [simp]: "sort xs = [] \<longleftrightarrow> xs = []"
  by (metis length_0_conv length_sort)

text \<open>Interpolation between two neighbours.\<close>

lemma between:
  fixes a b t :: rat
  assumes "a \<le> b" "0 \<le> t" "t \<le> 1"
  shows "a \<le> a + (b - a) * t" "a + (b - a) * t \<le> b"
  using assms mult_left_mono [of t 1 "b - a"] by auto

definition rank :: "nat \<Rightarrow> rat \<Rightarrow> nat" where
  "rank n f = nat \<lfloor>(of_nat n - 1) * f\<rfloor>"

lemma rank_bounds:
  assumes "0 < n" "0 \<le> f" "f \<le> 1"
  shows "rank n f \<le> n - 1" "of_nat (rank n f) \<le> (of_nat n - 1) * f" "(of_nat n - 1) * f \<le> of_nat (rank n f) + 1"
proof -
  have n: "0 \<le> (of_nat n :: rat) - 1" using assms(1) by (simp add: Suc_leI)
  then have p: "0 \<le> (of_nat n - 1) * f" "(of_nat n - 1) * f \<le> of_nat n - 1"
    using assms(2,3) mult_left_mono [of f 1 "of_nat n - 1"] by simp_all
  then show "of_nat (rank n f) \<le> (of_nat n - 1) * f" "(of_nat n - 1) * f \<le> of_nat (rank n f) + 1"
    unfolding rank_def by (simp_all, linarith+)
  with p(2) have "(of_nat (rank n f) :: rat) \<le> of_nat n - 1" by linarith
  then have "(of_nat (rank n f) :: rat) \<le> of_nat (n - 1)" using assms(1) by (simp add: of_nat_diff Suc_leI)
  then show "rank n f \<le> n - 1" by (simp only: of_nat_le_iff)
qed

lemma percentile_cases:
  assumes "values \<noteq> []" "0 \<le> f" "f \<le> 1"
  obtains p where "percentile values f = Inr p" "sort values ! rank (length values) f \<le> p"
    "p \<le> sort values ! min (rank (length values) f + 1) (length values - 1)"
    "p = sort values ! rank (length values) f
       + (sort values ! min (rank (length values) f + 1) (length values - 1) - sort values ! rank (length values) f)
         * ((of_nat (length values) - 1) * f - of_nat (rank (length values) f))"
proof -
  let ?o = "sort values" and ?k = "rank (length values) f"
  let ?u = "min (?k + 1) (length values - 1)"
  have n: "0 < length values" using assms(1) by simp
  note b = rank_bounds [OF n assms(2,3)]
  have k: "?k < length values" "?k \<le> ?u" "?u < length values" using b(1) n by linarith+
  have s: "?o ! ?k \<le> ?o ! ?u" using k by (intro sorted_nth_mono) auto
  let ?t = "(of_nat (length values) - 1) * f - of_nat ?k"
  have t: "0 \<le> ?t" "?t \<le> 1" using b(2,3) by simp_all
  have "percentile values f = Inr (?o ! ?k + (?o ! ?u - ?o ! ?k) * ?t)"
    using k(1) by (simp add: percentile_def rank_def Let_def)
  with between [OF s t] show thesis by (intro that [of "?o ! ?k + (?o ! ?u - ?o ! ?k) * ?t"]) auto
qed

lemma percentile_mono:
  assumes "values \<noteq> []" "0 \<le> f" "f \<le> g" "g \<le> 1" "percentile values f = Inr p" "percentile values g = Inr q"
  shows "p \<le> q"
proof -
  let ?n = "length values" and ?o = "sort values"
  have fg: "f \<le> 1" "0 \<le> g" using assms by auto
  have n: "0 < ?n" using assms(1) by simp
  have pos: "(of_nat ?n - 1) * f \<le> (of_nat ?n - 1) * g"
    using assms(1,3) n by (intro mult_left_mono) (simp_all add: Suc_leI)
  then have k: "rank ?n f \<le> rank ?n g" unfolding rank_def by (intro nat_mono floor_mono)
  obtain p' where P: "percentile values f = Inr p'" "?o ! rank ?n f \<le> p'" "p' \<le> ?o ! min (rank ?n f + 1) (?n - 1)"
    "p' = ?o ! rank ?n f + (?o ! min (rank ?n f + 1) (?n - 1) - ?o ! rank ?n f) * ((of_nat ?n - 1) * f - of_nat (rank ?n f))"
    using percentile_cases [OF assms(1,2) fg(1)] by blast
  obtain q' where Q: "percentile values g = Inr q'" "?o ! rank ?n g \<le> q'" "q' \<le> ?o ! min (rank ?n g + 1) (?n - 1)"
    "q' = ?o ! rank ?n g + (?o ! min (rank ?n g + 1) (?n - 1) - ?o ! rank ?n g) * ((of_nat ?n - 1) * g - of_nat (rank ?n g))"
    using percentile_cases [OF assms(1) fg(2) assms(4)] by blast
  have g: "rank ?n g \<le> ?n - 1" by (rule rank_bounds(1) [OF n fg(2) assms(4)])
  have "p' \<le> q'"
  proof (cases "rank ?n f = rank ?n g")
    case True
    have "?o ! rank ?n f \<le> ?o ! min (rank ?n f + 1) (?n - 1)" using P(2,3) by simp
    then show ?thesis using pos unfolding P(4) Q(4) True by (intro add_left_mono mult_left_mono) auto
  next
    case False
    with k have "rank ?n f + 1 \<le> rank ?n g" by simp
    then have "min (rank ?n f + 1) (?n - 1) \<le> rank ?n g" "rank ?n g < length ?o"
      using g n unfolding length_sort by linarith+
    then have "?o ! min (rank ?n f + 1) (?n - 1) \<le> ?o ! rank ?n g" by (rule sorted_nth_mono [OF sorted_sort])
    then show ?thesis using P(3) Q(2) by simp
  qed
  with P(1) Q(1) assms(5,6) show ?thesis by simp
qed

lemma percentile_range:
  assumes "values \<noteq> []" "0 \<le> f" "f \<le> 1"
  shows "\<exists>p. percentile values f = Inr p \<and> Min (set values) \<le> p \<and> p \<le> Max (set values)"
proof -
  let ?n = "length values" and ?o = "sort values"
  obtain p where p: "percentile values f = Inr p" "?o ! rank ?n f \<le> p" "p \<le> ?o ! min (rank ?n f + 1) (?n - 1)"
    using percentile_cases [OF assms] by blast
  have n: "0 < ?n" using assms(1) by simp
  have k: "rank ?n f < ?n" "min (rank ?n f + 1) (?n - 1) < ?n" using rank_bounds(1) [OF n assms(2,3)] n by linarith+
  have "?o ! i \<in> set values" if "i < ?n" for i using that by (metis length_sort nth_mem set_sort)
  from this [OF k(1)] this [OF k(2)]
  have "Min (set values) \<le> ?o ! rank ?n f" "?o ! min (rank ?n f + 1) (?n - 1) \<le> Max (set values)"
    by (auto intro!: Min_le Max_ge)
  with p show ?thesis by (intro exI [of _ p]) auto
qed

lemma percentile_ends:
  assumes "values \<noteq> []"
  shows "percentile values 0 = Inr (Min (set values))" "percentile values 1 = Inr (Max (set values))"
proof -
  let ?o = "sort values" and ?n = "length values"
  have n: "0 < ?n" using assms by simp
  have ends: "?o ! 0 = Min (set values)" "?o ! (?n - 1) = Max (set values)"
  proof -
    have o: "sorted ?o" "set ?o = set values" "length ?o = ?n" by simp_all
    have "?o ! 0 \<le> x" "x \<le> ?o ! (?n - 1)" if x: "x \<in> set values" for x
    proof -
      from x obtain i where i: "i < ?n" "?o ! i = x" by (metis in_set_conv_nth length_sort set_sort)
      then show "?o ! 0 \<le> x" using sorted_nth_mono [OF o(1), of 0 i] by simp
      have "i \<le> ?n - 1" "?n - 1 < length ?o" using i(1) by simp_all
      from sorted_nth_mono [OF o(1) this] i(2) show "x \<le> ?o ! (?n - 1)" by simp
    qed
    moreover have "?o ! 0 \<in> set values" "?o ! (?n - 1) \<in> set values"
      using n o(2,3) nth_mem [of 0 ?o] nth_mem [of "?n - 1" ?o] by auto
    ultimately show "?o ! 0 = Min (set values)" "?o ! (?n - 1) = Max (set values)"
      by (auto intro!: Min_eqI [symmetric] Max_eqI [symmetric])
  qed
  show "percentile values 0 = Inr (Min (set values))" using n ends(1) by (simp add: percentile_def Let_def)
  have "nat \<lfloor>(of_nat ?n :: rat) - 1\<rfloor> = ?n - 1" "of_nat (?n - 1) = (of_nat ?n :: rat) - 1"
    using n by (simp_all add: of_nat_diff Suc_leI)
  then show "percentile values 1 = Inr (Max (set values))" using n ends(2) by (simp add: percentile_def Let_def)
qed

text \<open>\<open>random.choices\<close> gives positions of the population, as many as asked for.\<close>

definition rng_ok :: "'r rng \<Rightarrow> bool" where
  "rng_ok rng \<longleftrightarrow> (\<forall>r n. length (snd (rng r n)) = n \<and> (\<forall>i \<in> set (snd (rng r n)). i < n))"

lemma choices_ok:
  assumes "rng_ok rng" "choices rng r xs = (r', ys)"
  shows "length ys = length xs" "set ys \<subseteq> set xs"
proof -
  obtain js where i: "rng r (length xs) = (r', js)" "ys = map ((!) xs) js"
    using assms(2) by (auto simp: choices_def split: prod.splits)
  then have "length js = length xs" "\<forall>i \<in> set js. i < length xs" using assms(1) unfolding rng_ok_def by (metis snd_conv)+
  with i(2) show "length ys = length xs" "set ys \<subseteq> set xs" by auto
qed

lemma resample_ok:
  "rng_ok rng \<Longrightarrow> resample_runs rng r runs = (r', ys) \<Longrightarrow>
     length ys = length (concat runs) \<and> set ys \<subseteq> set (concat runs)"
proof (induction runs arbitrary: r r' ys)
  case (Cons run runs)
  obtain r1 xs r2 zs where s: "choices rng r run = (r1, xs)" "resample_runs rng r1 runs = (r2, zs)"
    by (metis prod.exhaust)
  with Cons.prems have "ys = xs @ zs" by simp
  with choices_ok [OF Cons.prems(1) s(1)] Cons.IH [OF Cons.prems(1) s(2)] show ?case by auto
qed simp

lemma mean_between:
  assumes "values \<noteq> []" "\<forall>x \<in> set values. lo \<le> x \<and> x \<le> hi"
  shows "\<exists>m. py_mean values = Inr m \<and> lo \<le> m \<and> m \<le> hi"
proof -
  have "of_nat (length values) * lo \<le> sum_list values \<and> sum_list values \<le> of_nat (length values) * hi"
    using assms(2) by (induction "values") (auto simp: algebra_simps intro: add_mono)
  then show ?thesis
    using assms(1) by (simp add: py_mean_def pos_le_divide_eq pos_divide_le_eq mult.commute)
qed

lemma bootstrap_means_ok:
  assumes "rng_ok rng" "differences \<noteq> []" "\<forall>run \<in> set differences. run \<noteq> []"
    and "\<forall>x \<in> set (concat differences). lo \<le> x \<and> x \<le> hi"
  shows "\<exists>r' means. bootstrap_means n rng r differences = Inr (r', means) \<and> length means = n
    \<and> (\<forall>m \<in> set means. lo \<le> m \<and> m \<le> hi)"
proof (induction n arbitrary: r)
  case (Suc n)
  obtain r1 runs r2 ys where s: "choices rng r differences = (r1, runs)" "resample_runs rng r1 runs = (r2, ys)"
    by (metis prod.exhaust)
  note c = choices_ok [OF assms(1) s(1)] resample_ok [OF assms(1) s(2)]
  have "concat runs \<noteq> []" using c(1,2) assms(2,3) by (cases runs) auto
  with c(3) have ne: "ys \<noteq> []" by (cases ys) auto
  have "set (concat runs) \<subseteq> set (concat differences)" using c(2) by auto
  then have "set ys \<subseteq> set (concat differences)" using c(3) by blast
  then have "\<forall>x \<in> set ys. lo \<le> x \<and> x \<le> hi" using assms(4) by blast
  from mean_between [OF ne this] obtain m where m: "py_mean ys = Inr m" "lo \<le> m" "m \<le> hi" by blast
  from Suc [of r2] obtain r' means where "bootstrap_means n rng r2 differences = Inr (r', means)" "length means = n"
    "\<forall>m \<in> set means. lo \<le> m \<and> m \<le> hi" by blast
  with s m show ?case by simp
qed simp

lemma bootstrap_interval_ok:
  assumes "rng_ok rng" "differences \<noteq> []" "\<forall>run \<in> set differences. run \<noteq> []" "0 < n"
  shows "\<exists>r' low high. bootstrap_interval n rng r differences = Inr (r', low, high)
    \<and> Min (set (concat differences)) \<le> low \<and> low \<le> high \<and> high \<le> Max (set (concat differences))"
proof -
  let ?lo = "Min (set (concat differences))" and ?hi = "Max (set (concat differences))"
  have b: "\<forall>x \<in> set (concat differences). ?lo \<le> x \<and> x \<le> ?hi" by (auto intro!: Min_le Max_ge)
  from bootstrap_means_ok [OF assms(1-3) b, of n r] obtain r' means where m:
    "bootstrap_means n rng r differences = Inr (r', means)" "length means = n" "\<forall>m \<in> set means. ?lo \<le> m \<and> m \<le> ?hi" by blast
  then have ne: "means \<noteq> []" using assms(4) by auto
  from percentile_range [OF ne, of "25 / 1000"] obtain low where l: "percentile means (25 / 1000) = Inr low"
    "Min (set means) \<le> low" by auto
  from percentile_range [OF ne, of "975 / 1000"] obtain high where h: "percentile means (975 / 1000) = Inr high"
    "high \<le> Max (set means)" by auto
  have "low \<le> high" by (rule percentile_mono [OF ne _ _ _ l(1) h(1)]) simp_all
  moreover have "?lo \<le> Min (set means)" "Max (set means) \<le> ?hi" using m(3) ne by auto
  ultimately show ?thesis using m(1) l h by (simp add: bootstrap_interval_def)
qed

section \<open>Complete runs\<close>

lemma each_total: "\<forall>x \<in> set xs. \<exists>y. f x = Inr y \<Longrightarrow> \<exists>ys. each f xs = Inr ys"
  by (induction xs) auto

lemma each_Inr: "each f xs = Inr ys \<longleftrightarrow> list_all2 (\<lambda>x y. f x = Inr y) xs ys"
  by (induction xs arbitrary: ys) (auto simp: rbind_eq_Inr list_all2_Cons1)

lemma each_length: "each f xs = Inr ys \<Longrightarrow> length ys = length xs"
  by (simp add: each_Inr list_all2_lengthD)

lemma each_in: "each f xs = Inr ys \<Longrightarrow> y \<in> set ys \<Longrightarrow> \<exists>x \<in> set xs. f x = Inr y"
  by (fastforce simp: each_Inr list_all2_conv_all_nth in_set_conv_nth)

text \<open>The samples of a run cover \<open>n\<close> rounds in each of the named conditions.\<close>

definition covers :: "nat \<Rightarrow> sample list \<Rightarrow> bool" where
  "covers n ss \<longleftrightarrow> sample_round ` set ss = {0..<n}"

definition complete_run :: "nat \<Rightarrow> ustr \<Rightarrow> ustr list \<Rightarrow> run_samples \<Rightarrow> bool" where
  "complete_run n kind names run \<longleftrightarrow>
     (\<exists>d. map_of run kind = Some d \<and> (\<forall>name. map_of d name \<noteq> None \<longleftrightarrow> name \<in> set names)
        \<and> (\<forall>name ss. map_of d name = Some ss \<longrightarrow> covers n ss))"

lemma complete_samples:
  "complete_run n kind names run \<Longrightarrow> name \<in> set names \<Longrightarrow> \<exists>ss. samples_of kind name run = Inr ss \<and> covers n ss"
proof -
  assume "complete_run n kind names run" "name \<in> set names"
  then obtain d ss where "map_of run kind = Some d" "map_of d name = Some ss" "covers n ss"
    unfolding complete_run_def by blast
  then show ?thesis by (simp add: samples_of_def item_of_def)
qed

lemma fold_append_to:
  assumes "\<forall>kv \<in> set d. snd kv \<noteq> []" "dict_ok d"
  shows "set (map fst (fold (\<lambda>s. append_to (sample_round s) (f s)) ss d)) = fst ` set d \<union> sample_round ` set ss
    \<and> (\<forall>kv \<in> set (fold (\<lambda>s. append_to (sample_round s) (f s)) ss d). snd kv \<noteq> [])
    \<and> dict_ok (fold (\<lambda>s. append_to (sample_round s) (f s)) ss d)"
  using assms
proof (induction ss arbitrary: d)
  case (Cons s ss)
  let ?d = "append_to (sample_round s) (f s) d"
  have "\<forall>kv \<in> set ?d. snd kv \<noteq> []"
  proof -
    have "kv \<in> set (AList.update k v d) \<Longrightarrow> kv = (k, v) \<or> kv \<in> set d" for kv k v d
      by (induction d) (auto split: if_splits)
    then show ?thesis using Cons.prems(1) by (fastforce simp: append_to_def)
  qed
  moreover have "dict_ok ?d" using Cons.prems(2) by (simp add: append_to_def dict_ok_update)
  moreover have "fst ` set ?d = insert (sample_round s) (fst ` set d)" by (simp add: append_to_def dom_update [unfolded dom_def] image_image)
  ultimately show ?case using Cons.IH [of ?d] by auto
qed auto

lemma round_means_ok:
  "\<exists>d. round_means ss m = Inr d \<and> set (map fst d) = sample_round ` set ss \<and> distinct (map fst d)"
proof -
  let ?b = "fold (\<lambda>s. append_to (sample_round s) (sample_metric m s)) ss []"
  from fold_append_to [of "[]" "sample_metric m" ss]
  have b: "set (map fst ?b) = sample_round ` set ss" "\<forall>kv \<in> set ?b. snd kv \<noteq> []" "distinct (map fst ?b)"
    by (simp_all add: dict_ok_def)
  have "\<forall>kv \<in> set ?b. \<exists>y. (case kv of (r, values) \<Rightarrow> rbind (py_mean values) (\<lambda>x. Inr (r, x))) = Inr y"
    using b(2) by (auto simp: py_mean_def)
  from each_total [OF this] obtain d where d: "round_means ss m = Inr d" by (auto simp: round_means_def Let_def)
  then have "list_all2 (\<lambda>kv y. (case kv of (r, values) \<Rightarrow> rbind (py_mean values) (\<lambda>x. Inr (r, x))) = Inr y) ?b d"
    by (simp add: round_means_def Let_def each_Inr)
  then have "map fst ?b = map fst d"
    by (induction rule: list_all2_induct) (auto simp: rbind_eq_Inr split: prod.splits)
  with b d show ?thesis by metis
qed

lemma run_differences_ok:
  assumes "complete_run n kind names run" "before_name \<in> set names" "after_name \<in> set names"
  shows "\<exists>ds. run_differences kind before_name after_name m run = Inr ds \<and> length ds = n"
proof -
  obtain bs where b: "samples_of kind before_name run = Inr bs" "covers n bs"
    using complete_samples [OF assms(1,2)] by blast
  obtain cs where c: "samples_of kind after_name run = Inr cs" "covers n cs"
    using complete_samples [OF assms(1,3)] by blast
  obtain f where f: "round_means bs m = Inr f" "set (map fst f) = {0..<n}" "distinct (map fst f)"
    using round_means_ok [of bs m] b(2) by (auto simp: covers_def)
  obtain g where g: "round_means cs m = Inr g" "set (map fst g) = {0..<n}"
    using round_means_ok [of cs m] c(2) by (auto simp: covers_def)
  have "\<forall>i \<in> set (sort (map fst f)). \<exists>y. rbind (item_of g i) (\<lambda>b. rbind (item_of f i) (\<lambda>a. Inr (b - a))) = Inr y"
  proof
    fix i assume "i \<in> set (sort (map fst f))"
    then have "i \<in> set (map fst f)" "i \<in> set (map fst g)" using f(2) g(2) by simp_all
    then obtain a b where "map_of f i = Some a" "map_of g i = Some b"
      by (metis map_of_eq_None_iff not_None_eq list.set_map)
    then show "\<exists>y. rbind (item_of g i) (\<lambda>b. rbind (item_of f i) (\<lambda>a. Inr (b - a))) = Inr y" by (simp add: item_of_def)
  qed
  from each_total [OF this] obtain ds where
    ds: "each (\<lambda>i. rbind (item_of g i) (\<lambda>b. rbind (item_of f i) (\<lambda>a. Inr (b - a)))) (sort (map fst f)) = Inr ds" by blast
  have "length (map fst f) = n" using f(2,3) by (metis card_atLeastLessThan diff_zero distinct_card)
  with each_length [OF ds] have "length ds = n" by simp
  with b(1) c(1) f(1) g(1) ds show ?thesis by (simp add: run_differences_def)
qed

lemma condition_entry_ok:
  assumes "runs \<noteq> []" "\<forall>run \<in> set runs. complete_run n kind names run" "name \<in> set names" "0 < n"
  shows "\<exists>e. condition_entry runs kind name = Inr e"
proof -
  have "\<forall>run \<in> set runs. \<exists>ss. samples_of kind name run = Inr ss" using complete_samples assms(2,3) by blast
  from each_total [OF this] obtain lists where l: "each (samples_of kind name) runs = Inr lists" by blast
  have ne: "lists \<noteq> []" using each_length [OF l] assms(1) by auto
  have "\<forall>ss \<in> set lists. ss \<noteq> []"
  proof
    fix ss assume "ss \<in> set lists"
    with each_in [OF l] obtain run where "run \<in> set runs" "samples_of kind name run = Inr ss" by blast
    then have "covers n ss" using complete_samples [of n kind names run name] assms(2,3) by auto
    with assms(4) show "ss \<noteq> []" by (auto simp: covers_def)
  qed
  then have v: "concat (map (map (sample_metric m)) lists) \<noteq> []" for m using ne by (cases lists) auto
  have stats: "\<exists>a. py_median vs = Inr a" "\<exists>p. percentile vs (95 / 100) = Inr p" if "vs \<noteq> []" for vs
  proof -
    have "py_median vs = Inr (if odd (length vs) then sort vs ! (length vs div 2)
        else (sort vs ! (length vs div 2 - 1) + sort vs ! (length vs div 2)) / 2)"
      using that by (simp add: py_median_def Let_def)
    then show "\<exists>a. py_median vs = Inr a" by blast
    show "\<exists>p. percentile vs (95 / 100) = Inr p" using percentile_range [OF that, of "95 / 100"] by auto
  qed
  have "\<forall>m \<in> set METRICS. \<exists>y. (let values = concat (map (map (sample_metric m)) lists) in
         rbind (py_median values) (\<lambda>a. rbind (percentile values (95 / 100)) (\<lambda>b.
           Inr (m, \<lparr>median_ms = py_round a 3, p95_ms = py_round b 3\<rparr>)))) = Inr y"
  proof
    fix m assume "m \<in> set METRICS"
    obtain a b where "py_median (concat (map (map (sample_metric m)) lists)) = Inr a"
      "percentile (concat (map (map (sample_metric m)) lists)) (95 / 100) = Inr b" using stats [OF v] by blast
    then show "\<exists>y. (let values = concat (map (map (sample_metric m)) lists) in
         rbind (py_median values) (\<lambda>a. rbind (percentile values (95 / 100)) (\<lambda>b.
           Inr (m, \<lparr>median_ms = py_round a 3, p95_ms = py_round b 3\<rparr>)))) = Inr y" by (simp add: Let_def)
  qed
  from each_total [OF this] l show ?thesis by (auto simp: condition_entry_def)
qed

lemma step_metric_ok:
  assumes "rng_ok rng" "runs \<noteq> []" "\<forall>run \<in> set runs. complete_run n kind names run" "2 \<le> n"
    and "b \<in> set names" "a \<in> set names"
  shows "\<exists>r' s. step_metric rng r runs kind b a m = Inr (r', s)"
proof -
  have "\<forall>run \<in> set runs. \<exists>ds. run_differences kind b a m run = Inr ds"
    using run_differences_ok assms(3,5,6) by blast
  from each_total [OF this] obtain ds where d: "each (run_differences kind b a m) runs = Inr ds" by blast
  have len: "\<forall>x \<in> set ds. length x = n"
  proof
    fix x assume "x \<in> set ds"
    with each_in [OF d] obtain run where "run \<in> set runs" "run_differences kind b a m run = Inr x" by blast
    then show "length x = n" using run_differences_ok [of n kind names run b a m] assms(3,5,6) by auto
  qed
  have ne: "ds \<noteq> []" using each_length [OF d] assms(2) by auto
  have full: "\<forall>x \<in> set ds. x \<noteq> []" using len assms(4) by auto
  have boot: "0 < BOOTSTRAP" by (simp add: BOOTSTRAP_def)
  from bootstrap_interval_ok [OF assms(1) ne full boot, of r] obtain r' low high where
    i: "bootstrap_interval BOOTSTRAP rng r ds = Inr (r', low, high)" by blast
  have c: "concat ds \<noteq> []" using ne full by (cases ds) auto
  have "\<forall>x \<in> set ds. \<exists>y. py_mean x = Inr y" using full by (simp add: py_mean_def)
  from each_total [OF this] obtain means where p: "each py_mean ds = Inr means" by blast
  obtain x xs where x: "ds = x # xs" "2 \<le> length x" using ne len assms(4) by (cases ds) auto
  then have "take (length x div 2) x \<noteq> []" "drop (length x div 2) x \<noteq> []" by auto
  then have "concat (map (\<lambda>run. take (length run div 2) run) ds) \<noteq> []"
    "concat (map (\<lambda>run. drop (length run div 2) run) ds) \<noteq> []" using x(1) by (simp_all del: take_eq_Nil drop_eq_Nil)
  then obtain h where "half_means ds = Inr h" by (auto simp: half_means_def py_mean_def Let_def)
  with d i c p show ?thesis by (simp add: step_metric_def py_mean_def)
qed

lemma chain_steps_ok:
  assumes "\<And>b a m r. (b, a) \<in> set pairs \<Longrightarrow> \<exists>r' s. step_metric rng r runs kind b a m = Inr (r', s)"
  shows "\<exists>r' ss. chain_steps pairs rng r runs kind = Inr (r', ss)"
  using assms
proof (induction pairs arbitrary: r)
  case (Cons p pairs)
  note total = Cons.prems
  obtain b a where p: "p = (b, a)" by (cases p)
  have "\<exists>r' ss. step_metrics ms rng r runs kind b a = Inr (r', ss)" for ms r
  proof (induction ms arbitrary: r)
    case (Cons m ms)
    obtain r1 s where "step_metric rng r runs kind b a m = Inr (r1, s)" using total p by fastforce
    moreover obtain r2 ss where "step_metrics ms rng r1 runs kind b a = Inr (r2, ss)" using Cons by blast
    ultimately show ?case by simp
  qed simp
  then obtain r1 ms where "step_metrics METRICS rng r runs kind b a = Inr (r1, ms)" by blast
  moreover obtain r2 ss where "chain_steps pairs rng r1 runs kind = Inr (r2, ss)" using Cons by fastforce
  ultimately show ?case using p by simp
qed simp

lemma summarize_kind_ok:
  assumes "rng_ok rng" "runs \<noteq> []" "\<forall>run \<in> set runs. complete_run n kind names run" "2 \<le> n"
  shows "\<exists>r' s. summarize_kind rng r runs kind = Inr (r', s)
    \<and> map fst (summary_conditions s) = filter (\<lambda>name. name \<in> set names) CHAIN"
proof -
  obtain r0 rest where r0: "runs = r0 # rest" using assms(2) by (cases runs) auto
  with assms(3) obtain d where d: "map_of r0 kind = Some d" "\<forall>name. map_of d name \<noteq> None \<longleftrightarrow> name \<in> set names"
    unfolding complete_run_def by auto
  let ?chain = "filter (\<lambda>name. map_of d name \<noteq> None) CHAIN"
  have chain: "?chain = filter (\<lambda>name. name \<in> set names) CHAIN" using d(2) by (simp del: not_None_eq)
  have names: "set ?chain \<subseteq> set names" using chain by auto
  have "\<forall>name \<in> set ?chain. \<exists>e. rbind (condition_entry runs kind name) (\<lambda>e. Inr (name, e)) = Inr e"
    using condition_entry_ok [OF assms(2,3)] names assms(4) by fastforce
  from each_total [OF this] obtain cs where
    c: "each (\<lambda>name. rbind (condition_entry runs kind name) (\<lambda>e. Inr (name, e))) ?chain = Inr cs" by blast
  have "map fst cs = ?chain"
    using c unfolding each_Inr by (induction rule: list_all2_induct) (auto simp: rbind_eq_Inr)
  moreover have pairs: "b \<in> set names \<and> a \<in> set names" if "(b, a) \<in> set (zip ?chain (tl ?chain))" for b a
  proof -
    have "b \<in> set ?chain" "a \<in> set ?chain"
      using set_zip_leftD [OF that] set_zip_rightD [OF that] by (blast, metis list.set_sel(2) tl_Nil)
    then show ?thesis using names by blast
  qed
  have "\<exists>r' s. step_metric rng r runs kind b a m = Inr (r', s)" if "(b, a) \<in> set (zip ?chain (tl ?chain))" for b a m r
    using step_metric_ok [OF assms] pairs [OF that] by blast
  from chain_steps_ok [OF this] obtain r' ss where "chain_steps (zip ?chain (tl ?chain)) rng r runs kind = Inr (r', ss)" by blast
  ultimately show ?thesis
    using c d(1) chain by (simp add: summarize_kind_def r0 item_of_def Let_def)
qed

section \<open>Properties\<close>

text \<open>C40: \<open>percentile\<close> is a percentile. Of any non-empty list and for fractions between 0 and 1 it
  returns a value between the least and the greatest element, larger for a larger fraction, and the
  least and the greatest themselves for 0 and 1; the order of the list does not matter; only an empty list is
  an \<open>IndexError\<close>.\<close>

theorem percentile_bounds:
  assumes "0 \<le> f" "f \<le> g" "g \<le> 1"
  shows "percentile [] f = Inl NoIndex \<and> (values \<noteq> [] \<longrightarrow>
    (\<exists>p q. percentile values f = Inr p \<and> percentile values g = Inr q
       \<and> Min (set values) \<le> p \<and> p \<le> q \<and> q \<le> Max (set values)
       \<and> percentile values 0 = Inr (Min (set values)) \<and> percentile values 1 = Inr (Max (set values))
       \<and> (\<forall>vs. mset vs = mset values \<longrightarrow> percentile vs f = Inr p)))"
proof (intro conjI impI)
  show "percentile [] f = Inl NoIndex" by (simp add: percentile_def)
  assume ne: "values \<noteq> []"
  obtain p where p: "percentile values f = Inr p" "Min (set values) \<le> p" using percentile_range [OF ne assms(1)] assms by auto
  obtain q where q: "percentile values g = Inr q" "q \<le> Max (set values)" using percentile_range [OF ne _ assms(3)] assms by auto
  have pq: "p \<le> q" by (rule percentile_mono [OF ne assms p(1) q(1)])
  have ends: "percentile values 0 = Inr (Min (set values))" "percentile values 1 = Inr (Max (set values))"
    by (rule percentile_ends [OF ne])+
  have "percentile vs f = Inr p" if "mset vs = mset values" for vs
  proof -
    have "sort vs = sort values" using that by (metis mset_sort sorted_sort properties_for_sort)
    then show ?thesis using p(1) by (simp add: percentile_def)
  qed
  with p q pq ends show "\<exists>p q. percentile values f = Inr p \<and> percentile values g = Inr q
       \<and> Min (set values) \<le> p \<and> p \<le> q \<and> q \<le> Max (set values)
       \<and> percentile values 0 = Inr (Min (set values)) \<and> percentile values 1 = Inr (Max (set values))
       \<and> (\<forall>vs. mset vs = mset values \<longrightarrow> percentile vs f = Inr p)" by blast
qed

theorem percentile_bounds_witness:
  "\<exists>p q. percentile [3, 1, 2] (1 / 4) = Inr p \<and> percentile [3, 1, 2] (3 / 4) = Inr q \<and> p \<le> q
     \<and> percentile [3, 1, 2] 0 = Inr (Min (set [3, 1, 2]))"
  using percentile_bounds [of "1 / 4" "3 / 4" "[3, 1, 2]"] by (simp del: set_simps) blast

end
