(* ===== verification/Benchmark_Schedule.thy ===== *)
theory Benchmark_Schedule
  imports Benchmark_Stats E2E_Network
begin

text \<open>
  The schedule of the timing benchmark (evaluation/benchmark/timing-benchmark.py): the conditions,
  \<open>balanced_slots\<close> and the rounds of \<open>main\<close> that collect the samples. What a cycle measures and
  the order \<open>random.sample\<close> puts the slots in are arguments; the cycles are those of Benchmark_Cycles.

  Proved: the schedule is balanced between the instances and serves every condition; and the samples
  of a finished benchmark can always be summarized by analyze.py.
\<close>

section \<open>Conditions\<close>

record condition =
  cond_name :: ustr
  cond_client :: ustr
  cond_issuer :: ustr
  cond_metrics :: ustr
  cond_request :: "(ustr, json) dict"
  cond_omit_claims :: bool
  cond_details :: bool
  cond_login :: bool

definition KINDS :: "ustr list" where
  "KINDS = [U ''sso'', U ''refresh'', U ''login'']"

definition CONDITIONS :: "condition list" where
  "CONDITIONS =
    [\<lparr>cond_name = U ''keycloak_official'', cond_client = U ''http://localhost:5007'',
      cond_issuer = U ''http://localhost:8188/realms/oidc4ac'', cond_metrics = U ''http://localhost:9188/metrics'',
      cond_request = [], cond_omit_claims = True, cond_details = False, cond_login = True\<rparr>,
     \<lparr>cond_name = U ''fork_feature_disabled'', cond_client = U ''http://localhost:5006'',
      cond_issuer = U ''http://localhost:8187/realms/oidc4ac'', cond_metrics = U ''http://localhost:9187/metrics'',
      cond_request = [], cond_omit_claims = True, cond_details = False, cond_login = True\<rparr>,
     \<lparr>cond_name = U ''fork_realm_disabled'', cond_client = U ''http://localhost:5005'',
      cond_issuer = U ''http://localhost:8186/realms/oidc4ac-off'', cond_metrics = U ''http://localhost:9186/metrics'',
      cond_request = [], cond_omit_claims = True, cond_details = False, cond_login = True\<rparr>,
     \<lparr>cond_name = U ''oidc4ac_without_request'', cond_client = U ''http://localhost:5003'',
      cond_issuer = U ''http://localhost:8186/realms/oidc4ac'', cond_metrics = U ''http://localhost:9186/metrics'',
      cond_request = [], cond_omit_claims = True, cond_details = False, cond_login = True\<rparr>,
     \<lparr>cond_name = U ''oidc4ac_with_request'', cond_client = U ''http://localhost:5003'',
      cond_issuer = U ''http://localhost:8186/realms/oidc4ac'', cond_metrics = U ''http://localhost:9186/metrics'',
      cond_request = claims (amr_method (U ''pwd'') None None) True True True,
      cond_omit_claims = False, cond_details = True, cond_login = True\<rparr>,
     \<lparr>cond_name = U ''oidc4ac_with_full_request'', cond_client = U ''http://localhost:5003'',
      cond_issuer = U ''http://localhost:8186/realms/oidc4ac'', cond_metrics = U ''http://localhost:9186/metrics'',
      cond_request = [], cond_omit_claims = False, cond_details = True, cond_login = False\<rparr>]"

text \<open>The conditions of a run: the request of the last one comes from the seed session.\<close>

definition seeded :: "(ustr, json) dict \<Rightarrow> condition list" where
  "seeded request_claims = butlast CONDITIONS @ [(last CONDITIONS)\<lparr>cond_request := request_claims\<rparr>]"

section \<open>Slots\<close>

definition included :: "ustr \<Rightarrow> condition list \<Rightarrow> condition list" where
  "included kind conditions = filter (\<lambda>c. kind \<noteq> U ''login'' \<or> cond_login c) conditions"

definition by_instance :: "condition list \<Rightarrow> (ustr, condition list) dict" where
  "by_instance cs = fold (\<lambda>c. append_to (cond_metrics c) c) cs []"

text \<open>\<open>max\<close> of no groups is a \<open>ValueError\<close>; \<open>next\<close> of a \<open>cycle\<close> repeats the group.\<close>

datatype bench_exc = ValueError | BenchKey

definition kind_slots :: "ustr \<Rightarrow> condition list \<Rightarrow> bench_exc + (ustr \<times> condition) list" where
  "kind_slots kind conditions =
     (let groups = map snd (by_instance (included kind conditions)) in
      if groups = [] then Inl ValueError
      else
        (let target = Max (set (map length groups)) in
         Inr (concat (map (\<lambda>grp. map (\<lambda>i. (kind, grp ! (i mod length grp))) [0..<target]) groups))))"

definition balanced_slots :: "condition list \<Rightarrow> bench_exc + (ustr \<times> condition) list" where
  "balanced_slots conditions = rbind (each (\<lambda>kind. kind_slots kind conditions) KINDS) (\<lambda>slots. Inr (concat slots))"

section \<open>Rounds\<close>

definition empty_samples :: "condition list \<Rightarrow> run_samples" where
  "empty_samples conditions =
     map (\<lambda>kind. (kind, dict_of (map (\<lambda>c. (cond_name c, [])) (included kind conditions)))) KINDS"

definition add_sample :: "ustr \<Rightarrow> ustr \<Rightarrow> sample \<Rightarrow> run_samples \<Rightarrow> bench_exc + run_samples" where
  "add_sample kind name s run =
     (case map_of run kind of
        None \<Rightarrow> Inl BenchKey
      | Some d \<Rightarrow> (case map_of d name of
            None \<Rightarrow> Inl BenchKey
          | Some ss \<Rightarrow> Inr (AList.update kind (AList.update name (ss @ [s]) d) run)))"

text \<open>One round, from a position on; \<open>timing\<close> gives the milliseconds of the client and the server.\<close>

fun run_round ::
  "nat \<Rightarrow> nat \<Rightarrow> (nat \<Rightarrow> nat \<Rightarrow> rat \<times> rat) \<Rightarrow> (ustr \<times> condition) list \<Rightarrow> run_samples \<Rightarrow> bench_exc + run_samples" where
  "run_round r pos timing [] run = Inr run"
| "run_round r pos timing ((kind, c) # slots) run =
     rbind (add_sample kind (cond_name c)
         \<lparr>sample_round = r, sample_position = pos, client_ms = py_round (fst (timing r pos)) 4,
          server_ms = py_round (snd (timing r pos)) 4\<rparr> run) (\<lambda>run'.
       run_round r (Suc pos) timing slots run')"

fun run_rounds ::
  "nat \<Rightarrow> (nat \<Rightarrow> (ustr \<times> condition) list \<Rightarrow> (ustr \<times> condition) list) \<Rightarrow> (nat \<Rightarrow> nat \<Rightarrow> rat \<times> rat)
     \<Rightarrow> (ustr \<times> condition) list \<Rightarrow> run_samples \<Rightarrow> bench_exc + run_samples" where
  "run_rounds 0 order timing slots run = Inr run"
| "run_rounds (Suc n) order timing slots run =
     rbind (run_rounds n order timing slots run) (\<lambda>run'. run_round n 0 timing (order n slots) run')"

definition benchmark_samples ::
  "int \<Rightarrow> int \<Rightarrow> (ustr, json) dict \<Rightarrow> (nat \<Rightarrow> (ustr \<times> condition) list \<Rightarrow> (ustr \<times> condition) list)
     \<Rightarrow> (nat \<Rightarrow> nat \<Rightarrow> rat \<times> rat) \<Rightarrow> bench_exc + run_samples" where
  "benchmark_samples warmups samples request_claims order timing =
     (if warmups < 1 \<or> samples < 2 then Inl ValueError
      else rbind (balanced_slots (seeded request_claims)) (\<lambda>slots.
             run_rounds (nat samples) order timing slots (empty_samples (seeded request_claims))))"

section \<open>The groups of a kind\<close>

lemma fold_groups:
  assumes "dict_ok d" "\<forall>(k, g) \<in> set d. g \<noteq> [] \<and> (\<forall>c \<in> set g. f c = k)"
  shows "dict_ok (fold (\<lambda>c. append_to (f c) c) cs d)
    \<and> (\<forall>(k, g) \<in> set (fold (\<lambda>c. append_to (f c) c) cs d). g \<noteq> [] \<and> (\<forall>c \<in> set g. f c = k))
    \<and> (\<forall>x. (\<exists>k g. (k, g) \<in> set (fold (\<lambda>c. append_to (f c) c) cs d) \<and> x \<in> set g)
          \<longleftrightarrow> (\<exists>k g. (k, g) \<in> set d \<and> x \<in> set g) \<or> x \<in> set cs)"
  using assms
proof (induction cs arbitrary: d)
  case (Cons c cs)
  let ?d = "append_to (f c) c d"
  define old where "old = (case map_of d (f c) of None \<Rightarrow> [] | Some vs \<Rightarrow> vs)"
  have ok: "dict_ok ?d" using Cons.prems(1) by (simp add: append_to_def dict_ok_update)
  have set_d: "set ?d = insert (f c, old @ [c]) {kv \<in> set d. fst kv \<noteq> f c}"
  proof -
    have "dict_ok d \<Longrightarrow> set (AList.update k v d) = insert (k, v) {kv \<in> set d. fst kv \<noteq> k}" for k v and d :: "('a \<times> 'b list) list"
    proof (induction d)
      case (Cons x d)
      then show ?case by (cases x) (auto simp: dict_ok_def image_iff)
    qed simp
    then show ?thesis using Cons.prems(1) unfolding append_to_def old_def [symmetric] by blast
  qed
  have old: "\<forall>x \<in> set old. f x = f c"
  proof (cases "map_of d (f c)")
    case (Some g)
    then have "(f c, g) \<in> set d" by (rule map_of_SomeD)
    then show ?thesis using Cons.prems(2) Some by (auto simp: old_def)
  qed (simp add: old_def)
  have inv: "\<forall>(k, g) \<in> set ?d. g \<noteq> [] \<and> (\<forall>c \<in> set g. f c = k)" using Cons.prems(2) old by (auto simp: set_d)
  have mem: "x \<in> set old \<longleftrightarrow> (\<exists>g. (f c, g) \<in> set d \<and> x \<in> set g)" for x
  proof (cases "map_of d (f c)")
    case None
    then have "(f c, g) \<notin> set d" for g by (auto simp: map_of_eq_None_iff image_iff)
    with None show ?thesis by (simp add: old_def)
  next
    case (Some g)
    then have "(f c, g') \<in> set d \<longleftrightarrow> g' = g" for g'
      using Cons.prems(1) unfolding dict_ok_def by (metis map_of_SomeD map_of_is_SomeI option.inject)
    with Some show ?thesis by (simp add: old_def)
  qed
  have "(\<exists>k g. (k, g) \<in> set ?d \<and> x \<in> set g) \<longleftrightarrow> (\<exists>k g. (k, g) \<in> set d \<and> x \<in> set g) \<or> x = c" for x
  proof -
    have "(\<exists>k g. (k, g) \<in> set ?d \<and> x \<in> set g)
        \<longleftrightarrow> x \<in> set (old @ [c]) \<or> (\<exists>k g. (k, g) \<in> set d \<and> k \<noteq> f c \<and> x \<in> set g)"
      unfolding set_d by (simp add: conj_disj_distribR ex_disj_distrib conj_assoc)
    moreover have "(\<exists>k g. (k, g) \<in> set d \<and> x \<in> set g)
        \<longleftrightarrow> (\<exists>g. (f c, g) \<in> set d \<and> x \<in> set g) \<or> (\<exists>k g. (k, g) \<in> set d \<and> k \<noteq> f c \<and> x \<in> set g)" by blast
    ultimately show ?thesis using mem [of x] by simp blast
  qed
  with Cons.IH [OF ok inv] show ?case by auto
qed auto

lemma by_instance_ok:
  "dict_ok (by_instance cs)" "\<forall>(k, g) \<in> set (by_instance cs). g \<noteq> [] \<and> (\<forall>c \<in> set g. cond_metrics c = k)"
  "(\<exists>k g. (k, g) \<in> set (by_instance cs) \<and> c \<in> set g) \<longleftrightarrow> c \<in> set cs"
  using fold_groups [of "[]" cond_metrics cs] by (simp_all add: by_instance_def)

definition group_slots :: "ustr \<Rightarrow> nat \<Rightarrow> condition list \<Rightarrow> (ustr \<times> condition) list" where
  "group_slots kind target grp = map (\<lambda>i. (kind, grp ! (i mod length grp))) [0..<target]"

lemma group_slots_ok:
  assumes "grp \<noteq> []" "length grp \<le> target"
  shows "set (group_slots kind target grp) = Pair kind ` set grp" "length (group_slots kind target grp) = target"
proof -
  have "(kind, c) \<in> set (group_slots kind target grp)" if "c \<in> set grp" for c
  proof -
    from that obtain i where "i < length grp" "grp ! i = c" by (auto simp: in_set_conv_nth)
    then show ?thesis using assms(2) by (auto simp: group_slots_def image_iff intro!: bexI [of _ i])
  qed
  moreover have "grp ! (i mod length grp) \<in> set grp" for i using assms(1) by simp
  ultimately show "set (group_slots kind target grp) = Pair kind ` set grp"
    by (fastforce simp: group_slots_def)
qed (simp add: group_slots_def)

text \<open>The slots of one instance among those of all groups.\<close>

lemma instance_count:
  assumes "distinct (map fst d)" "\<forall>(k, g) \<in> set d. g \<noteq> [] \<and> length g \<le> target \<and> (\<forall>c \<in> set g. cond_metrics c = k)"
    and "m \<in> set (map fst d)"
  shows "length (filter (\<lambda>s. cond_metrics (snd s) = m) (concat (map (group_slots kind target) (map snd d)))) = target"
  using assms
proof (induction d)
  case (Cons x d)
  obtain k g where x: "x = (k, g)" by (cases x)
  have s: "set (group_slots kind target g) = Pair kind ` set g" "length (group_slots kind target g) = target"
    using group_slots_ok [of g target kind] Cons.prems(2) x by auto
  have k: "\<forall>c \<in> set g. cond_metrics c = k" using Cons.prems(2) x by auto
  show ?case
  proof (cases "m = k")
    case True
    have "filter (\<lambda>s. cond_metrics (snd s) = m) (group_slots kind target g) = group_slots kind target g"
      using s(1) k True by (intro filter_True) auto
    moreover have "filter (\<lambda>s. cond_metrics (snd s) = m) (concat (map (group_slots kind target) (map snd d))) = []"
    proof -
      have "cond_metrics (snd s) \<noteq> m" if kg: "(k', g') \<in> set d" and s: "s \<in> set (group_slots kind target g')" for k' g' s
      proof -
        have "k' \<noteq> k" using Cons.prems(1) x kg by (auto simp: image_iff)
        moreover have "g' \<noteq> []" "length g' \<le> target" "\<forall>c \<in> set g'. cond_metrics c = k'" using Cons.prems(2) kg by auto
        moreover have "snd s \<in> set g'" using group_slots_ok(1) [OF calculation(2,3), of kind] s by auto
        ultimately show ?thesis using True by simp
      qed
      then show ?thesis by (simp add: filter_empty_conv) (metis surj_pair snd_conv)
    qed
    ultimately show ?thesis using s(2) x by simp
  next
    case False
    then have "filter (\<lambda>s. cond_metrics (snd s) = m) (group_slots kind target g) = []"
      using s(1) k by (auto simp: filter_empty_conv)
    moreover have "length (filter (\<lambda>s. cond_metrics (snd s) = m) (concat (map (group_slots kind target) (map snd d)))) = target"
      using Cons.IH Cons.prems False x by auto
    ultimately show ?thesis using x by simp
  qed
qed simp

lemma kind_slots_ok:
  assumes "kind_slots kind conditions = Inr slots"
  shows "set slots = Pair kind ` set (included kind conditions)"
    and "\<exists>target. \<forall>c \<in> set (included kind conditions).
      length (filter (\<lambda>s. cond_metrics (snd s) = cond_metrics c) slots) = target"
proof -
  let ?d = "by_instance (included kind conditions)"
  let ?target = "Max (set (map length (map snd ?d)))"
  note d = by_instance_ok [of "included kind conditions"]
  have slots: "slots = concat (map (group_slots kind ?target) (map snd ?d))"
    using assms by (auto simp: kind_slots_def Let_def group_slots_def comp_def split: if_splits)
  have le: "length g \<le> ?target" if "(k, g) \<in> set ?d" for k g
    using that by (intro Max_ge) (force simp: image_iff)+
  have g: "set (group_slots kind ?target g) = Pair kind ` set g" if "(k, g) \<in> set ?d" for k g
    using group_slots_ok(1) le [OF that] d(2) that by blast
  have "s \<in> set slots \<longleftrightarrow> (\<exists>k g. (k, g) \<in> set ?d \<and> s \<in> set (group_slots kind ?target g))" for s
    unfolding slots by (simp add: Bex_def)
  then have "s \<in> set slots \<longleftrightarrow> (\<exists>k g. (k, g) \<in> set ?d \<and> s \<in> Pair kind ` set g)" for s using g by metis
  then show "set slots = Pair kind ` set (included kind conditions)" using d(3) by blast
  have inv: "\<forall>(k, g) \<in> set ?d. g \<noteq> [] \<and> length g \<le> ?target \<and> (\<forall>c \<in> set g. cond_metrics c = k)" using d(2) le by auto
  have "cond_metrics c \<in> set (map fst ?d)" if "c \<in> set (included kind conditions)" for c
  proof -
    from that d(3) obtain k g where "(k, g) \<in> set ?d" "c \<in> set g" by blast
    then show ?thesis using d(2) by force
  qed
  then show "\<exists>target. \<forall>c \<in> set (included kind conditions).
      length (filter (\<lambda>s. cond_metrics (snd s) = cond_metrics c) slots) = target"
    using instance_count [OF d(1) [unfolded dict_ok_def] inv] unfolding slots by blast
qed

section \<open>What the rounds collect\<close>

text \<open>The rounds a condition has samples of, \<open>None\<close> where it has no list.\<close>

definition rounds_of :: "run_samples \<Rightarrow> ustr \<Rightarrow> ustr \<Rightarrow> nat set option" where
  "rounds_of run kind name =
     Option.bind (map_of run kind) (\<lambda>d. map_option (\<lambda>ss. sample_round ` set ss) (map_of d name))"

lemma add_sample_rounds:
  assumes "rounds_of run kind name \<noteq> None"
  shows "\<exists>run'. add_sample kind name s run = Inr run' \<and> (\<forall>k m. rounds_of run' k m =
    (if k = kind \<and> m = name then map_option (insert (sample_round s)) (rounds_of run k m) else rounds_of run k m))"
proof -
  obtain d ss where d: "map_of run kind = Some d" "map_of d name = Some ss"
    using assms by (auto simp: rounds_of_def bind_eq_Some_conv)
  then show ?thesis by (simp add: add_sample_def rounds_of_def map_of_update)
qed

lemma run_round_rounds:
  "(\<And>k c. (k, c) \<in> set slots \<Longrightarrow> rounds_of run k (cond_name c) \<noteq> None) \<Longrightarrow>
     \<exists>run'. run_round r pos timing slots run = Inr run' \<and> (\<forall>k m. rounds_of run' k m =
       (if \<exists>c. (k, c) \<in> set slots \<and> cond_name c = m then map_option (insert r) (rounds_of run k m) else rounds_of run k m))"
proof (induction slots arbitrary: run pos)
  case (Cons x slots)
  obtain kind c where x: "x = (kind, c)" by (cases x)
  let ?s = "\<lparr>sample_round = r, sample_position = pos, client_ms = py_round (fst (timing r pos)) 4,
          server_ms = py_round (snd (timing r pos)) 4\<rparr>"
  from add_sample_rounds [of run kind "cond_name c" ?s] Cons.prems x obtain run1 where
    a: "add_sample kind (cond_name c) ?s run = Inr run1"
    "\<And>k m. rounds_of run1 k m = (if k = kind \<and> m = cond_name c then map_option (insert r) (rounds_of run k m) else rounds_of run k m)"
    by auto
  have "rounds_of run1 k (cond_name c') \<noteq> None" if "(k, c') \<in> set slots" for k c'
  proof (cases "k = kind \<and> cond_name c' = cond_name c")
    case True
    then show ?thesis using a(2) [of k "cond_name c'"] Cons.prems [of k c'] that by simp
  next
    case False
    then show ?thesis using a(2) [of k "cond_name c'"] Cons.prems [of k c'] that by auto
  qed
  from Cons.IH [OF this] obtain run2 where b: "run_round r (Suc pos) timing slots run1 = Inr run2"
    "\<And>k m. rounds_of run2 k m = (if \<exists>c. (k, c) \<in> set slots \<and> cond_name c = m
       then map_option (insert r) (rounds_of run1 k m) else rounds_of run1 k m)" by blast
  have "rounds_of run2 k m = (if \<exists>c. (k, c) \<in> set (x # slots) \<and> cond_name c = m
       then map_option (insert r) (rounds_of run k m) else rounds_of run k m)" for k m
    unfolding b(2) a(2) x by (auto simp: option.map_comp comp_def)
  with a(1) b(1) x show ?case by simp
qed simp

lemma run_rounds_rounds:
  assumes "\<And>k c. (k, c) \<in> set slots \<Longrightarrow> rounds_of run k (cond_name c) \<noteq> None" "\<And>r. set (order r slots) = set slots"
  shows "\<exists>run'. run_rounds n order timing slots run = Inr run' \<and> (\<forall>k m. rounds_of run' k m =
     (if \<exists>c. (k, c) \<in> set slots \<and> cond_name c = m then map_option (\<lambda>R. R \<union> {0..<n}) (rounds_of run k m)
      else rounds_of run k m))"
proof (induction n)
  case 0
  show ?case by (simp add: option.map_ident)
next
  case (Suc n)
  then obtain run1 where a: "run_rounds n order timing slots run = Inr run1"
    "\<And>k m. rounds_of run1 k m = (if \<exists>c. (k, c) \<in> set slots \<and> cond_name c = m
       then map_option (\<lambda>R. R \<union> {0..<n}) (rounds_of run k m) else rounds_of run k m)" by blast
  have "rounds_of run1 k (cond_name c) \<noteq> None" if "(k, c) \<in> set (order n slots)" for k c
    using a(2) assms that by simp
  from run_round_rounds [OF this, where r = n and pos = 0 and timing = timing] obtain run2 where b: "run_round n 0 timing (order n slots) run1 = Inr run2"
    "\<And>k m. rounds_of run2 k m = (if \<exists>c. (k, c) \<in> set (order n slots) \<and> cond_name c = m
       then map_option (insert n) (rounds_of run1 k m) else rounds_of run1 k m)" by blast
  have "insert n (R \<union> {0..<n}) = R \<union> {0..<Suc n}" for R by auto
  then have "rounds_of run2 k m = (if \<exists>c. (k, c) \<in> set slots \<and> cond_name c = m
       then map_option (\<lambda>R. R \<union> {0..<Suc n}) (rounds_of run k m) else rounds_of run k m)" for k m
    unfolding b(2) a(2) assms(2) by (auto simp: option.map_comp comp_def)
  with a(1) b(1) show ?case by simp
qed

lemma fold_lists:
  "map_of (fold (\<lambda>(k, v). AList.update k v) (map (\<lambda>c. (f c, [])) cs) d) k
     = (if k \<in> f ` set cs then Some [] else map_of d k)"
  by (induction cs arbitrary: d) (auto simp: map_of_update)

lemma dict_of_lists:
  "map_of (dict_of (map (\<lambda>c. (f c, [])) cs)) k = (if k \<in> f ` set cs then Some [] else None)"
  by (simp add: dict_of_def fold_lists)

lemma empty_rounds:
  "rounds_of (empty_samples conditions) kind name =
     (if kind \<in> set KINDS \<and> name \<in> cond_name ` set (included kind conditions) then Some {} else None)"
  by (auto simp: rounds_of_def empty_samples_def KINDS_def dict_of_lists)

lemma balanced_slots_set:
  assumes "balanced_slots conditions = Inr slots"
  shows "(kind, c) \<in> set slots \<longleftrightarrow> kind \<in> set KINDS \<and> c \<in> set (included kind conditions)"
proof -
  from assms obtain ss where s: "list_all2 (\<lambda>kind s. kind_slots kind conditions = Inr s) KINDS ss" "slots = concat ss"
    by (auto simp: balanced_slots_def rbind_eq_Inr each_Inr)
  have "list_all2 (\<lambda>kind s. set s = Pair kind ` set (included kind conditions)) KINDS ss"
    using s(1) kind_slots_ok(1) by (auto elim!: list_all2_mono)
  then have "set (concat ss) = (\<Union>kind \<in> set KINDS. Pair kind ` set (included kind conditions))"
    by (induction rule: list_all2_induct) auto
  with s(2) show ?thesis by auto
qed

lemma seeded_slots: "\<exists>slots. balanced_slots (seeded request_claims) = Inr slots"
proof -
  have "by_instance (included kind (seeded request_claims)) \<noteq> []" if "kind \<in> set KINDS" for kind
  proof -
    have "hd CONDITIONS \<in> set (included kind (seeded request_claims))"
      by (simp add: included_def seeded_def CONDITIONS_def)
    with by_instance_ok(3) obtain k g where "(k, g) \<in> set (by_instance (included kind (seeded request_claims)))" by blast
    then show ?thesis by auto
  qed
  then have "\<forall>kind \<in> set KINDS. \<exists>s. kind_slots kind (seeded request_claims) = Inr s" by (simp add: kind_slots_def Let_def)
  from each_total [OF this] show ?thesis by (auto simp: balanced_slots_def)
qed

definition order_ok :: "(nat \<Rightarrow> 'a list \<Rightarrow> 'a list) \<Rightarrow> bool" where
  "order_ok order \<longleftrightarrow> (\<forall>r slots. mset (order r slots) = mset slots)"

lemma benchmark_complete:
  assumes "order_ok order" "1 \<le> warmups" "2 \<le> samples"
  shows "\<exists>run. benchmark_samples warmups samples request_claims order timing = Inr run
    \<and> (\<forall>kind \<in> set KINDS. complete_run (nat samples) kind (map cond_name (included kind (seeded request_claims))) run)"
proof -
  let ?cs = "seeded request_claims"
  obtain slots where s: "balanced_slots ?cs = Inr slots" using seeded_slots by blast
  note mem = balanced_slots_set [OF s]
  have "rounds_of (empty_samples ?cs) k (cond_name c) \<noteq> None" if "(k, c) \<in> set slots" for k c
    using that mem by (simp add: empty_rounds)
  moreover have "set (order r slots) = set slots" for r using assms(1) unfolding order_ok_def by (metis set_mset_mset)
  ultimately obtain run where run: "run_rounds (nat samples) order timing slots (empty_samples ?cs) = Inr run"
    "\<And>k m. rounds_of run k m = (if \<exists>c. (k, c) \<in> set slots \<and> cond_name c = m
       then map_option (\<lambda>R. R \<union> {0..<nat samples}) (rounds_of (empty_samples ?cs) k m)
       else rounds_of (empty_samples ?cs) k m)"
    using run_rounds_rounds [of slots "empty_samples ?cs" order "nat samples" timing] by blast
  have r: "rounds_of run k m = (if k \<in> set KINDS \<and> m \<in> cond_name ` set (included k ?cs) then Some {0..<nat samples} else None)" for k m
    unfolding run(2) mem empty_rounds by auto
  have "complete_run (nat samples) k (map cond_name (included k ?cs)) run" if k: "k \<in> set KINDS" for k
  proof -
    have "hd CONDITIONS \<in> set (included k ?cs)" by (simp add: included_def seeded_def CONDITIONS_def)
    then have "rounds_of run k (cond_name (hd CONDITIONS)) \<noteq> None" using r k by simp
    then obtain d where d: "map_of run k = Some d" by (auto simp: rounds_of_def bind_eq_Some_conv)
    have "map_option (\<lambda>ss. sample_round ` set ss) (map_of d m) =
        (if m \<in> cond_name ` set (included k ?cs) then Some {0..<nat samples} else None)" for m
      using r [of k m] k d by (simp add: rounds_of_def)
    then show ?thesis unfolding complete_run_def covers_def using d by (metis (no_types, lifting) image_set map_option_is_None option.distinct(1) option.inject option.simps(9))
  qed
  then show ?thesis using assms(2,3) s run(1) by (intro exI [of _ run]) (simp add: benchmark_samples_def)
qed

lemma seeded_names: "map cond_name (included kind (seeded request_claims)) = (if kind = U ''login'' then butlast CHAIN else CHAIN)"
  by (simp add: included_def seeded_def CONDITIONS_def CHAIN_def)

lemma benchmark_run_complete:
  assumes "order_ok order" "benchmark_samples warmups samples request_claims order timing = Inr run" "kind \<in> set KINDS"
  shows "complete_run (nat samples) kind (if kind = U ''login'' then butlast CHAIN else CHAIN) run" "2 \<le> nat samples"
proof -
  have s: "1 \<le> warmups" "2 \<le> samples" using assms(2) by (auto simp: benchmark_samples_def split: if_splits)
  then show "2 \<le> nat samples" by simp
  from benchmark_complete [OF assms(1) s, of request_claims timing] assms(2,3)
  show "complete_run (nat samples) kind (if kind = U ''login'' then butlast CHAIN else CHAIN) run"
    by (simp add: seeded_names)
qed

section \<open>Properties\<close>

text \<open>C35: the schedule is balanced. Whenever \<open>balanced_slots\<close> returns, its slots are those of the
  included conditions of every kind, each of them at least once, and for every kind every instance
  (every metrics endpoint) gets the same number of cycles, however many conditions share it.\<close>

theorem schedule_balanced:
  assumes "balanced_slots conditions = Inr slots"
  shows "(\<forall>kind c. (kind, c) \<in> set slots \<longleftrightarrow> kind \<in> set KINDS \<and> c \<in> set (included kind conditions))
    \<and> (\<forall>kind. \<exists>target. \<forall>c. (kind, c) \<in> set slots \<longrightarrow>
         length (filter (\<lambda>s. fst s = kind \<and> cond_metrics (snd s) = cond_metrics c) slots) = target)"
proof (intro conjI allI)
  show mem: "(kind, c) \<in> set slots \<longleftrightarrow> kind \<in> set KINDS \<and> c \<in> set (included kind conditions)" for kind c
    by (rule balanced_slots_set [OF assms])
  fix kind
  from assms obtain ss where s: "list_all2 (\<lambda>kind s. kind_slots kind conditions = Inr s) KINDS ss" "slots = concat ss"
    by (auto simp: balanced_slots_def rbind_eq_Inr each_Inr)
  have own: "length (filter (\<lambda>s. fst s = kind \<and> cond_metrics (snd s) = m) (concat ss))
      = (if kind \<in> set ks then length (filter (\<lambda>s. cond_metrics (snd s) = m) own) else 0)"
    if "list_all2 (\<lambda>kind s. kind_slots kind conditions = Inr s) ks ss" "distinct ks"
      "kind_slots kind conditions = Inr own \<or> kind \<notin> set ks" for ks ss own m
    using that
  proof (induction ks ss rule: list_all2_induct)
    case (Cons k ks s ss)
    have seg: "set s = Pair k ` set (included k conditions)" by (rule kind_slots_ok(1) [OF Cons.hyps(1)])
    have "filter (\<lambda>x. fst x = kind \<and> cond_metrics (snd x) = m) s
        = (if k = kind then filter (\<lambda>x. cond_metrics (snd x) = m) s else [])"
      using seg by (auto intro!: filter_cong simp: filter_empty_conv)
    with Cons show ?case by (cases "k = kind") auto
  qed simp
  show "\<exists>target. \<forall>c. (kind, c) \<in> set slots \<longrightarrow>
         length (filter (\<lambda>s. fst s = kind \<and> cond_metrics (snd s) = cond_metrics c) slots) = target"
  proof (cases "kind \<in> set KINDS")
    case True
    with s(1) obtain own_slots where o: "kind_slots kind conditions = Inr own_slots"
      by (fastforce simp: list_all2_conv_all_nth in_set_conv_nth)
    from kind_slots_ok(2) [OF o] obtain target where "\<forall>c \<in> set (included kind conditions).
      length (filter (\<lambda>s. cond_metrics (snd s) = cond_metrics c) own_slots) = target" by blast
    moreover have "distinct KINDS" by (simp add: KINDS_def)
    ultimately show ?thesis using own [OF s(1)] o True mem s(2) by (intro exI [of _ target]) simp
  qed (use mem in simp)
qed

theorem schedule_balanced_witness:
  "\<exists>slots. balanced_slots (seeded []) = Inr slots
    \<and> (\<exists>target. \<forall>c. (U ''sso'', c) \<in> set slots \<longrightarrow>
         length (filter (\<lambda>s. fst s = U ''sso'' \<and> cond_metrics (snd s) = cond_metrics c) slots) = target)"
proof -
  obtain slots where s: "balanced_slots (seeded []) = Inr slots" using seeded_slots by blast
  show ?thesis
    by (rule exI [of _ slots], rule conjI, rule s, rule schedule_balanced [OF s, THEN conjunct2, THEN spec])
qed

text \<open>What the benchmark writes, the analysis can read. With at least one warm-up and two
  samples the benchmark collects its samples without a \<open>KeyError\<close>, for every order of the slots and every
  measurement; and for any non-empty list of such runs and any generator \<open>summarize_kind\<close> succeeds for every kind of
  cycle: it reports on the whole chain of conditions in order (without the full request for logins), and no
  mean, median, percentile or pairing of rounds is ever taken of missing data.\<close>

theorem benchmark_summarized:
  assumes "rng_ok rng" "runs \<noteq> []" "kind \<in> set KINDS" "1 \<le> warmups" "2 \<le> samples"
    and "\<And>run. run \<in> set runs \<Longrightarrow> \<exists>order timing request_claims. order_ok order
       \<and> benchmark_samples warmups samples request_claims order timing = Inr run"
  shows "(\<forall>order timing request_claims. order_ok order \<longrightarrow>
       (\<exists>run. benchmark_samples warmups samples request_claims order timing = Inr run))
    \<and> (\<exists>r' s. summarize_kind rng r runs kind = Inr (r', s)
       \<and> map fst (summary_conditions s) = (if kind = U ''login'' then butlast CHAIN else CHAIN))"
proof (intro conjI allI impI)
  show "\<exists>run. benchmark_samples warmups samples request_claims order timing = Inr run" if "order_ok order"
    for order timing request_claims using benchmark_complete [OF that assms(4,5)] by blast
  let ?names = "if kind = U ''login'' then butlast CHAIN else CHAIN"
  have "\<forall>run \<in> set runs. complete_run (nat samples) kind ?names run"
    using assms(6) benchmark_run_complete(1) [OF _ _ assms(3)] by blast
  moreover have "2 \<le> nat samples" using assms(5) by simp
  ultimately obtain r' s where
    s: "summarize_kind rng r runs kind = Inr (r', s)" "map fst (summary_conditions s) = filter (\<lambda>name. name \<in> set ?names) CHAIN"
    using summarize_kind_ok [OF assms(1,2), of "nat samples" kind ?names r] by blast
  have "filter (\<lambda>name. name \<in> set ?names) CHAIN = ?names" by (simp add: CHAIN_def)
  with s show "\<exists>r' s. summarize_kind rng r runs kind = Inr (r', s) \<and> map fst (summary_conditions s) = ?names" by auto
qed

definition sample_rng :: "nat rng" where
  "sample_rng r n = (r, [0..<n])"

lemma sample_benchmark:
  "\<exists>run. benchmark_samples 1 2 [] (\<lambda>r slots. slots) (\<lambda>r p. (1, 2)) = Inr run"
  using benchmark_complete [of "\<lambda>r slots. slots" 1 2 "[]" "\<lambda>r p. (1, 2)"] by (auto simp: order_ok_def)

theorem benchmark_summarized_witness:
  "\<exists>run r' s. benchmark_samples 1 2 [] (\<lambda>r slots. slots) (\<lambda>r p. (1, 2)) = Inr run
    \<and> summarize_kind sample_rng 0 [run] (U ''sso'') = Inr (r', s) \<and> map fst (summary_conditions s) = CHAIN"
proof -
  obtain run where r: "benchmark_samples 1 2 [] (\<lambda>r slots. slots) (\<lambda>r p. (1, 2)) = Inr run" using sample_benchmark by blast
  have g: "rng_ok sample_rng" by (simp add: rng_ok_def sample_rng_def)
  have k: "U ''sso'' \<in> set KINDS" "U ''sso'' \<noteq> U ''login''" by (simp_all add: KINDS_def)
  have o: "order_ok (\<lambda>r slots. slots)" by (simp add: order_ok_def)
  have "(\<exists>r' s. summarize_kind sample_rng 0 [run] (U ''sso'') = Inr (r', s)
       \<and> map fst (summary_conditions s) = (if U ''sso'' = U ''login'' then butlast CHAIN else CHAIN))"
  proof (rule benchmark_summarized [THEN conjunct2, OF g _ k(1)])
    show "[run] \<noteq> []" by simp
    show "(1 :: int) \<le> 1" "(2 :: int) \<le> 2" by simp_all
    show "\<exists>order timing request_claims. order_ok order \<and> benchmark_samples 1 2 request_claims order timing = Inr run'"
      if "run' \<in> set [run]" for run' using that r o by auto
  qed
  with r k(2) show ?thesis by auto
qed

end
