(* ===== verification/Benchmark_Requests.thy ===== *)
theory Benchmark_Requests
  imports E2E_Mail
begin

text \<open>
  The requests of the benchmark (evaluation/benchmark/browser_flow.py): \<open>located\<close>, \<open>detailed_method\<close>,
  \<open>best_case\<close>, \<open>worst_case\<close>, \<open>compact_bytes\<close> and \<open>request_bytes\<close>, and the methods that
  timing-benchmark.py reads back from such a request. \<open>repr\<close> is Python's, for an identifier that is no text.

  Proved: the request of the worst case asks, in both locations, for exactly the advertised methods with
  every advertised member, and the benchmark reads those methods back; and how long its query is.
\<close>

section \<open>Reading the discovery document\<close>

text \<open>
  \<open>TypeError\<close> and \<open>KeyError\<close>. \<open>OtherKey\<close> is no exception of the code: a name that is no text
  makes a dict that is no JSON object, which is outside this model.
\<close>

datatype request_exc = RequestType | RequestKey | OtherKey

text \<open>Iterating over a value: a list, the characters of a text, the keys of a dict.\<close>

definition iterate :: "json \<Rightarrow> request_exc + json list" where
  "iterate v =
     (case v of
        JArr vs \<Rightarrow> Inr vs
      | JStr s \<Rightarrow> Inr (map (\<lambda>c. JStr [c]) s)
      | JObj ms \<Rightarrow> Inr (map (\<lambda>kv. JStr (fst kv)) ms)
      | _ \<Rightarrow> Inl RequestType)"

text \<open>\<open>{name: None for name in values}\<close>; a list or a dict is no key.\<close>

fun unset_members :: "json list \<Rightarrow> request_exc + (ustr, json) dict" where
  "unset_members [] = Inr []"
| "unset_members (v # vs) =
     (case v of
        JStr s \<Rightarrow> rbind (unset_members vs) (\<lambda>d. Inr ((s, JNull) # AList.delete s d))
      | JArr _ \<Rightarrow> Inl RequestType
      | JObj _ \<Rightarrow> Inl RequestType
      | _ \<Rightarrow> Inl OtherKey)"

text \<open>\<open>document.get(f"{identifier}...", [])\<close>\<close>

definition advertised :: "(json \<Rightarrow> ustr) \<Rightarrow> (ustr, json) dict \<Rightarrow> json \<Rightarrow> ustr \<Rightarrow> json" where
  "advertised repr document identifier suffix =
     (case map_of document (py_str repr identifier @ suffix) of None \<Rightarrow> JArr [] | Some v \<Rightarrow> v)"

section \<open>The requests\<close>

definition MAX_AGE :: int where
  "MAX_AGE = 3600"

definition located :: "(ustr, json) dict \<Rightarrow> (ustr, json) dict" where
  "located expression =
     (let request = spread [(U ''essential'', JBool True)] expression in
      [(U ''id_token'', JObj [(U ''amr_details'', JObj request)]),
       (U ''userinfo'', JObj [(U ''amr_details'', JObj request)])])"

definition detailed_method ::
  "(json \<Rightarrow> ustr) \<Rightarrow> (ustr, json) dict \<Rightarrow> json \<Rightarrow> request_exc + (ustr, json) dict" where
  "detailed_method repr document identifier =
     rbind (iterate (advertised repr document identifier (U ''_metadata_supported''))) (\<lambda>names.
     rbind (unset_members names) (\<lambda>extra.
       let metadata = spread [(U ''time'', JObj [(U ''essential'', JBool True), (U ''max_age'', JInt MAX_AGE)])] extra;
           amr_method = [(U ''amr_identifier'', JObj [(U ''value'', identifier)]), (U ''amr_metadata'', JObj metadata)];
           properties = advertised repr document identifier (U ''_properties_supported'') in
       if truthy properties then
         rbind (iterate properties) (\<lambda>ps. rbind (unset_members ps) (\<lambda>d.
           Inr (amr_method @ [(U ''amr_properties'', JObj d)])))
       else Inr amr_method))"

definition best_case :: "(json \<Rightarrow> ustr) \<Rightarrow> (ustr, json) dict \<Rightarrow> request_exc + (ustr, json) dict" where
  "best_case repr document = rbind (detailed_method repr document (JStr (U ''pwd''))) (\<lambda>m. Inr (located m))"

fun detailed_methods ::
  "(json \<Rightarrow> ustr) \<Rightarrow> (ustr, json) dict \<Rightarrow> json list \<Rightarrow> request_exc + json list" where
  "detailed_methods repr document [] = Inr []"
| "detailed_methods repr document (i # is) =
     rbind (detailed_method repr document i) (\<lambda>m. rbind (detailed_methods repr document is) (\<lambda>ms. Inr (JObj m # ms)))"

definition worst_case :: "(json \<Rightarrow> ustr) \<Rightarrow> (ustr, json) dict \<Rightarrow> request_exc + (ustr, json) dict" where
  "worst_case repr document =
     (case map_of document (U ''amr_identifiers_supported'') of
        None \<Rightarrow> Inl RequestKey
      | Some v \<Rightarrow>
          rbind (iterate v) (\<lambda>is. rbind (detailed_methods repr document is) (\<lambda>ms.
            Inr (located [(U ''all_of'', JArr ms)]))))"

text \<open>\<open>request["id_token"]["amr_details"]["all_of"]\<close> and the identifiers of its methods, as timing-benchmark.py reads them.\<close>

definition item_at :: "ustr \<Rightarrow> json \<Rightarrow> request_exc + json" where
  "item_at k v =
     (case v of JObj ms \<Rightarrow> (case map_of ms k of None \<Rightarrow> Inl RequestKey | Some x \<Rightarrow> Inr x) | _ \<Rightarrow> Inl RequestType)"

fun identifiers :: "json list \<Rightarrow> request_exc + json list" where
  "identifiers [] = Inr []"
| "identifiers (m # ms) =
     rbind (item_at (U ''amr_identifier'') m) (\<lambda>i. rbind (item_at (U ''value'') i) (\<lambda>x.
     rbind (identifiers ms) (\<lambda>xs. Inr (x # xs))))"

definition requested :: "(ustr, json) dict \<Rightarrow> request_exc + json list" where
  "requested request_claims =
     rbind (item_at (U ''id_token'') (JObj request_claims)) (\<lambda>t.
     rbind (item_at (U ''amr_details'') t) (\<lambda>d.
     rbind (item_at (U ''all_of'') d) (\<lambda>a.
     rbind (iterate a) identifiers)))"

section \<open>Sizes\<close>

definition compact_bytes :: "py_env \<Rightarrow> json \<Rightarrow> json_exc + nat" where
  "compact_bytes env v = rbind (dumps_compact env v) (\<lambda>t. Inr (length t))"

text \<open>
  \<open>json.dumps\<close> prints ASCII, so its UTF-8 bytes are its characters (\<open>compact_bytes_utf8\<close> below).
  \<open>urlencode({"claims": text})\<close> quotes the text with a plus sign for a blank.
\<close>

definition quote_plus :: "ustr \<Rightarrow> ustr" where
  "quote_plus s = concat (map (\<lambda>c. if c = 32 then [43] else if unreserved c then [c]
     else [37, upper_hex (c div 16), upper_hex (c mod 16)]) s)"

definition request_bytes :: "py_env \<Rightarrow> (ustr, json) dict \<Rightarrow> json_exc + nat" where
  "request_bytes env request_claims =
     rbind (dumps_compact env (JObj request_claims)) (\<lambda>compact.
       Inr (length (U ''claims='' @ quote_plus compact)))"

section \<open>What the methods hold\<close>

lemma keys_update: "fst ` set (AList.update k v d) = insert k (fst ` set d)"
  by (induction d) auto

lemma keys_delete: "fst ` set (AList.delete k d) = fst ` set d - {k}"
  unfolding set_map [symmetric] delete_keys by simp

lemma unset_members_keys:
  "unset_members vs = Inr d \<Longrightarrow> JStr ` fst ` set d = set vs"
proof (induction vs arbitrary: d)
  case (Cons v vs)
  then obtain s e where s: "v = JStr s" "unset_members vs = Inr e" "d = (s, JNull) # AList.delete s e"
    by (cases v) (auto simp: rbind_eq_Inr)
  have "JStr ` fst ` set d = insert (JStr s) (JStr ` fst ` set e)" by (auto simp: s(3) keys_delete)
  then show ?case using Cons.IH [OF s(2)] s(1) by simp
qed simp

lemma spread_keys: "fst ` set (spread d e) = fst ` set d \<union> fst ` set e"
  unfolding spread_def
  by (induction e arbitrary: d) (simp_all add: keys_update case_prod_beta)

lemma spread_other: "k \<notin> fst ` set e \<Longrightarrow> map_of (spread d e) k = map_of d k"
  unfolding spread_def
  by (induction e arbitrary: d) (auto simp: map_of_update)

text \<open>What a method of the request asks for: its identifier, and every name the document has for it.\<close>

definition advertised_names :: "(json \<Rightarrow> ustr) \<Rightarrow> (ustr, json) dict \<Rightarrow> json \<Rightarrow> ustr \<Rightarrow> ustr set" where
  "advertised_names repr document identifier suffix =
     {s. case iterate (advertised repr document identifier suffix) of Inr vs \<Rightarrow> JStr s \<in> set vs | Inl _ \<Rightarrow> False}"

definition asks_for_all :: "(json \<Rightarrow> ustr) \<Rightarrow> (ustr, json) dict \<Rightarrow> json \<Rightarrow> (ustr, json) dict \<Rightarrow> bool" where
  "asks_for_all repr document identifier m \<longleftrightarrow>
     map_of m (U ''amr_identifier'') = Some (JObj [(U ''value'', identifier)])
     \<and> (\<exists>metadata. map_of m (U ''amr_metadata'') = Some (JObj metadata)
          \<and> fst ` set metadata = insert (U ''time'') (advertised_names repr document identifier (U ''_metadata_supported''))
          \<and> (U ''time'' \<notin> advertised_names repr document identifier (U ''_metadata_supported'') \<longrightarrow>
               map_of metadata (U ''time'') = Some (JObj [(U ''essential'', JBool True), (U ''max_age'', JInt MAX_AGE)])))
     \<and> (case map_of m (U ''amr_properties'') of
          Some (JObj d) \<Rightarrow> fst ` set d = advertised_names repr document identifier (U ''_properties_supported'')
        | None \<Rightarrow> \<not> truthy (advertised repr document identifier (U ''_properties_supported''))
        | Some _ \<Rightarrow> False)"

lemma names_of_dict:
  assumes "iterate (advertised repr document identifier suffix) = Inr vs" "unset_members vs = Inr d"
  shows "fst ` set d = advertised_names repr document identifier suffix"
  using assms(1) unset_members_keys [OF assms(2)] unfolding advertised_names_def by auto

lemma detailed_method_Inr:
  assumes "detailed_method repr document identifier = Inr m"
  shows "asks_for_all repr document identifier m"
proof -
  let ?time = "JObj [(U ''essential'', JBool True), (U ''max_age'', JInt MAX_AGE)]"
  let ?properties = "advertised repr document identifier (U ''_properties_supported'')"
  from assms obtain names extra where a: "iterate (advertised repr document identifier (U ''_metadata_supported'')) = Inr names"
    "unset_members names = Inr extra"
    "if truthy ?properties then \<exists>ps d. iterate ?properties = Inr ps \<and> unset_members ps = Inr d
       \<and> m = [(U ''amr_identifier'', JObj [(U ''value'', identifier)]), (U ''amr_metadata'', JObj (spread [(U ''time'', ?time)] extra)),
              (U ''amr_properties'', JObj d)]
     else m = [(U ''amr_identifier'', JObj [(U ''value'', identifier)]), (U ''amr_metadata'', JObj (spread [(U ''time'', ?time)] extra))]"
    by (auto simp: detailed_method_def rbind_eq_Inr Let_def split: if_splits)
  note n = names_of_dict [OF a(1,2)]
  have t: "fst ` set (spread [(U ''time'', ?time)] extra) = insert (U ''time'') (fst ` set extra)" by (simp add: spread_keys)
  have o: "U ''time'' \<notin> fst ` set extra \<Longrightarrow> map_of (spread [(U ''time'', ?time)] extra) (U ''time'') = Some ?time"
    by (simp add: spread_other)
  show ?thesis
  proof (cases "truthy ?properties")
    case True
    with a(3) obtain ps d where "iterate ?properties = Inr ps" "unset_members ps = Inr d"
      "m = [(U ''amr_identifier'', JObj [(U ''value'', identifier)]), (U ''amr_metadata'', JObj (spread [(U ''time'', ?time)] extra)),
              (U ''amr_properties'', JObj d)]" by auto
    then show ?thesis using t o names_of_dict n unfolding asks_for_all_def by simp
  next
    case False
    then show ?thesis using a(3) t o n unfolding asks_for_all_def by simp
  qed
qed

lemma detailed_methods_Inr:
  "detailed_methods repr document ids = Inr js \<Longrightarrow>
     \<exists>ms. js = map JObj ms \<and> list_all2 (\<lambda>i m. detailed_method repr document i = Inr m) ids ms"
proof (induction ids arbitrary: js)
  case (Cons i ids)
  then obtain m js' where m: "detailed_method repr document i = Inr m" "detailed_methods repr document ids = Inr js'" "js = JObj m # js'"
    by (auto simp: rbind_eq_Inr)
  from Cons.IH [OF m(2)] obtain ms where "js' = map JObj ms" "list_all2 (\<lambda>i m. detailed_method repr document i = Inr m) ids ms" by blast
  with m show ?case by (intro exI [of _ "m # ms"]) simp
qed simp

lemma identifiers_asked:
  "list_all2 (asks_for_all repr document) ids ms \<Longrightarrow> identifiers (map JObj ms) = Inr ids"
  by (induction rule: list_all2_induct) (auto simp: item_at_def asks_for_all_def)

section \<open>How long a query is\<close>

lemma compact_bytes_utf8:
  "json_ok env d v \<Longrightarrow> compact_bytes env v = Inr n \<Longrightarrow>
     \<exists>t bs. dumps_compact env v = Inr t \<and> utf8_encode t = Some bs \<and> n = length bs"
  using dump_ascii [OF style_ok_compact _, of env d v 0] utf8_encode_ascii
  by (fastforce simp: compact_bytes_def dumps_compact_def compact_style_def split: if_splits)

lemma quote_plus_length: "length s \<le> length (quote_plus s) \<and> length (quote_plus s) \<le> 3 * length s"
  by (induction s) (auto simp: quote_plus_def)

lemma request_bytes_bounds:
  assumes "compact_bytes env (JObj req) = Inr n"
  shows "\<exists>q. request_bytes env req = Inr q \<and> n + 7 \<le> q \<and> q \<le> 3 * n + 7"
  using assms quote_plus_length
  by (auto simp: compact_bytes_def request_bytes_def rbind_eq_Inr)

text \<open>A member of an object takes its own bytes, those of its name and five more.\<close>

lemma join_length: "x \<in> set xs \<Longrightarrow> length x \<le> length (join sep xs)"
  by (induction sep xs rule: join.induct) auto

lemma esc_ascii_length: "1 \<le> length (esc_ascii c)"
  by (simp add: esc_ascii_def u4_def)

lemma quoted_length: "length s + 2 \<le> length (quoted compact_style s)"
proof -
  have "length s \<le> length (concat (map esc_ascii s))"
    using esc_ascii_length by (induction s) (auto intro: add_le_mono [of 1, simplified])
  then show ?thesis by (simp add: quoted_def compact_style_def)
qed

lemma compact_simps: "esc compact_style = esc_ascii" "item_sep compact_style l = [44]" "key_sep compact_style = [58]"
    "open_txt compact_style l = []" "close_txt compact_style l = []"
  by (simp_all add: compact_style_def no_indent_def)

lemma compact_level: "dump compact_style l v = dump compact_style k v"
proof (induction "compact_style" l v arbitrary: k rule: dump.induct)
  case (6 l vs)
  have "\<forall>x \<in> set vs. dump compact_style (Suc l) x = dump compact_style (Suc k) x"
    using 6 [of _ "Suc k"] by fastforce
  then have m: "map (dump compact_style (Suc l)) vs = map (dump compact_style (Suc k)) vs" by simp
  show ?case by (simp only: dump.simps m, simp only: compact_simps)
next
  case (7 l ms)
  have "\<forall>x \<in> set ms. dump compact_style (Suc l) (snd x) = dump compact_style (Suc k) (snd x)"
    using 7 [of _ "Suc k"] by fastforce
  then have m: "map (\<lambda>kv. quoted compact_style (fst kv) @ key_sep compact_style @ dump compact_style (Suc l) (snd kv)) ms
      = map (\<lambda>kv. quoted compact_style (fst kv) @ key_sep compact_style @ dump compact_style (Suc k) (snd kv)) ms" by simp
  show ?case by (simp only: dump.simps m, simp only: compact_simps)
qed simp_all

lemma fits_deeper: "fits d v \<Longrightarrow> d \<le> e \<Longrightarrow> fits e v"
  by (induction d v arbitrary: e rule: fits.induct) (auto intro: diff_le_mono)

lemma member_bytes:
  assumes "compact_bytes env (JObj ms) = Inr n" "map_of ms k = Some v"
  shows "\<exists>m. compact_bytes env v = Inr m \<and> m + length k + 5 \<le> n"
proof -
  let ?member = "\<lambda>kv. quoted compact_style (fst kv) @ key_sep compact_style @ dump compact_style (Suc 0) (snd kv)"
  have kv: "(k, v) \<in> set ms" by (rule map_of_SomeD [OF assms(2)])
  from assms(1) have f: "fits (c_enc_depth env) (JObj ms)" "n = length (dump compact_style 0 (JObj ms))"
    by (auto simp: compact_bytes_def dumps_compact_def split: if_splits)
  have "fits (c_enc_depth env - 1) v" using f(1) kv by auto
  then have "fits (c_enc_depth env) v" by (rule fits_deeper) simp
  then have m: "compact_bytes env v = Inr (length (dump compact_style (Suc 0) v))"
    using compact_level [of 0 v "Suc 0"] by (simp add: compact_bytes_def dumps_compact_def)
  have "length (?member (k, v)) \<le> length (join [44] (map ?member ms))" by (rule join_length) (use kv in force)
  moreover have "length (dump compact_style (Suc 0) v) + length k + 3 \<le> length (?member (k, v))"
    using quoted_length [of k] by (simp add: compact_simps)
  moreover have "n = length (join [44] (map ?member ms)) + 2"
    using kv f(2) by (auto simp: compact_simps)
  ultimately show ?thesis using m by simp
qed

section \<open>Properties\<close>

text \<open>C38: the request for every method asks for what the issuer advertises, and the benchmark reads back
  what was asked. Whenever \<open>worst_case\<close> makes a request of a discovery document, it has the same essential
  expression in both locations, one method for each advertised identifier, in order, with every advertised
  metadata member and property of it (and the time of the execution); and the methods that the benchmark
  expects to be executed, read from the request, are the advertised identifiers.\<close>

theorem worst_case_requested:
  assumes "worst_case repr document = Inr req"
  shows "\<exists>v ids ms d. map_of document (U ''amr_identifiers_supported'') = Some v \<and> iterate v = Inr ids
    \<and> requested req = Inr ids \<and> list_all2 (asks_for_all repr document) ids ms
    \<and> map_of req (U ''id_token'') = Some (JObj [(U ''amr_details'', JObj d)])
    \<and> map_of req (U ''userinfo'') = Some (JObj [(U ''amr_details'', JObj d)])
    \<and> d = [(U ''essential'', JBool True), (U ''all_of'', JArr (map JObj ms))]"
proof -
  from assms obtain v ids js where a: "map_of document (U ''amr_identifiers_supported'') = Some v" "iterate v = Inr ids"
    "detailed_methods repr document ids = Inr js" "req = located [(U ''all_of'', JArr js)]"
    by (auto simp: worst_case_def rbind_eq_Inr split: option.splits)
  from detailed_methods_Inr [OF a(3)] obtain ms where ms: "js = map JObj ms"
    "list_all2 (\<lambda>i m. detailed_method repr document i = Inr m) ids ms" by blast
  have all: "list_all2 (asks_for_all repr document) ids ms"
    using ms(2) by (rule list_all2_mono) (rule detailed_method_Inr)
  let ?d = "[(U ''essential'', JBool True), (U ''all_of'', JArr (map JObj ms))]"
  have r: "req = [(U ''id_token'', JObj [(U ''amr_details'', JObj ?d)]), (U ''userinfo'', JObj [(U ''amr_details'', JObj ?d)])]"
    by (simp add: a(4) ms(1) located_def spread_def Let_def)
  have "requested req = Inr ids"
    by (simp add: requested_def item_at_def r iterate_def identifiers_asked [OF all])
  with a(1,2) all r show ?thesis by (intro exI [of _ v] exI [of _ ids] exI [of _ ms] exI [of _ ?d]) simp
qed

definition sample_discovery :: "(ustr, json) dict" where
  "sample_discovery = [(U ''amr_identifiers_supported'', JArr [JStr (U ''pwd''), JStr (U ''otp'')]),
     (U ''pwd_metadata_supported'', JArr [JStr (U ''iss''), JStr (U ''location'')]),
     (U ''otp_properties_supported'', JArr [JStr (U ''otp_algorithm'')])]"

theorem worst_case_requested_witness:
  "\<exists>req. worst_case (\<lambda>v. []) sample_discovery = Inr req \<and> requested req = Inr [JStr (U ''pwd''), JStr (U ''otp'')]"
proof -
  obtain req where r: "worst_case (\<lambda>v. []) sample_discovery = Inr req"
    by (simp add: worst_case_def sample_discovery_def iterate_def detailed_method_def advertised_def py_str_def Let_def U_def)
  from worst_case_requested [OF r] show ?thesis
    using r by (auto simp: sample_discovery_def iterate_def)
qed

end
