(* ===== verification/Benchmark_Cycles.thy ===== *)
theory Benchmark_Cycles
  imports Compat_Matrix Benchmark_Schedule Benchmark_Requests
begin

text \<open>
  The cycles of the timing benchmark (evaluation/benchmark/timing-benchmark.py): \<open>check_projection\<close>,
  \<open>authorize\<close> (\<open>condition_authorize\<close> here), the three cycles, the \<open>Admin\<close> helper with its caches of tokens and
  user ids, and the warm-up rounds. Sessions are kept under the names of their conditions. What a
  request to the metrics endpoint measures is an argument of Benchmark_Schedule.

  Proved: what each cycle has established when it ends, and where the token of every administration request of a
  sequence of cycles comes from; Benchmark_Main extends this to the whole benchmark.
\<close>

section \<open>State\<close>

record 'n bench =
  bench_runner :: "'n runner"
  bench_sessions :: "(ustr, cookie list) dict"
  admin_tokens :: "(ustr, rat \<times> json) dict"
  admin_users :: "(ustr, json) dict"

text \<open>One constructor for each message of the script; \<open>HttpStatus\<close> is that of \<open>raise_for_status\<close>,
  \<open>BadValue\<close> a \<open>ValueError\<close>.\<close>

datatype cycle_exc = FromMatrix matrix_exc | WrongProjection ustr | WarmForms ustr "ustr list" | NoRefreshPage ustr
  | LoginForms ustr "ustr list" | HttpStatus nat | NoRealm | MissingKey
  | BadValue | RequestFault request_exc | WrongExecutions

definition lift_cycle :: "matrix_exc + 'a \<Rightarrow> cycle_exc + 'a" where
  "lift_cycle r = (case r of Inl e \<Rightarrow> Inl (FromMatrix e) | Inr x \<Rightarrow> Inr x)"

definition raise_for_status :: "reply \<Rightarrow> cycle_exc + unit" where
  "raise_for_status r =
     (if 400 \<le> status_code r \<and> status_code r < 600 then Inl (HttpStatus (status_code r)) else Inr ())"

definition configure_condition :: "condition \<Rightarrow> 'n runner \<Rightarrow> 'n runner" where
  "configure_condition c st = st\<lparr>client_url := cond_client c, issuer_url := cond_issuer c\<rparr>"

section \<open>The cycles\<close>

definition check_projection :: "py_env \<Rightarrow> (ustr \<Rightarrow> ustr) \<Rightarrow> condition \<Rightarrow> authorization_result \<Rightarrow> cycle_exc + unit" where
  "check_projection env unescape c r =
     rbind (lift_cycle (lift_run (json_section env unescape id_token_heading r))) (\<lambda>id_token.
     rbind (lift_cycle (lift_run (json_section env unescape userinfo_heading r))) (\<lambda>info.
     rbind (lift_cycle (py_in (U ''amr_details'') id_token)) (\<lambda>a.
     rbind (if a then lift_cycle (py_in (U ''amr_details'') info) else Inr False) (\<lambda>b.
       if b \<noteq> cond_details c then Inl (WrongProjection (cond_name c)) else Inr ()))))"

definition condition_authorize ::
  "py_env \<Rightarrow> (ustr \<Rightarrow> ustr) \<Rightarrow> 'n network \<Rightarrow> runner_config \<Rightarrow> condition \<Rightarrow> 'n runner \<Rightarrow> cookie list \<Rightarrow> bool
     \<Rightarrow> cycle_exc + ('n runner \<times> cookie list \<times> authorization_result)" where
  "condition_authorize env unescape nw cfg c st session prompt_login =
     rbind (lift_cycle (authorized env unescape nw cfg (configure_condition c st) (cond_request c) (Some session)
              prompt_login (cond_omit_claims c))) (\<lambda>(st', s', r).
     rbind (check_projection env unescape c r) (\<lambda>_.
       if \<not> prompt_login \<and> result_forms r \<noteq> [] then Inl (WarmForms (cond_name c) (result_forms r))
       else Inr (st', s', r)))"

definition session_of :: "condition \<Rightarrow> 'n bench \<Rightarrow> cycle_exc + cookie list" where
  "session_of c b = (case map_of (bench_sessions b) (cond_name c) of None \<Rightarrow> Inl MissingKey | Some s \<Rightarrow> Inr s)"

definition store_session :: "condition \<Rightarrow> 'n runner \<Rightarrow> cookie list \<Rightarrow> 'n bench \<Rightarrow> 'n bench" where
  "store_session c st s b =
     b\<lparr>bench_runner := st, bench_sessions := AList.update (cond_name c) s (bench_sessions b)\<rparr>"

definition sso_cycle ::
  "py_env \<Rightarrow> (ustr \<Rightarrow> ustr) \<Rightarrow> 'n network \<Rightarrow> runner_config \<Rightarrow> condition \<Rightarrow> 'n bench \<Rightarrow> cycle_exc + 'n bench" where
  "sso_cycle env unescape nw cfg c b =
     rbind (session_of c b) (\<lambda>s.
     rbind (condition_authorize env unescape nw cfg c (bench_runner b) s False) (\<lambda>(st', s', _).
       Inr (store_session c st' s' b)))"

text \<open>\<open>session.post(.../refresh)\<close> has no form data.\<close>

definition refresh_cycle ::
  "py_env \<Rightarrow> (ustr \<Rightarrow> ustr) \<Rightarrow> 'n network \<Rightarrow> condition \<Rightarrow> 'n bench \<Rightarrow> cycle_exc + 'n bench" where
  "refresh_cycle env unescape nw c b =
     rbind (session_of c b) (\<lambda>s.
     rbind (lift_cycle (lift_drive (request nw (bench_runner b) s (Post (cond_client c @ U ''/refresh'') []))))
       (\<lambda>(st', s', response).
     rbind (lift_cycle (lift_run (require_success unescape \<lparr>result_text = reply_text response, result_forms = []\<rparr>))) (\<lambda>r.
     if \<not> contains (reply_text response) (U ''Refresh token response'') then Inl (NoRefreshPage (cond_name c))
     else rbind (check_projection env unescape c r) (\<lambda>_. Inr (store_session c st' s' b)))))"

definition login_user :: "runner_config \<Rightarrow> runner_config" where
  "login_user cfg = cfg\<lparr>alice := U ''otp-user'', alice_password := U ''Otp-user-password-123''\<rparr>"

definition login_cycle ::
  "py_env \<Rightarrow> (ustr \<Rightarrow> ustr) \<Rightarrow> 'n network \<Rightarrow> runner_config \<Rightarrow> condition \<Rightarrow> 'n bench \<Rightarrow> cycle_exc + 'n bench" where
  "login_cycle env unescape nw cfg c b =
     rbind (lift_cycle (authorized env unescape nw (login_user cfg) (configure_condition c (bench_runner b)) (cond_request c)
              (Some []) True (cond_omit_claims c))) (\<lambda>(st', _, r).
     if result_forms r \<noteq> [login_form] then Inl (LoginForms (cond_name c) (result_forms r))
     else rbind (check_projection env unescape c r) (\<lambda>_. Inr (b\<lparr>bench_runner := st'\<rparr>)))"

section \<open>The administration helper\<close>

definition token_url :: "ustr \<Rightarrow> ustr" where
  "token_url base = base @ U ''/realms/master/protocol/openid-connect/token''"

definition bearer :: "ustr \<Rightarrow> (ustr, ustr) dict" where
  "bearer token = [(U ''Authorization'', U ''Bearer '' @ token)]"

text \<open>\<open>Admin.headers\<close>: a token is used for 45 seconds.\<close>

definition admin_headers ::
  "py_env \<Rightarrow> (json \<Rightarrow> ustr) \<Rightarrow> 'n network \<Rightarrow> ustr \<Rightarrow> 'n bench \<Rightarrow> cycle_exc + ('n bench \<times> (ustr, ustr) dict)" where
  "admin_headers env str_of nw base b =
     (case (case map_of (admin_tokens b) base of None \<Rightarrow> (0, JStr []) | Some x \<Rightarrow> x) of (issued, token) \<Rightarrow>
      case monotonic nw (net (bench_runner b)) of (n, now) \<Rightarrow>
        (let st1 = (bench_runner b)\<lparr>net := n\<rparr> in
         if 45 < now - issued then
           rbind (lift_cycle (plain_request nw st1 (Post (token_url base) admin_data))) (\<lambda>(st2, response).
           rbind (raise_for_status response) (\<lambda>_.
           rbind (lift_cycle (reply_json env response)) (\<lambda>v.
           rbind (lift_cycle (py_item v (U ''access_token''))) (\<lambda>fresh.
             case monotonic nw (net st2) of (n2, t) \<Rightarrow>
               Inr (b\<lparr>bench_runner := st2\<lparr>net := n2\<rparr>, admin_tokens := AList.update base (t, fresh) (admin_tokens b)\<rparr>,
                    bearer (str_of fresh))))))
         else Inr (b\<lparr>bench_runner := st1\<rparr>, bearer (str_of token))))"

definition users_url :: "ustr \<Rightarrow> ustr \<Rightarrow> ustr" where
  "users_url base realm = base @ U ''/admin/realms/'' @ realm @ U ''/users''"

text \<open>The id of the login user, asked for once for each issuer.\<close>

definition admin_user ::
  "py_env \<Rightarrow> (json \<Rightarrow> ustr) \<Rightarrow> 'n network \<Rightarrow> condition \<Rightarrow> ustr \<Rightarrow> ustr \<Rightarrow> 'n bench \<Rightarrow> cycle_exc + ('n bench \<times> json)" where
  "admin_user env str_of nw c base realm b =
     (case map_of (admin_users b) (cond_issuer c) of
        Some i \<Rightarrow> Inr (b, i)
      | None \<Rightarrow>
          rbind (admin_headers env str_of nw base b) (\<lambda>(b1, headers).
          rbind (lift_cycle (plain_request nw (bench_runner b1) (GetWith (users_url base realm) headers
              [(U ''username'', U ''otp-user''), (U ''exact'', U ''true'')]))) (\<lambda>(st', response).
          rbind (lift_cycle (reply_json env response)) (\<lambda>users.
          rbind (lift_cycle (py_first users)) (\<lambda>user.
          rbind (lift_cycle (py_item user (U ''id''))) (\<lambda>i.
            Inr (b1\<lparr>bench_runner := st', admin_users := AList.update (cond_issuer c) i (admin_users b1)\<rparr>, i)))))))"

definition admin_logout ::
  "py_env \<Rightarrow> (json \<Rightarrow> ustr) \<Rightarrow> 'n network \<Rightarrow> condition \<Rightarrow> 'n bench \<Rightarrow> cycle_exc + 'n bench" where
  "admin_logout env str_of nw c b =
     (case (before (U ''/realms/'') (cond_issuer c), after (U ''/realms/'') (cond_issuer c)) of
        (Some base, Some realm) \<Rightarrow>
          rbind (admin_user env str_of nw c base realm b) (\<lambda>(b1, i).
          rbind (admin_headers env str_of nw base b1) (\<lambda>(b2, headers).
          rbind (lift_cycle (plain_request nw (bench_runner b2)
              (PostWith (users_url base realm @ U ''/'' @ str_of i @ U ''/logout'') headers))) (\<lambda>(st', response).
          rbind (raise_for_status response) (\<lambda>_. Inr (b2\<lparr>bench_runner := st'\<rparr>)))))
      | _ \<Rightarrow> Inl NoRealm)"

section \<open>Sequences of cycles\<close>

definition cycle_of ::
  "py_env \<Rightarrow> (ustr \<Rightarrow> ustr) \<Rightarrow> 'n network \<Rightarrow> runner_config \<Rightarrow> ustr \<Rightarrow> condition \<Rightarrow> 'n bench \<Rightarrow> cycle_exc + 'n bench" where
  "cycle_of env unescape nw cfg kind c b =
     (if kind = U ''sso'' then sso_cycle env unescape nw cfg c b
      else if kind = U ''refresh'' then refresh_cycle env unescape nw c b
      else if kind = U ''login'' then login_cycle env unescape nw cfg c b
      else Inl MissingKey)"

definition logout_after_login ::
  "py_env \<Rightarrow> (json \<Rightarrow> ustr) \<Rightarrow> 'n network \<Rightarrow> ustr \<Rightarrow> condition \<Rightarrow> 'n bench \<Rightarrow> cycle_exc + 'n bench" where
  "logout_after_login env str_of nw kind c b =
     (if kind = U ''login'' then admin_logout env str_of nw c b else Inr b)"

definition execute ::
  "py_env \<Rightarrow> (ustr \<Rightarrow> ustr) \<Rightarrow> (json \<Rightarrow> ustr) \<Rightarrow> 'n network \<Rightarrow> runner_config \<Rightarrow> ustr \<Rightarrow> condition \<Rightarrow> 'n bench
     \<Rightarrow> cycle_exc + 'n bench" where
  "execute env unescape str_of nw cfg kind c b =
     rbind (cycle_of env unescape nw cfg kind c b) (logout_after_login env str_of nw kind c)"

fun run_cycles ::
  "py_env \<Rightarrow> (ustr \<Rightarrow> ustr) \<Rightarrow> (json \<Rightarrow> ustr) \<Rightarrow> 'n network \<Rightarrow> runner_config \<Rightarrow> (ustr \<times> condition) list \<Rightarrow> 'n bench
     \<Rightarrow> cycle_exc + 'n bench" where
  "run_cycles env unescape str_of nw cfg [] b = Inr b"
| "run_cycles env unescape str_of nw cfg ((kind, c) # slots) b =
     rbind (execute env unescape str_of nw cfg kind c b) (run_cycles env unescape str_of nw cfg slots)"

text \<open>The warm-up rounds; \<open>order\<close> is that of \<open>random.sample\<close>.\<close>

fun warm_up ::
  "nat \<Rightarrow> py_env \<Rightarrow> (ustr \<Rightarrow> ustr) \<Rightarrow> (json \<Rightarrow> ustr) \<Rightarrow> 'n network \<Rightarrow> runner_config
     \<Rightarrow> (nat \<Rightarrow> (ustr \<times> condition) list \<Rightarrow> (ustr \<times> condition) list) \<Rightarrow> (ustr \<times> condition) list \<Rightarrow> 'n bench
     \<Rightarrow> cycle_exc + 'n bench" where
  "warm_up 0 env unescape str_of nw cfg order slots b = Inr b"
| "warm_up (Suc n) env unescape str_of nw cfg order slots b =
     rbind (warm_up n env unescape str_of nw cfg order slots b) (run_cycles env unescape str_of nw cfg (order n slots))"

section \<open>What a cycle has established\<close>

lemma lift_cycle_Inr [simp]: "lift_cycle r = Inr x \<longleftrightarrow> r = Inr x"
  by (simp add: lift_cycle_def split: sum.splits)

lemma raise_for_status_Inr [simp]: "raise_for_status r = Inr u \<longleftrightarrow> \<not> (400 \<le> status_code r \<and> status_code r < 600)"
  by (simp add: raise_for_status_def)

text \<open>The details are in both tokens, for a condition that expects them, and otherwise not in both.\<close>

definition projected :: "py_env \<Rightarrow> (ustr \<Rightarrow> ustr) \<Rightarrow> condition \<Rightarrow> authorization_result \<Rightarrow> bool" where
  "projected env unescape c r \<longleftrightarrow>
     (carries env unescape id_token_heading r \<and> carries env unescape userinfo_heading r) = cond_details c"

lemma check_projection_Inr: "check_projection env unescape c r = Inr u \<Longrightarrow> projected env unescape c r"
  by (auto simp: check_projection_def rbind_eq_Inr projected_def carries_def split: if_splits)

lemma sso_cycle_Inr:
  assumes "sso_cycle env unescape nw cfg c b = Inr b'"
  shows "\<exists>s st' s' r. map_of (bench_sessions b) (cond_name c) = Some s \<and> b' = store_session c st' s' b
    \<and> authorize env nw cfg (configure_condition c (bench_runner b)) (cond_request c) (Some s) False (cond_omit_claims c)
        False False = Inr (st', s', r)
    \<and> result_forms r = [] \<and> require_success unescape r = Inr r \<and> projected env unescape c r"
  using assms
  by (auto simp: sso_cycle_def session_of_def condition_authorize_def authorized_Inr rbind_eq_Inr
      dest!: check_projection_Inr split: option.splits if_splits)

lemma refresh_cycle_Inr:
  assumes "refresh_cycle env unescape nw c b = Inr b'"
  shows "\<exists>s st' s' r. map_of (bench_sessions b) (cond_name c) = Some s \<and> b' = store_session c st' s' b
    \<and> request nw (bench_runner b) s (Post (cond_client c @ U ''/refresh'') []) = Inr (st', s', r)
    \<and> contains (reply_text r) (U ''Refresh token response'')
    \<and> projected env unescape c \<lparr>result_text = reply_text r, result_forms = []\<rparr>"
  using assms
  by (fastforce simp: refresh_cycle_def session_of_def rbind_eq_Inr require_success_def
      dest!: check_projection_Inr split: option.splits if_splits)

lemma login_cycle_Inr:
  assumes "login_cycle env unescape nw cfg c b = Inr b'"
  shows "\<exists>st' s' r. b' = b\<lparr>bench_runner := st'\<rparr>
    \<and> authorize env nw (login_user cfg) (configure_condition c (bench_runner b)) (cond_request c) (Some []) True
        (cond_omit_claims c) False False = Inr (st', s', r)
    \<and> result_forms r = [login_form] \<and> require_success unescape r = Inr r \<and> projected env unescape c r"
  using assms
  by (auto simp: login_cycle_def authorized_Inr rbind_eq_Inr dest!: check_projection_Inr split: if_splits)

section \<open>Where the administration tokens come from\<close>

abbreviation log_of :: "('n \<times> (http_call \<times> reply) list) bench \<Rightarrow> (http_call \<times> reply) list" where
  "log_of b \<equiv> snd (net (bench_runner b))"

text \<open>The requests of the helper, with their address and headers.\<close>

definition admin_request :: "http_call \<Rightarrow> (ustr \<times> (ustr, ustr) dict) option" where
  "admin_request call = (case call of GetWith u h p \<Rightarrow> Some (u, h) | PostWith u h \<Rightarrow> Some (u, h) | _ \<Rightarrow> None)"

definition issued_by :: "py_env \<Rightarrow> (http_call \<times> reply) list \<Rightarrow> ustr \<Rightarrow> json \<Rightarrow> bool" where
  "issued_by env exch base token \<longleftrightarrow>
     (\<exists>r ms. (Post (token_url base) admin_data, r) \<in> set exch \<and> \<not> (400 \<le> status_code r \<and> status_code r < 600)
        \<and> loads env (reply_text r) = Inr (JObj ms) \<and> map_of ms (U ''access_token'') = Some token)"

text \<open>
  The headers of a request are granted if they carry a token that its own server has issued before. Until
  \<open>time.monotonic()\<close> exceeds 45, the helper's default \<open>(0.0, "")\<close> passes for a token, so they can
  also be blank then.
\<close>

definition granted :: "py_env \<Rightarrow> (json \<Rightarrow> ustr) \<Rightarrow> (http_call \<times> reply) list \<Rightarrow> ustr \<Rightarrow> (ustr, ustr) dict \<Rightarrow> bool" where
  "granted env str_of exch u h \<longleftrightarrow>
     (\<exists>base token. startswith u (base @ U ''/admin/realms/'') \<and> h = bearer (str_of token) \<and> issued_by env exch base token)"

definition blank :: "(json \<Rightarrow> ustr) \<Rightarrow> 'n network \<Rightarrow> (ustr, ustr) dict \<Rightarrow> bool" where
  "blank str_of nw h \<longleftrightarrow> h = bearer (str_of (JStr [])) \<and> (\<exists>n. snd (monotonic nw n) \<le> 45)"

text \<open>Every administration request of a log has such headers.\<close>

definition vouched :: "py_env \<Rightarrow> (json \<Rightarrow> ustr) \<Rightarrow> 'n network \<Rightarrow> (http_call \<times> reply) list \<Rightarrow> bool" where
  "vouched env str_of nw exch \<longleftrightarrow>
     (\<forall>i < length exch. \<forall>u h. admin_request (fst (exch ! i)) = Some (u, h) \<longrightarrow>
        granted env str_of (take i exch) u h \<or> blank str_of nw h)"

definition quiet :: "(http_call \<times> reply) list \<Rightarrow> bool" where
  "quiet exch \<longleftrightarrow> (\<forall>e \<in> set exch. admin_request (fst e) = None)"

definition tokens_ok :: "py_env \<Rightarrow> ('n \<times> (http_call \<times> reply) list) bench \<Rightarrow> bool" where
  "tokens_ok env b \<longleftrightarrow> (\<forall>(base, t, token) \<in> set (admin_tokens b). issued_by env (log_of b) base token)"

lemma quiet_simps [simp]: "quiet []" "quiet (e # l) \<longleftrightarrow> admin_request (fst e) = None \<and> quiet l"
  "quiet (k @ l) \<longleftrightarrow> quiet k \<and> quiet l"
  by (auto simp: quiet_def)

lemma admin_request_simps [simp]: "admin_request (Post u d) = None" "admin_request (Get u h) = None"
  "admin_request (GetWith u h p) = Some (u, h)" "admin_request (PostWith u h) = Some (u, h)"
  by (simp_all add: admin_request_def)

lemma issued_mono: "issued_by env l base token \<Longrightarrow> issued_by env (l @ m) base token"
  by (auto simp: issued_by_def)

lemma vouched_Nil [simp]: "vouched env str_of nw []"
  by (simp add: vouched_def)

lemma vouched_snoc:
  "vouched env str_of nw (l @ [e]) \<longleftrightarrow> vouched env str_of nw l \<and>
     (\<forall>u h. admin_request (fst e) = Some (u, h) \<longrightarrow> granted env str_of l u h \<or> blank str_of nw h)"
  unfolding vouched_def length_append_singleton less_Suc_eq by (auto simp: nth_append)

lemma vouched_quiet: "vouched env str_of nw l \<Longrightarrow> quiet m \<Longrightarrow> vouched env str_of nw (l @ m)"
proof (induction m rule: rev_induct)
  case (snoc e m)
  then show ?case using vouched_snoc [of env str_of nw "l @ m" e] by simp
qed simp

lemma tokens_mono:
  "tokens_ok env b \<Longrightarrow> log_of b' = log_of b @ l \<Longrightarrow> admin_tokens b' = admin_tokens b \<Longrightarrow> tokens_ok env b'"
  using issued_mono by (fastforce simp: tokens_ok_def)

lemma set_update_dict: "kv \<in> set (AList.update k v d) \<Longrightarrow> kv = (k, v) \<or> kv \<in> set d"
  by (induction d) (auto split: if_splits)

text \<open>A flow sends no administration request.\<close>

lemma conversation_quiet:
  "conversation env nw cfg None r k exch screens final \<Longrightarrow> quiet exch"
  by (induction rule: conversation.induct) (auto simp: answers_def code_found_def post_form_def Let_def)

lemma flow_quiet:
  assumes "authorize env (logged nw) cfg st cl session pl oc off False = Inr (st', s', r)"
  shows "\<exists>l. snd (net st') = snd (net st) @ l \<and> quiet l"
proof -
  from assms obtain data st1 s1 r0 where a:
    "request (logged nw) st (case session of None \<Rightarrow> [] | Some s \<Rightarrow> s) (Post (client_url st @ U ''/login'') data) = Inr (st1, s1, r0)"
    "drive 16 env (logged nw) cfg None st1 s1 r0 [] = Inr (st', s', r)"
    by (auto simp: authorize_def previous_messages_def rbind_eq_Inr simp del: drive.simps split: if_splits)
  from drive_conversation [OF a(2)] obtain k exch screens final where
    "snd (net st') = snd (net st1) @ exch" "conversation env nw cfg None r0 k exch screens final" by blast
  with request_logged(1) [OF a(1)] conversation_quiet show ?thesis by fastforce
qed

lemma cycle_quiet:
  assumes "sso_cycle env unescape (logged nw) cfg c b = Inr b' \<or> refresh_cycle env unescape (logged nw) c b = Inr b'
    \<or> login_cycle env unescape (logged nw) cfg c b = Inr b'"
  shows "admin_tokens b' = admin_tokens b \<and> (\<exists>l. log_of b' = log_of b @ l \<and> quiet l)"
  using assms
proof (elim disjE)
  assume "sso_cycle env unescape (logged nw) cfg c b = Inr b'"
  from sso_cycle_Inr [OF this] show ?thesis
    using flow_quiet [of env nw cfg "configure_condition c (bench_runner b)"]
    by (fastforce simp: store_session_def configure_condition_def)
next
  assume "refresh_cycle env unescape (logged nw) c b = Inr b'"
  from refresh_cycle_Inr [OF this] show ?thesis by (auto simp: store_session_def dest!: request_logged(1))
next
  assume "login_cycle env unescape (logged nw) cfg c b = Inr b'"
  from login_cycle_Inr [OF this] show ?thesis
    using flow_quiet [of env nw "login_user cfg" "configure_condition c (bench_runner b)"]
    by (fastforce simp: configure_condition_def)
qed

lemma admin_headers_default:
  assumes "map_of (admin_tokens b) base = None" "snd (monotonic nw (net (bench_runner b))) \<le> 45"
  shows "\<exists>b'. admin_headers env str_of nw base b = Inr (b', bearer (str_of (JStr [])))"
  using assms by (auto simp: admin_headers_def split: prod.splits)

lemma admin_headers_ok:
  assumes "admin_headers env str_of (logged nw) base b = Inr (b', headers)" "tokens_ok env b"
  shows "tokens_ok env b' \<and> (\<exists>l. log_of b' = log_of b @ l \<and> quiet l)
    \<and> ((\<exists>token. headers = bearer (str_of token) \<and> issued_by env (log_of b') base token) \<or> blank str_of nw headers)"
proof -
  let ?held = "case map_of (admin_tokens b) base of None \<Rightarrow> (0, JStr []) | Some x \<Rightarrow> x"
  obtain issued token where held: "?held = (issued, token)" by (cases ?held)
  obtain n now where now: "monotonic (logged nw) (net (bench_runner b)) = (n, now)"
    by (cases "monotonic (logged nw) (net (bench_runner b))")
  have log_n: "snd n = log_of b" "now = snd (monotonic nw (fst (net (bench_runner b))))"
    using now by (auto simp: logged_def split: prod.splits)
  show ?thesis
  proof (cases "45 < now - issued")
    case True
    with assms(1) obtain st2 r v fresh where a:
      "plain_request (logged nw) ((bench_runner b)\<lparr>net := n\<rparr>) (Post (token_url base) admin_data) = Inr (st2, r)"
      "\<not> (400 \<le> status_code r \<and> status_code r < 600)" "reply_json env r = Inr v" "py_item v (U ''access_token'') = Inr fresh"
      "b' = b\<lparr>bench_runner := st2\<lparr>net := fst (monotonic (logged nw) (net st2))\<rparr>,
         admin_tokens := AList.update base (snd (monotonic (logged nw) (net st2)), fresh) (admin_tokens b)\<rparr>"
      "headers = bearer (str_of fresh)"
      by (auto simp: admin_headers_def held now Let_def rbind_eq_Inr case_prod_beta)
    obtain n2 t where t: "monotonic (logged nw) (net st2) = (n2, t)" by (cases "monotonic (logged nw) (net st2)")
    have l: "log_of b' = log_of b @ [(Post (token_url base) admin_data, r)]"
      using plain_request_logged [OF a(1)] log_n(1) a(5) t by (auto simp: logged_def split: prod.splits)
    obtain ms where "v = JObj ms" "map_of ms (U ''access_token'') = Some fresh"
      using a(4) by (cases v) (auto simp: py_item_def split: option.splits)
    then have i: "issued_by env (log_of b') base fresh"
      using a(2,3) unfolding issued_by_def l by (fastforce simp: reply_json_def split: sum.splits)
    have "tokens_ok env b'"
      using assms(2) i a(5) t unfolding tokens_ok_def l
      by (fastforce dest: set_update_dict intro: issued_mono)
    with i l a(6) show ?thesis by auto
  next
    case False
    with assms(1) have b': "b' = b\<lparr>bench_runner := (bench_runner b)\<lparr>net := n\<rparr>\<rparr>" "headers = bearer (str_of token)"
      by (auto simp: admin_headers_def held now Let_def)
    then have l: "log_of b' = log_of b" using log_n(1) by simp
    have "(\<exists>token. headers = bearer (str_of token) \<and> issued_by env (log_of b) base token) \<or> blank str_of nw headers"
    proof (cases "map_of (admin_tokens b) base")
      case None
      with held have "issued = 0" "token = JStr []" by simp_all
      with False log_n(2) have "snd (monotonic nw (fst (net (bench_runner b)))) \<le> 45" by simp
      with \<open>token = JStr []\<close> b'(2) show ?thesis unfolding blank_def by blast
    next
      case (Some x)
      with held have "(base, issued, token) \<in> set (admin_tokens b)" by (simp add: map_of_SomeD)
      then have "issued_by env (log_of b) base token" using assms(2) by (auto simp: tokens_ok_def)
      with b'(2) show ?thesis by blast
    qed
    with l b'(1) assms(2) show ?thesis by (auto simp: tokens_ok_def)
  qed
qed

lemma admin_sent:
  assumes "plain_request (logged nw) (bench_runner b) call = Inr (st', r)" "admin_request call = Some (u, h)"
    and "startswith u (base @ U ''/admin/realms/'')"
    and "(\<exists>token. h = bearer (str_of token) \<and> issued_by env (log_of b) base token) \<or> blank str_of nw h"
    and "vouched env str_of nw (log_of b)" "tokens_ok env b"
  shows "vouched env str_of nw (snd (net st')) \<and> (admin_tokens b' = admin_tokens b \<longrightarrow> bench_runner b' = st' \<longrightarrow> tokens_ok env b')"
proof -
  have l: "snd (net st') = log_of b @ [(call, r)]" by (rule plain_request_logged [OF assms(1)])
  have "vouched env str_of nw (snd (net st'))" unfolding l vouched_snoc granted_def using assms(2-5) by auto
  moreover have "tokens_ok env b'" if "admin_tokens b' = admin_tokens b" "bench_runner b' = st'"
    using tokens_mono [OF assms(6), of b' "[(call, r)]"] that l by simp
  ultimately show ?thesis by blast
qed

lemma users_url_admin: "startswith (users_url base realm @ t) (base @ U ''/admin/realms/'')"
  by (simp add: users_url_def startswith_iff)

text \<open>The invariant of the benchmark: its requests are vouched for, and so are the tokens it keeps.\<close>

definition admin_ok :: "py_env \<Rightarrow> (json \<Rightarrow> ustr) \<Rightarrow> 'n network \<Rightarrow> ('n \<times> (http_call \<times> reply) list) bench \<Rightarrow> bool" where
  "admin_ok env str_of nw b \<longleftrightarrow> vouched env str_of nw (log_of b) \<and> tokens_ok env b"

lemma admin_ok_quiet:
  "admin_ok env str_of nw b \<Longrightarrow> log_of b' = log_of b @ l \<Longrightarrow> quiet l \<Longrightarrow> admin_tokens b' = admin_tokens b \<Longrightarrow> admin_ok env str_of nw b'"
  using vouched_quiet [of env str_of nw "log_of b" l] tokens_mono [of env b b' l] by (simp add: admin_ok_def)

lemma admin_headers_kept:
  assumes "admin_headers env str_of (logged nw) base b = Inr (b', headers)" "admin_ok env str_of nw b"
  shows "admin_ok env str_of nw b'
    \<and> ((\<exists>token. headers = bearer (str_of token) \<and> issued_by env (log_of b') base token) \<or> blank str_of nw headers)"
  using admin_headers_ok [OF assms(1)] assms(2) vouched_quiet unfolding admin_ok_def by fastforce

lemma admin_user_ok:
  assumes "admin_user env str_of (logged nw) c base realm b = Inr (b', i)" "admin_ok env str_of nw b"
  shows "admin_ok env str_of nw b'"
proof (cases "map_of (admin_users b) (cond_issuer c)")
  case None
  with assms(1) obtain b1 headers p st' r where a: "admin_headers env str_of (logged nw) base b = Inr (b1, headers)"
    "plain_request (logged nw) (bench_runner b1) (GetWith (users_url base realm) headers p) = Inr (st', r)"
    "bench_runner b' = st'" "admin_tokens b' = admin_tokens b1"
    by (auto simp: admin_user_def rbind_eq_Inr)
  from admin_headers_kept [OF a(1) assms(2)] admin_sent [OF a(2), of "users_url base realm" headers base str_of env b']
    a(3,4) users_url_admin [of base realm "[]"]
  show ?thesis by (simp add: admin_ok_def)
qed (use assms in \<open>simp add: admin_user_def\<close>)

lemma admin_logout_ok:
  assumes "admin_logout env str_of (logged nw) c b = Inr b'" "admin_ok env str_of nw b"
  shows "admin_ok env str_of nw b'"
proof -
  from assms(1) obtain base realm b1 i b2 headers st' r where
    a: "admin_user env str_of (logged nw) c base realm b = Inr (b1, i)"
    "admin_headers env str_of (logged nw) base b1 = Inr (b2, headers)"
    "plain_request (logged nw) (bench_runner b2) (PostWith (users_url base realm @ U ''/'' @ str_of i @ U ''/logout'') headers) = Inr (st', r)"
    "b' = b2\<lparr>bench_runner := st'\<rparr>"
    by (auto simp: admin_logout_def rbind_eq_Inr split: option.splits)
  from admin_headers_kept [OF a(2) admin_user_ok [OF a(1) assms(2)]] admin_sent [OF a(3), of _ headers base str_of env b']
    a(4) users_url_admin [of base realm]
  show ?thesis by (simp add: admin_ok_def)
qed

lemma cycle_of_ok:
  assumes "cycle_of env unescape (logged nw) cfg kind c b = Inr b'" "admin_ok env str_of nw b"
  shows "admin_ok env str_of nw b'"
proof -
  have "sso_cycle env unescape (logged nw) cfg c b = Inr b' \<or> refresh_cycle env unescape (logged nw) c b = Inr b'
      \<or> login_cycle env unescape (logged nw) cfg c b = Inr b'"
    using assms(1) by (auto simp: cycle_of_def split: if_splits)
  from cycle_quiet [OF this] admin_ok_quiet [OF assms(2)] show ?thesis by blast
qed

lemma logout_after_login_ok:
  assumes "logout_after_login env str_of (logged nw) kind c b = Inr b'" "admin_ok env str_of nw b"
  shows "admin_ok env str_of nw b'"
  using assms admin_logout_ok [OF _ assms(2)] by (auto simp: logout_after_login_def split: if_splits)

lemma execute_ok:
  assumes "execute env unescape str_of (logged nw) cfg kind c b = Inr b'" "admin_ok env str_of nw b"
  shows "admin_ok env str_of nw b'"
  using assms(1) cycle_of_ok [OF _ assms(2)] logout_after_login_ok by (fastforce simp: execute_def rbind_eq_Inr)

lemma run_cycles_ok:
  "run_cycles env unescape str_of (logged nw) cfg slots b = Inr b' \<Longrightarrow> admin_ok env str_of nw b \<Longrightarrow> admin_ok env str_of nw b'"
proof (induction slots arbitrary: b)
  case (Cons s slots)
  obtain kind c where s: "s = (kind, c)" by (cases s)
  with Cons.prems(1) obtain b1 where b1: "execute env unescape str_of (logged nw) cfg kind c b = Inr b1"
    "run_cycles env unescape str_of (logged nw) cfg slots b1 = Inr b'" by (auto simp: rbind_eq_Inr)
  show ?case by (rule Cons.IH [OF b1(2) execute_ok [OF b1(1) Cons.prems(2)]])
qed simp

lemma warm_up_ok:
  "warm_up n env unescape str_of (logged nw) cfg order slots b = Inr b' \<Longrightarrow> admin_ok env str_of nw b \<Longrightarrow> admin_ok env str_of nw b'"
proof (induction n arbitrary: b')
  case (Suc n)
  then obtain b1 where "warm_up n env unescape str_of (logged nw) cfg order slots b = Inr b1"
    "run_cycles env unescape str_of (logged nw) cfg (order n slots) b1 = Inr b'" by (auto simp: rbind_eq_Inr)
  with Suc run_cycles_ok show ?case by blast
qed simp

section \<open>A cycle with its logout\<close>

definition login_network :: "reply list network" where
  "login_network = scripted\<lparr>monotonic := (\<lambda>rs. (rs, 100)),
     tokenize := (\<lambda>s. if s = U ''form'' then [StartTag (U ''form'') [(U ''id'', Some login_form)],
        StartTag (U ''input'') [(U ''name'', Some (U ''password''))], EndTag (U ''form'')] else [])\<rparr>"

definition login_replies :: "reply list" where
  "login_replies = [redirect_reply, json_reply (U ''form''), json_reply plain_page,
     json_reply (U ''{\"access_token\":\"t\"}''), json_reply (U ''[{\"id\":\"u\"}]''), json_reply []]"

definition login_bench :: "(reply list \<times> (http_call \<times> reply) list) bench" where
  "login_bench = \<lparr>bench_runner = matrix_runner (login_replies, []), bench_sessions = [], admin_tokens = [], admin_users = []\<rparr>"

lemma login_network_request [simp]:
  "net st = (r # rs, l) \<Longrightarrow>
     request (logged login_network) st session call = Inr (st\<lparr>net := (rs, l @ [(call, r)])\<rparr>, session, r)"
  by (simp add: request_def logged_def scripted_def login_network_def)

lemma login_network_plain [simp]:
  "net st = (r # rs, l) \<Longrightarrow> plain_request (logged login_network) st call = Inr (st\<lparr>net := (rs, l @ [(call, r)])\<rparr>, r)"
  by (simp add: plain_request_def lift_drive_def)

lemma login_clock: "monotonic (logged login_network) n = (n, 100)"
  by (cases n) (simp add: logged_def login_network_def)

lemma login_forms:
  "parse_forms (tokenize login_network (U ''form'')) =
     [(login_form, \<lparr>form_action = Some [], form_values = [(U ''password'', Some [])]\<rparr>)]"
  "t \<noteq> U ''form'' \<Longrightarrow> parse_forms (tokenize login_network t) = []"
  by (simp_all add: login_network_def parse_forms_def attribute_def dict_of_def true_text_def)

definition official :: condition where
  "official = hd CONDITIONS"

lemma official_members [simp]: "cond_request official = []" "cond_omit_claims official" "\<not> cond_details official"
  by (simp_all add: official_def CONDITIONS_def)

lemma official_address: "before (U ''/realms/'') (cond_issuer official) = Some (U ''http://localhost:8188'')"
  "after (U ''/realms/'') (cond_issuer official) = Some (U ''oidc4ac'')"
  by (simp_all add: official_def CONDITIONS_def U_def)

lemma plain_page_other: "plain_page \<noteq> U ''form''"
  by (simp add: plain_page_def sample_page_def U_def)

lemma sample_login_flow:
  assumes "net st = (redirect_reply # json_reply (U ''form'') # json_reply plain_page # rs, l)"
  shows "\<exists>st' l'. authorize sample_env (logged login_network) cfg st [] (Some []) True True False False
     = Inr (st', [], \<lparr>result_text = plain_page, result_forms = [login_form]\<rparr>)
     \<and> net st' = (rs, l') \<and> length l' = length l + 3"
proof -
  have t: "terminal_page (json_reply plain_page)" unfolding plain_page_def by (rule marked_page)
  show ?thesis
    using assms t login_forms(2) [OF plain_page_other]
    by (simp add: authorize_def previous_messages_def login_data_def redirect_reply_def json_reply_def Let_def
        login_forms(1) numeral_eq_Suc allow_loopback_secure_cookies_def)
qed

lemma sample_login_cycle:
  assumes "net (bench_runner b) = (redirect_reply # json_reply (U ''form'') # json_reply plain_page # rs, l)"
  shows "\<exists>st' l'. login_cycle sample_env (\<lambda>s. s) (logged login_network) cfg official b = Inr (b\<lparr>bench_runner := st'\<rparr>)
    \<and> net st' = (rs, l') \<and> length l' = length l + 3"
proof -
  from sample_login_flow [of "configure_condition official (bench_runner b)" rs l "login_user cfg"] assms obtain st' l' where a:
    "authorize sample_env (logged login_network) (login_user cfg) (configure_condition official (bench_runner b)) [] (Some [])
       True True False False = Inr (st', [], \<lparr>result_text = plain_page, result_forms = [login_form]\<rparr>)" "net st' = (rs, l')" "length l' = length l + 3"
    by (auto simp: configure_condition_def)
  have "json_section sample_env (\<lambda>s. s) id_token_heading \<lparr>result_text = plain_page, result_forms = fs\<rparr> = Inr (JObj [])"
    "json_section sample_env (\<lambda>s. s) userinfo_heading \<lparr>result_text = plain_page, result_forms = fs\<rparr> = Inr (JObj [])" for fs
    by (simp_all add: json_section_def page_sections page_values)
  moreover have "require_success (\<lambda>s. s) \<lparr>result_text = plain_page, result_forms = fs\<rparr>
      = Inr \<lparr>result_text = plain_page, result_forms = fs\<rparr>" for fs
    using contains_middle [of "[]" "U ''Verified authentication context''"]
    by (simp add: require_success_def no_public_error) (simp add: plain_page_def sample_page_def)
  ultimately show ?thesis
    using a by (simp add: login_cycle_def authorized_def lift_cycle_def lift_drive_def check_projection_def del: lift_cycle_Inr) auto
qed

lemma login_values_text:
  "loads sample_env (U ''{\"access_token\":\"t\"}'') = Inr (JObj [(U ''access_token'', JStr (U ''t''))])"
  "loads sample_env (U ''[{\"id\":\"u\"}]'') = Inr (JArr [JObj [(U ''id'', JStr (U ''u''))]])"
  by (simp_all add: json_eval cong: json_eval_cong)

lemma sample_logout:
  assumes "net (bench_runner b) = (drop 3 login_replies, l)" "admin_tokens b = []" "admin_users b = []"
  shows "\<exists>b' e1 e2 u h r. admin_logout sample_env (\<lambda>v. []) (logged login_network) official b = Inr b'
    \<and> log_of b' = l @ [e1, e2, (PostWith u h, r)]"
  using assms
  by (simp add: admin_logout_def admin_user_def admin_headers_def official_address login_clock login_replies_def
      reply_json_def login_values_text py_item_def py_first_def lift_cycle_def raise_for_status_def json_reply_def numeral_eq_Suc
      del: lift_cycle_Inr raise_for_status_Inr)

end
