(* ===== verification/Benchmark_Main.thy ===== *)
theory Benchmark_Main
  imports Benchmark_Cycles
begin

text \<open>
  The main program of the timing benchmark (evaluation/benchmark/timing-benchmark.py): \<open>server_seconds\<close>,
  \<open>sizes_of\<close>, the sessions of the conditions with the cookies of the seed session, and the measured
  rounds with their clocks. Reading the seed file, the description of the machine and writing the result
  are left out. \<open>content_size\<close> is the number of bytes of a response's body, \<open>parse_float\<close> is \<open>float\<close>, and \<open>perf\<close>
  is \<open>time.perf_counter\<close>; floats are rationals.

  Proved: whatever the servers and clocks do, the samples of a finished benchmark are samples of the
  schedule of Benchmark_Schedule, and its size tables are complete and consistent; and its administration requests
  carry tokens their server has issued.
\<close>

section \<open>The time of the server\<close>

definition not_char :: "nat \<Rightarrow> nat \<Rightarrow> bool" where
  "not_char c x \<longleftrightarrow> x \<noteq> c"

text \<open>\<open>SERVER_TIME\<close>: \<open>.\<close> is any character but a line break, \<open>\s\<close> may cross lines.\<close>

definition SERVER_TIME :: "item list" where
  "SERVER_TIME = LineStart # literal (U ''http_server_requests_seconds_sum{'') @ [Open, Many 0 (not_char 10), Close]
     @ literal (U ''}'') @ [Many 1 is_space, Open, Many 1 (\<lambda>c. \<not> is_space c), Close, LineEnd]"

fun sum_seconds :: "(ustr \<Rightarrow> rat option) \<Rightarrow> ustr list list \<Rightarrow> cycle_exc + rat" where
  "sum_seconds parse_float [] = Inr 0"
| "sum_seconds parse_float (m # ms) =
     (case m of
        [labels, value] \<Rightarrow>
          (if contains labels (U ''uri=\"/metrics\"'') then sum_seconds parse_float ms
           else case parse_float value of
               None \<Rightarrow> Inl BadValue
             | Some x \<Rightarrow> rbind (sum_seconds parse_float ms) (\<lambda>y. Inr (x + y)))
      | _ \<Rightarrow> Inl BadValue)"

definition server_seconds ::
  "(ustr \<Rightarrow> rat option) \<Rightarrow> 'n network \<Rightarrow> condition \<Rightarrow> 'n bench \<Rightarrow> cycle_exc + ('n bench \<times> rat)" where
  "server_seconds parse_float nw c b =
     rbind (lift_cycle (plain_request nw (bench_runner b) (Get (cond_metrics c) []))) (\<lambda>(st', r).
     rbind (sum_seconds parse_float (re_findall (chars nw) SERVER_TIME (reply_text r))) (\<lambda>s.
       Inr (b\<lparr>bench_runner := st'\<rparr>, s)))"

section \<open>Sizes\<close>

definition lift_size :: "json_exc + 'a \<Rightarrow> cycle_exc + 'a" where
  "lift_size r = (case r of Inl e \<Rightarrow> Inl (FromMatrix (Driver (Checked (RaisedJson e)))) | Inr x \<Rightarrow> Inr x)"

definition details_bytes :: "py_env \<Rightarrow> json \<Rightarrow> cycle_exc + nat" where
  "details_bytes env v =
     rbind (lift_cycle (py_in (U ''amr_details'') v)) (\<lambda>found.
       if found then rbind (lift_cycle (py_item v (U ''amr_details''))) (\<lambda>d. lift_size (compact_bytes env d))
       else Inr 0)"

definition sizes_of ::
  "py_env \<Rightarrow> (ustr \<Rightarrow> ustr) \<Rightarrow> condition \<Rightarrow> authorization_result \<Rightarrow> nat \<Rightarrow> cycle_exc + (ustr, nat) dict" where
  "sizes_of env unescape c r discovery_bytes =
     rbind (lift_cycle (lift_run (json_section env unescape id_token_heading r))) (\<lambda>id_token.
     rbind (lift_cycle (lift_run (json_section env unescape userinfo_heading r))) (\<lambda>info.
     rbind (if cond_omit_claims c then Inr 0 else lift_size (request_bytes env (cond_request c))) (\<lambda>query.
     rbind (details_bytes env id_token) (\<lambda>id_details.
     rbind (details_bytes env info) (\<lambda>info_details.
     rbind (lift_size (compact_bytes env id_token)) (\<lambda>payload.
     rbind (lift_size (compact_bytes env info)) (\<lambda>body.
       Inr [(U ''discovery_response_bytes'', discovery_bytes), (U ''extension_request_query_bytes'', query),
            (U ''id_token_amr_details_bytes'', id_details), (U ''userinfo_amr_details_bytes'', info_details),
            (U ''id_token_payload_bytes'', payload), (U ''userinfo_response_bytes'', body)])))))))"

section \<open>The sessions of the conditions\<close>

text \<open>
  A cookie of the seed session, which is a Playwright cookie: its members are texts. Its value is not part of
  the model's cookies.
\<close>

definition text_of :: "json \<Rightarrow> string \<Rightarrow> cycle_exc + ustr" where
  "text_of v k =
     rbind (lift_cycle (py_item v (U k))) (\<lambda>x. case x of JStr s \<Rightarrow> Inr s | _ \<Rightarrow> Inl (FromMatrix PythonError))"

definition seed_cookie :: "json \<Rightarrow> cycle_exc + cookie" where
  "seed_cookie v =
     rbind (text_of v ''domain'') (\<lambda>d.
     rbind (text_of v ''name'') (\<lambda>name.
     rbind (lift_cycle (py_item v (U ''value''))) (\<lambda>_.
     rbind (text_of v ''path'') (\<lambda>path.
       let domain = dropWhile (\<lambda>c. c = 46) d in
       Inr \<lparr>cookie_domain = (if 46 \<in> set domain then domain else domain @ U ''.local''), cookie_path = path,
            cookie_name = name, cookie_secure = False\<rparr>))))"

definition same_cookie :: "cookie \<Rightarrow> cookie \<Rightarrow> bool" where
  "same_cookie c d \<longleftrightarrow> cookie_domain c = cookie_domain d \<and> cookie_path c = cookie_path d \<and> cookie_name c = cookie_name d"

definition set_cookie :: "cookie \<Rightarrow> cookie list \<Rightarrow> cookie list" where
  "set_cookie c session =
     (if \<exists>d \<in> set session. same_cookie c d then map (\<lambda>d. if same_cookie c d then c else d) session
      else session @ [c])"

fun seed_session :: "json list \<Rightarrow> cookie list \<Rightarrow> cycle_exc + cookie list" where
  "seed_session [] session = Inr session"
| "seed_session (v # vs) session = rbind (seed_cookie v) (\<lambda>c. seed_session vs (set_cookie c session))"

text \<open>The seed session must report exactly the methods its request asks for; \<open>set\<close> needs values that hash.\<close>

definition lift_request :: "request_exc + 'a \<Rightarrow> cycle_exc + 'a" where
  "lift_request r = (case r of Inl e \<Rightarrow> Inl (RequestFault e) | Inr x \<Rightarrow> Inr x)"

definition check_executions :: "py_env \<Rightarrow> (ustr \<Rightarrow> ustr) \<Rightarrow> condition \<Rightarrow> authorization_result \<Rightarrow> cycle_exc + unit" where
  "check_executions env unescape c r =
     rbind (lift_request (requested (cond_request c))) (\<lambda>ids.
     if \<not> list_all hashable ids then Inl (RequestFault RequestType)
     else rbind (lift_cycle (lift_run (json_section env unescape id_token_heading r))) (\<lambda>id_token.
       rbind (lift_cycle (lift_run (detail_map id_token))) (\<lambda>executed.
         if set (map (\<lambda>e. JStr (fst e)) executed) = set ids then Inr () else Inl WrongExecutions)))"

definition first_session ::
  "py_env \<Rightarrow> (ustr \<Rightarrow> ustr) \<Rightarrow> 'n network \<Rightarrow> runner_config \<Rightarrow> json list \<Rightarrow> bool \<Rightarrow> condition \<Rightarrow> 'n runner
     \<Rightarrow> cycle_exc + ('n runner \<times> cookie list \<times> authorization_result)" where
  "first_session env unescape nw cfg cookies full c st =
     (if full then
        rbind (seed_session cookies []) (\<lambda>session.
        rbind (condition_authorize env unescape nw cfg c st session False) (\<lambda>(st', s', r).
        rbind (check_executions env unescape c r) (\<lambda>_. Inr (st', s', r))))
      else condition_authorize env unescape nw cfg c st [] True)"

text \<open>The loop over the conditions; \<open>full\<close> tells the last one, whose session is the seed session.\<close>

type_synonym size_tables = "(ustr, (ustr, nat) dict) dict"

fun establish ::
  "py_env \<Rightarrow> (ustr \<Rightarrow> ustr) \<Rightarrow> (reply \<Rightarrow> nat) \<Rightarrow> 'n network \<Rightarrow> runner_config \<Rightarrow> json list \<Rightarrow> condition list
     \<Rightarrow> 'n bench \<times> size_tables \<Rightarrow> cycle_exc + ('n bench \<times> size_tables)" where
  "establish env unescape content_size nw cfg cookies [] acc = Inr acc"
| "establish env unescape content_size nw cfg cookies (c # cs) (b, tables) =
     rbind (first_session env unescape nw cfg cookies (cs = []) c (bench_runner b)) (\<lambda>(st1, s, r).
     rbind (lift_cycle (plain_request nw st1 (Get (cond_issuer c @ U ''/.well-known/openid-configuration'') []))) (\<lambda>(st2, document).
     rbind (raise_for_status document) (\<lambda>_.
     rbind (sizes_of env unescape c r (content_size document)) (\<lambda>sizes.
       establish env unescape content_size nw cfg cookies cs
         (store_session c st2 s b, AList.update (cond_name c) sizes tables)))))"

section \<open>The measured rounds\<close>

definition lift_bench :: "bench_exc + 'a \<Rightarrow> cycle_exc + 'a" where
  "lift_bench r = (case r of Inl ValueError \<Rightarrow> Inl BadValue | Inl BenchKey \<Rightarrow> Inl MissingKey | Inr x \<Rightarrow> Inr x)"

definition read_perf :: "('n \<Rightarrow> 'n \<times> rat) \<Rightarrow> 'n bench \<Rightarrow> 'n bench \<times> rat" where
  "read_perf perf b =
     (case perf (net (bench_runner b)) of (n, t) \<Rightarrow> (b\<lparr>bench_runner := (bench_runner b)\<lparr>net := n\<rparr>\<rparr>, t))"

definition measured_cycle ::
  "py_env \<Rightarrow> (ustr \<Rightarrow> ustr) \<Rightarrow> (json \<Rightarrow> ustr) \<Rightarrow> (ustr \<Rightarrow> rat option) \<Rightarrow> ('n \<Rightarrow> 'n \<times> rat) \<Rightarrow> 'n network \<Rightarrow> runner_config
     \<Rightarrow> ustr \<Rightarrow> condition \<Rightarrow> 'n bench \<Rightarrow> cycle_exc + ('n bench \<times> rat \<times> rat)" where
  "measured_cycle env unescape str_of parse_float perf nw cfg kind c b =
     rbind (server_seconds parse_float nw c b) (\<lambda>(b1, before_seconds).
     case read_perf perf b1 of (b2, started) \<Rightarrow>
     rbind (cycle_of env unescape nw cfg kind c b2) (\<lambda>b3.
     case read_perf perf b3 of (b4, ended) \<Rightarrow>
     rbind (server_seconds parse_float nw c b4) (\<lambda>(b5, after_seconds).
     rbind (logout_after_login env str_of nw kind c b5) (\<lambda>b6.
       Inr (b6, (ended - started) * 1000, (after_seconds - before_seconds) * 1000)))))"

fun measured_slots ::
  "py_env \<Rightarrow> (ustr \<Rightarrow> ustr) \<Rightarrow> (json \<Rightarrow> ustr) \<Rightarrow> (ustr \<Rightarrow> rat option) \<Rightarrow> ('n \<Rightarrow> 'n \<times> rat) \<Rightarrow> 'n network \<Rightarrow> runner_config
     \<Rightarrow> nat \<Rightarrow> nat \<Rightarrow> (ustr \<times> condition) list \<Rightarrow> 'n bench \<times> run_samples \<Rightarrow> cycle_exc + ('n bench \<times> run_samples)" where
  "measured_slots env unescape str_of parse_float perf nw cfg r pos [] acc = Inr acc"
| "measured_slots env unescape str_of parse_float perf nw cfg r pos ((kind, c) # slots) (b, run) =
     rbind (measured_cycle env unescape str_of parse_float perf nw cfg kind c b) (\<lambda>(b', client, server).
     rbind (lift_bench (add_sample kind (cond_name c)
         \<lparr>sample_round = r, sample_position = pos, client_ms = py_round client 4, server_ms = py_round server 4\<rparr> run)) (\<lambda>run'.
       measured_slots env unescape str_of parse_float perf nw cfg r (Suc pos) slots (b', run')))"

fun measured_rounds ::
  "nat \<Rightarrow> py_env \<Rightarrow> (ustr \<Rightarrow> ustr) \<Rightarrow> (json \<Rightarrow> ustr) \<Rightarrow> (ustr \<Rightarrow> rat option) \<Rightarrow> ('n \<Rightarrow> 'n \<times> rat) \<Rightarrow> 'n network \<Rightarrow> runner_config
     \<Rightarrow> (nat \<Rightarrow> (ustr \<times> condition) list \<Rightarrow> (ustr \<times> condition) list) \<Rightarrow> (ustr \<times> condition) list
     \<Rightarrow> 'n bench \<times> run_samples \<Rightarrow> cycle_exc + ('n bench \<times> run_samples)" where
  "measured_rounds 0 env unescape str_of parse_float perf nw cfg order slots acc = Inr acc"
| "measured_rounds (Suc n) env unescape str_of parse_float perf nw cfg order slots acc =
     rbind (measured_rounds n env unescape str_of parse_float perf nw cfg order slots acc)
       (measured_slots env unescape str_of parse_float perf nw cfg n 0 (order n slots))"

section \<open>The program\<close>

record bench_result =
  result_rounds :: nat
  result_cycles :: nat
  result_sizes :: size_tables
  result_samples :: run_samples

text \<open>
  One generator orders the rounds, the warm-up rounds first, so the measured round \<open>i\<close> has the order
  number \<open>warmups + i\<close>.
\<close>

definition benchmark_main ::
  "py_env \<Rightarrow> (ustr \<Rightarrow> ustr) \<Rightarrow> (json \<Rightarrow> ustr) \<Rightarrow> (ustr \<Rightarrow> rat option) \<Rightarrow> (reply \<Rightarrow> nat) \<Rightarrow> ('n \<Rightarrow> 'n \<times> rat) \<Rightarrow> 'n network
     \<Rightarrow> runner_config \<Rightarrow> int \<Rightarrow> int \<Rightarrow> (ustr, json) dict \<Rightarrow> json list
     \<Rightarrow> (nat \<Rightarrow> (ustr \<times> condition) list \<Rightarrow> (ustr \<times> condition) list) \<Rightarrow> 'n runner \<Rightarrow> cycle_exc + bench_result" where
  "benchmark_main env unescape str_of parse_float content_size perf nw cfg warmups samples request_claims cookies order st =
     (if warmups < 1 \<or> samples < 2 then Inl BadValue
      else
        (let conditions = seeded request_claims;
             b0 = \<lparr>bench_runner = st\<lparr>last_totp_counter := Some (- 1)\<rparr>, bench_sessions = [], admin_tokens = [], admin_users = []\<rparr> in
         rbind (lift_bench (balanced_slots conditions)) (\<lambda>slots.
         rbind (establish env unescape content_size nw cfg cookies conditions (b0, [])) (\<lambda>(b1, tables).
         rbind (warm_up (nat warmups) env unescape str_of nw cfg order slots b1) (\<lambda>b2.
         rbind (measured_rounds (nat samples) env unescape str_of parse_float perf nw cfg
                  (\<lambda>i. order (nat warmups + i)) slots (b2, empty_samples conditions)) (\<lambda>(_, run).
           Inr \<lparr>result_rounds = nat samples, result_cycles = length slots, result_sizes = tables,
                result_samples = run\<rparr>))))))"

section \<open>The samples are samples of the schedule\<close>

lemma lift_bench_Inr [simp]: "lift_bench r = Inr x \<longleftrightarrow> r = Inr x"
  by (auto simp: lift_bench_def split: sum.splits bench_exc.splits)

lemma lift_size_Inr [simp]: "lift_size r = Inr x \<longleftrightarrow> r = Inr x"
  by (simp add: lift_size_def split: sum.splits)

lemma lift_request_Inr [simp]: "lift_request r = Inr x \<longleftrightarrow> r = Inr x"
  by (simp add: lift_request_def split: sum.splits)

text \<open>The clocks make the timings of a round, from any position on.\<close>

lemma measured_slots_timing:
  "measured_slots env unescape str_of parse_float perf nw cfg r pos slots (b, run) = Inr (b', run') \<Longrightarrow>
     \<exists>f. \<forall>timing. (\<forall>q \<ge> pos. timing r q = f q) \<longrightarrow> run_round r pos timing slots run = Inr run'"
proof (induction slots arbitrary: pos b run)
  case (Cons x slots)
  obtain kind c where x: "x = (kind, c)" by (cases x)
  from Cons.prems obtain b1 client server run1 where a:
    "add_sample kind (cond_name c) \<lparr>sample_round = r, sample_position = pos, client_ms = py_round client 4,
        server_ms = py_round server 4\<rparr> run = Inr run1"
    "measured_slots env unescape str_of parse_float perf nw cfg r (Suc pos) slots (b1, run1) = Inr (b', run')"
    by (auto simp: x rbind_eq_Inr)
  from Cons.IH [OF a(2)] obtain f where f: "\<And>timing. (\<forall>q \<ge> Suc pos. timing r q = f q) \<Longrightarrow>
    run_round r (Suc pos) timing slots run1 = Inr run'" by blast
  have "run_round r pos timing (x # slots) run = Inr run'"
    if "\<forall>q \<ge> pos. timing r q = (f(pos := (client, server))) q" for timing
  proof -
    have "timing r pos = (client, server)" "\<forall>q \<ge> Suc pos. timing r q = f q" using that by auto
    then show ?thesis using a(1) f by (simp add: x)
  qed
  then show ?case by blast
qed simp

lemma measured_rounds_timing:
  "measured_rounds n env unescape str_of parse_float perf nw cfg order slots (b, run) = Inr (b', run') \<Longrightarrow>
     \<exists>f. \<forall>timing. (\<forall>r < n. timing r = f r) \<longrightarrow> run_rounds n order timing slots run = Inr run'"
proof (induction n arbitrary: b' run')
  case (Suc n)
  then obtain b1 run1 where a: "measured_rounds n env unescape str_of parse_float perf nw cfg order slots (b, run) = Inr (b1, run1)"
    "measured_slots env unescape str_of parse_float perf nw cfg n 0 (order n slots) (b1, run1) = Inr (b', run')"
    by (auto simp: rbind_eq_Inr)
  from Suc.IH [OF a(1)] obtain f where f: "\<And>timing. (\<forall>r < n. timing r = f r) \<Longrightarrow> run_rounds n order timing slots run = Inr run1" by blast
  from measured_slots_timing [OF a(2)] obtain g where g: "\<And>timing. (\<forall>q. timing n q = g q) \<Longrightarrow>
    run_round n 0 timing (order n slots) run1 = Inr run'" by blast
  have "run_rounds (Suc n) order timing slots run = Inr run'" if "\<forall>r < Suc n. timing r = (f(n := g)) r" for timing
  proof -
    have "\<forall>r < n. timing r = f r" "\<forall>q. timing n q = g q" using that by auto
    then show ?thesis using f g by simp
  qed
  then show ?case by blast
qed simp

section \<open>The size tables\<close>

definition SIZE_NAMES :: "ustr list" where
  "SIZE_NAMES = [U ''discovery_response_bytes'', U ''extension_request_query_bytes'', U ''id_token_amr_details_bytes'',
     U ''userinfo_amr_details_bytes'', U ''id_token_payload_bytes'', U ''userinfo_response_bytes'']"

text \<open>
  A table has every size; details are part of the value that carries them; a query is as long as its text and the
  name of the parameter, and at most three times as long.
\<close>

definition size_at :: "(ustr, nat) dict \<Rightarrow> string \<Rightarrow> nat" where
  "size_at t k = (case map_of t (U k) of None \<Rightarrow> 0 | Some n \<Rightarrow> n)"

definition sizes_ok :: "py_env \<Rightarrow> condition \<Rightarrow> (ustr, nat) dict \<Rightarrow> bool" where
  "sizes_ok env c t \<longleftrightarrow> map fst t = SIZE_NAMES
     \<and> (size_at t ''id_token_amr_details_bytes'' = 0
        \<or> size_at t ''id_token_amr_details_bytes'' + 16 \<le> size_at t ''id_token_payload_bytes'')
     \<and> (size_at t ''userinfo_amr_details_bytes'' = 0
        \<or> size_at t ''userinfo_amr_details_bytes'' + 16 \<le> size_at t ''userinfo_response_bytes'')
     \<and> (if cond_omit_claims c then size_at t ''extension_request_query_bytes'' = 0
        else \<exists>n. compact_bytes env (JObj (cond_request c)) = Inr n \<and> n + 7 \<le> size_at t ''extension_request_query_bytes''
           \<and> size_at t ''extension_request_query_bytes'' \<le> 3 * n + 7)"

lemma details_bytes_part:
  assumes "details_bytes env v = Inr d" "compact_bytes env v = Inr n"
  shows "d = 0 \<or> d + 16 \<le> n"
proof (cases "py_in (U ''amr_details'') v = Inr True")
  case True
  with assms(1) obtain x where x: "py_item v (U ''amr_details'') = Inr x" "compact_bytes env x = Inr d"
    by (auto simp: details_bytes_def rbind_eq_Inr)
  then obtain ms where "v = JObj ms" "map_of ms (U ''amr_details'') = Some x"
    by (cases v) (auto simp: py_item_def split: option.splits)
  with member_bytes [of env ms n "U ''amr_details''" x] assms(2) x(2) show ?thesis by (auto simp: U_def)
next
  case False
  then show ?thesis using assms(1) by (auto simp: details_bytes_def rbind_eq_Inr split: if_splits)
qed

lemma request_bytes_Inr:
  "request_bytes env req = Inr q \<Longrightarrow> \<exists>n. compact_bytes env (JObj req) = Inr n \<and> n + 7 \<le> q \<and> q \<le> 3 * n + 7"
  using request_bytes_bounds [of env req]
  by (cases "compact_bytes env (JObj req)") (auto simp: request_bytes_def compact_bytes_def rbind_eq_Inr)

lemma sizes_of_ok:
  assumes "sizes_of env unescape c r n = Inr t"
  shows "sizes_ok env c t"
proof -
  from assms obtain v w query a b p q where s: "details_bytes env v = Inr a" "details_bytes env w = Inr b"
    "compact_bytes env v = Inr p" "compact_bytes env w = Inr q"
    "if cond_omit_claims c then query = 0 else request_bytes env (cond_request c) = Inr query"
    "t = [(U ''discovery_response_bytes'', n), (U ''extension_request_query_bytes'', query),
            (U ''id_token_amr_details_bytes'', a), (U ''userinfo_amr_details_bytes'', b),
            (U ''id_token_payload_bytes'', p), (U ''userinfo_response_bytes'', q)]"
    by (auto simp: sizes_of_def rbind_eq_Inr split: if_splits)
  have m: "size_at t ''extension_request_query_bytes'' = query" "size_at t ''id_token_amr_details_bytes'' = a"
    "size_at t ''userinfo_amr_details_bytes'' = b" "size_at t ''id_token_payload_bytes'' = p"
    "size_at t ''userinfo_response_bytes'' = q"
    by (simp_all add: size_at_def s(6))
  show ?thesis
    unfolding sizes_ok_def m
    using details_bytes_part [OF s(1,3)] details_bytes_part [OF s(2,4)] request_bytes_Inr s(5)
    by (auto simp: s(6) SIZE_NAMES_def)
qed

lemma establish_tables:
  assumes "establish env unescape content_size nw cfg cookies cs (b, tables) = Inr (b', tables')"
    and "distinct (map fst tables @ map cond_name cs)"
  shows "\<exists>ts. tables' = tables @ zip (map cond_name cs) ts \<and> list_all2 (sizes_ok env) cs ts"
  using assms
proof (induction cs arbitrary: b tables)
  case (Cons c cs)
  from Cons.prems(1) obtain b1 sizes r n where a: "sizes_of env unescape c r n = Inr sizes"
    "establish env unescape content_size nw cfg cookies cs (b1, AList.update (cond_name c) sizes tables) = Inr (b', tables')"
    by (auto simp: rbind_eq_Inr)
  have "cond_name c \<notin> fst ` set tables" using Cons.prems(2) by auto
  then have u: "AList.update (cond_name c) sizes tables = tables @ [(cond_name c, sizes)]" by (rule update_new)
  have "distinct (map fst (tables @ [(cond_name c, sizes)]) @ map cond_name cs)" using Cons.prems(2) by auto
  from Cons.IH [OF a(2) [unfolded u] this] obtain ts where
    "tables' = (tables @ [(cond_name c, sizes)]) @ zip (map cond_name cs) ts" "list_all2 (sizes_ok env) cs ts" by blast
  with sizes_of_ok [OF a(1)] show ?case by (intro exI [of _ "sizes # ts"]) simp
qed simp

lemma seeded_distinct: "distinct (map cond_name (seeded request_claims))"
  by (simp add: seeded_def CONDITIONS_def)

lemma benchmark_main_Inr:
  assumes "benchmark_main env unescape str_of parse_float content_size perf nw cfg warmups samples request_claims cookies order st = Inr res"
  shows "(\<exists>timing. benchmark_samples warmups samples request_claims (\<lambda>i. order (nat warmups + i)) timing = Inr (result_samples res))
    \<and> (\<exists>ts. result_sizes res = zip (map cond_name (seeded request_claims)) ts
         \<and> list_all2 (sizes_ok env) (seeded request_claims) ts)
    \<and> result_rounds res = nat samples"
proof -
  let ?conditions = "seeded request_claims"
  from assms obtain slots b0 b1 tables b2 b3 run where a: "1 \<le> warmups" "2 \<le> samples" "balanced_slots ?conditions = Inr slots"
    "establish env unescape content_size nw cfg cookies ?conditions (b0, []) = Inr (b1, tables)"
    "measured_rounds (nat samples) env unescape str_of parse_float perf nw cfg
       (\<lambda>i. order (nat warmups + i)) slots (b2, empty_samples ?conditions) = Inr (b3, run)"
    "res = \<lparr>result_rounds = nat samples, result_cycles = length slots, result_sizes = tables, result_samples = run\<rparr>"
    by (auto simp: benchmark_main_def rbind_eq_Inr Let_def split: if_splits)
  from measured_rounds_timing [OF a(5)] obtain f where
    "run_rounds (nat samples) (\<lambda>i. order (nat warmups + i)) f slots (empty_samples ?conditions) = Inr run" by blast
  then have "benchmark_samples warmups samples request_claims (\<lambda>i. order (nat warmups + i)) f = Inr run"
    using a(1-3) by (simp add: benchmark_samples_def)
  moreover have "\<exists>ts. tables = [] @ zip (map cond_name ?conditions) ts \<and> list_all2 (sizes_ok env) ?conditions ts"
    by (rule establish_tables [OF a(4)]) (use seeded_distinct in simp)
  ultimately show ?thesis using a(6) by auto
qed

section \<open>The administration requests of the whole benchmark\<close>

definition logged_perf ::
  "('n \<Rightarrow> 'n \<times> rat) \<Rightarrow> 'n \<times> (http_call \<times> reply) list \<Rightarrow> ('n \<times> (http_call \<times> reply) list) \<times> rat" where
  "logged_perf perf x = (case perf (fst x) of (n, t) \<Rightarrow> ((n, snd x), t))"

lemma read_perf_ok: "admin_ok env str_of nw b \<Longrightarrow> admin_ok env str_of nw (fst (read_perf (logged_perf perf) b))"
  by (rule admin_ok_quiet [of env str_of nw b _ "[]"]) (auto simp: read_perf_def logged_perf_def split: prod.splits)

lemma server_seconds_ok:
  assumes "server_seconds parse_float (logged nw) c b = Inr (b', x)" "admin_ok env str_of nw b"
  shows "admin_ok env str_of nw b'"
proof -
  from assms(1) obtain st' r where "plain_request (logged nw) (bench_runner b) (Get (cond_metrics c) []) = Inr (st', r)"
    "b' = b\<lparr>bench_runner := st'\<rparr>" by (auto simp: server_seconds_def rbind_eq_Inr)
  with plain_request_logged admin_ok_quiet [OF assms(2), of b' "[(Get (cond_metrics c) [], r)]"] show ?thesis by fastforce
qed

lemma measured_cycle_ok:
  assumes "measured_cycle env unescape str_of parse_float (logged_perf perf) (logged nw) cfg kind c b = Inr (b', x)"
    and "admin_ok env str_of nw b"
  shows "admin_ok env str_of nw b'"
proof -
  let ?perf = "\<lambda>b. fst (read_perf (logged_perf perf) b)"
  from assms(1) obtain b1 s1 b3 b5 s2 where
    a: "server_seconds parse_float (logged nw) c b = Inr (b1, s1)" "cycle_of env unescape (logged nw) cfg kind c (?perf b1) = Inr b3"
      "server_seconds parse_float (logged nw) c (?perf b3) = Inr (b5, s2)" "logout_after_login env str_of (logged nw) kind c b5 = Inr b'"
    by (auto simp: measured_cycle_def rbind_eq_Inr case_prod_beta)
  note 1 = cycle_of_ok [OF a(2) read_perf_ok [OF server_seconds_ok [OF a(1) assms(2)]]]
  show ?thesis by (rule logout_after_login_ok [OF a(4) server_seconds_ok [OF a(3) read_perf_ok [OF 1]]])
qed

lemma measured_slots_ok:
  "measured_slots env unescape str_of parse_float (logged_perf perf) (logged nw) cfg r pos slots (b, run) = Inr (b', run') \<Longrightarrow>
     admin_ok env str_of nw b \<Longrightarrow> admin_ok env str_of nw b'"
proof (induction slots arbitrary: pos b run)
  case (Cons s slots)
  obtain kind c where s: "s = (kind, c)" by (cases s)
  with Cons.prems(1) obtain b1 x run1 where
    "measured_cycle env unescape str_of parse_float (logged_perf perf) (logged nw) cfg kind c b = Inr (b1, x)"
    "measured_slots env unescape str_of parse_float (logged_perf perf) (logged nw) cfg r (Suc pos) slots (b1, run1) = Inr (b', run')"
    by (auto simp: rbind_eq_Inr)
  with Cons measured_cycle_ok show ?case by blast
qed simp

lemma measured_rounds_ok:
  "measured_rounds n env unescape str_of parse_float (logged_perf perf) (logged nw) cfg order slots (b, run) = Inr (b', run') \<Longrightarrow>
     admin_ok env str_of nw b \<Longrightarrow> admin_ok env str_of nw b'"
proof (induction n arbitrary: b' run')
  case (Suc n)
  then obtain b1 run1 where
    "measured_rounds n env unescape str_of parse_float (logged_perf perf) (logged nw) cfg order slots (b, run) = Inr (b1, run1)"
    "measured_slots env unescape str_of parse_float (logged_perf perf) (logged nw) cfg n 0 (order n slots) (b1, run1) = Inr (b', run')"
    by (auto simp: rbind_eq_Inr)
  with Suc measured_slots_ok show ?case by blast
qed simp

lemma condition_authorize_quiet:
  assumes "condition_authorize env unescape (logged nw) cfg c st session prompt_login = Inr (st', s', r)"
  shows "\<exists>l. snd (net st') = snd (net st) @ l \<and> quiet l"
proof -
  from assms have "authorize env (logged nw) cfg (configure_condition c st) (cond_request c) (Some session) prompt_login
      (cond_omit_claims c) False False = Inr (st', s', r)"
    by (auto simp: condition_authorize_def rbind_eq_Inr authorized_Inr split: if_splits)
  from flow_quiet [OF this] show ?thesis by (simp add: configure_condition_def)
qed

lemma establish_ok:
  "establish env unescape content_size (logged nw) cfg cookies cs (b, tables) = Inr (b', tables') \<Longrightarrow>
     admin_ok env str_of nw b \<Longrightarrow> admin_ok env str_of nw b'"
proof (induction cs arbitrary: b tables)
  case (Cons c cs)
  let ?call = "Get (cond_issuer c @ U ''/.well-known/openid-configuration'') []"
  from Cons.prems(1) obtain st1 s r st2 document sizes where
    a: "first_session env unescape (logged nw) cfg cookies (cs = []) c (bench_runner b) = Inr (st1, s, r)"
      "plain_request (logged nw) st1 ?call = Inr (st2, document)"
      "establish env unescape content_size (logged nw) cfg cookies cs
         (store_session c st2 s b, AList.update (cond_name c) sizes tables) = Inr (b', tables')"
    by (auto simp: rbind_eq_Inr)
  from a(1) obtain l where "snd (net st1) = log_of b @ l" "quiet l"
    using condition_authorize_quiet by (fastforce simp: first_session_def rbind_eq_Inr split: if_splits)
  with plain_request_logged [OF a(2)] have "admin_ok env str_of nw (store_session c st2 s b)"
    by (intro admin_ok_quiet [OF Cons.prems(2), of _ "l @ [(?call, document)]"]) (simp_all add: store_session_def)
  with Cons.IH [OF a(3)] show ?case .
qed simp


text \<open>One measured login, on the servers of \<open>login_network\<close>.\<close>

definition measured_bench :: "(reply list \<times> (http_call \<times> reply) list) bench" where
  "measured_bench = login_bench\<lparr>bench_runner := matrix_runner ([json_reply []] @ take 3 login_replies @ [json_reply []]
     @ drop 3 login_replies, [])\<rparr>"

lemma sample_seconds:
  assumes "net (bench_runner b) = (json_reply [] # rs, l)"
  shows "server_seconds (\<lambda>_. None) (logged login_network) official b
      = Inr (b\<lparr>bench_runner := (bench_runner b)\<lparr>net := (rs, l @ [(Get (cond_metrics official) [], json_reply [])])\<rparr>\<rparr>, 0)"
proof -
  have "re_findall (chars (logged login_network)) SERVER_TIME [] = []"
    by (simp add: re_findall_def find_from.simps SERVER_TIME_def literal_def U_def)
  then show ?thesis using assms by (simp add: server_seconds_def lift_cycle_def json_reply_def)
qed

lemma sample_perf: "read_perf (logged_perf (\<lambda>n. (n, 0))) b = (b, 0)"
  by (cases "net (bench_runner b)") (simp add: read_perf_def logged_perf_def)

definition sample_run :: run_samples where
  "sample_run = [(U ''login'', [(cond_name official, [])])]"

lemma sample_measured:
  "\<exists>b' e1 e2 l u h r run. measured_rounds 1 sample_env (\<lambda>s. s) (\<lambda>v. []) (\<lambda>_. None) (logged_perf (\<lambda>n. (n, 0)))
     (logged login_network) cfg (\<lambda>n s. s) [(U ''login'', official)] (measured_bench, sample_run) = Inr (b', run)
     \<and> log_of b' = l @ [e1, e2, (PostWith u h, r)] \<and> length l = 5"
proof -
  let ?metrics = "(Get (cond_metrics official) [], json_reply [])"
  have n: "net (bench_runner measured_bench) = (json_reply [] # redirect_reply # json_reply (U ''form'') # json_reply plain_page
      # json_reply [] # drop 3 login_replies, [])"
    by (simp add: measured_bench_def matrix_runner_def login_replies_def numeral_eq_Suc)
  let ?b1 = "measured_bench\<lparr>bench_runner := (bench_runner measured_bench)\<lparr>net := (redirect_reply # json_reply (U ''form'')
      # json_reply plain_page # json_reply [] # drop 3 login_replies, [?metrics])\<rparr>\<rparr>"
  have s1: "server_seconds (\<lambda>_. None) (logged login_network) official measured_bench = Inr (?b1, 0)"
    using sample_seconds [OF n] by simp
  from sample_login_cycle [of ?b1 "json_reply [] # drop 3 login_replies" "[?metrics]" cfg] obtain st' l where c:
    "login_cycle sample_env (\<lambda>s. s) (logged login_network) cfg official ?b1 = Inr (?b1\<lparr>bench_runner := st'\<rparr>)"
    "net st' = (json_reply [] # drop 3 login_replies, l)" "length l = 4" by auto
  let ?b2 = "?b1\<lparr>bench_runner := st'\<lparr>net := (drop 3 login_replies, l @ [?metrics])\<rparr>\<rparr>"
  have s2: "server_seconds (\<lambda>_. None) (logged login_network) official (?b1\<lparr>bench_runner := st'\<rparr>) = Inr (?b2, 0)"
    using sample_seconds [of "?b1\<lparr>bench_runner := st'\<rparr>" "drop 3 login_replies" l] c(2) by simp
  have "admin_tokens ?b2 = []" "admin_users ?b2 = []" by (simp_all add: measured_bench_def login_bench_def)
  with sample_logout [of ?b2 "l @ [?metrics]"] obtain b' e1 e2 u h r where o:
    "admin_logout sample_env (\<lambda>v. []) (logged login_network) official ?b2 = Inr b'"
    "log_of b' = (l @ [?metrics]) @ [e1, e2, (PostWith u h, r)]" by auto
  have "measured_cycle sample_env (\<lambda>s. s) (\<lambda>v. []) (\<lambda>_. None) (logged_perf (\<lambda>n. (n, 0))) (logged login_network) cfg
      (U ''login'') official measured_bench = Inr (b', 0, 0)"
    using s1 s2 c(1) o(1) by (simp add: measured_cycle_def sample_perf cycle_of_def logout_after_login_def)
  then show ?thesis
    using o(2) c(3) by (auto simp: add_sample_def sample_run_def lift_bench_def simp del: lift_bench_Inr)
qed


end
