(* ===== verification/Benchmark_Lab.thy ===== *)
theory Benchmark_Lab
  imports Benchmark_Main E2E_Lab
begin

text \<open>
  The timing benchmark in the laboratory of E2E_Lab, where it runs to its end for any number of rounds in any
  order: the instance of the witnesses about whole benchmark runs.
\<close>

section \<open>Cycles\<close>

lemma lab_projection [simp]:
  "check_projection sample_env (\<lambda>s. s) c \<lparr>result_text = lab_page (cond_details c), result_forms = fs\<rparr> = Inr ()"
  by (simp add: check_projection_def lift_cycle_def lab_token_def pwd_token_def del: lift_cycle_Inr)

text \<open>The request of the seed session, for the one method that the servers report.\<close>

definition lab_request_claims :: "(ustr, json) dict" where
  "lab_request_claims = located [(U ''all_of'', JArr [JObj [(U ''amr_identifier'', JObj [(U ''value'', JStr (U ''pwd''))])]])]"

definition lab_conditions :: "condition list" where
  "lab_conditions = seeded lab_request_claims"

text \<open>What the servers need of a condition.\<close>

definition with_realm :: "ustr \<Rightarrow> bool" where
  "with_realm u \<longleftrightarrow> before (U ''/realms/'') u \<noteq> None \<and> after (U ''/realms/'') u \<noteq> None \<and> take 4 u = U ''http''"

definition encodable :: "(ustr, json) dict \<Rightarrow> bool" where
  "encodable req \<longleftrightarrow> fits 50 (JObj req)"

definition ready :: "condition \<Rightarrow> bool" where
  "ready c \<longleftrightarrow> cond_details c = (\<not> cond_omit_claims c) \<and> encodable (cond_request c)
     \<and> with_realm (cond_issuer c) \<and> take 4 (cond_metrics c) = U ''http''"

lemma lab_realms:
  "with_realm (U ''http://localhost:8188/realms/oidc4ac'')" "with_realm (U ''http://localhost:8187/realms/oidc4ac'')"
  "with_realm (U ''http://localhost:8186/realms/oidc4ac-off'')" "with_realm (U ''http://localhost:8186/realms/oidc4ac'')"
  by (simp_all add: with_realm_def U_def)

lemma lab_requests: "encodable []" "encodable lab_request_claims"
  "encodable (claims (amr_method (U ''pwd'') None None) True True True)"
  by (simp_all add: encodable_def lab_request_claims_def located_def spread_def claims_def amr_method_def Let_def)

lemma lab_ready: "c \<in> set lab_conditions \<Longrightarrow> ready c"
proof -
  have m: "take 4 (U ''http://localhost:9188/metrics'') = U ''http''" "take 4 (U ''http://localhost:9187/metrics'') = U ''http''"
    "take 4 (U ''http://localhost:9186/metrics'') = U ''http''" by (simp_all add: U_def)
  have "list_all ready lab_conditions"
    by (simp add: lab_conditions_def seeded_def CONDITIONS_def ready_def lab_realms lab_requests m)
  then show "c \<in> set lab_conditions \<Longrightarrow> ready c" by (simp add: list_all_iff)
qed

lemma ready_other:
  assumes "take 4 u = U ''http''"
  shows "lab_reply s (Get (u @ t) []) = (s, json_reply [])"
proof -
  from assms obtain v where "u = 104 # v" by (cases u) (auto simp: U_def)
  then have "u @ t \<noteq> U ''form''" "u @ t \<noteq> U ''page''" "u @ t \<noteq> U ''lab/healthz''" by (simp_all add: U_def)
  then show ?thesis by (simp add: lab_reply_def)
qed

lemma ready_data: "ready c \<Longrightarrow> \<exists>data. login_data sample_env (cond_request c) pl (cond_omit_claims c) False = Inr data"
  by (simp add: ready_def encodable_def login_data_def dumps_default_def Let_def del: fits.simps)

lemma ready_flow:
  assumes "ready c"
  shows "authorized sample_env (\<lambda>s. s) lab cfg st (cond_request c) (Some s) pl (cond_omit_claims c) =
     Inr (st, lab_session (cond_details c),
       \<lparr>result_text = lab_page (cond_details c), result_forms = (if pl then [login_form] else [])\<rparr>)"
proof -
  from ready_data [OF assms] obtain data where
    "login_data sample_env (cond_request c) pl (cond_omit_claims c) False = Inr data" by blast
  moreover have "cond_details c = (\<not> cond_omit_claims c)" using assms by (simp add: ready_def)
  ultimately show ?thesis
    by (simp add: authorized_def lift_drive_def lift_run_def lab_authorize)
qed

lemma ready_authorize:
  "ready c \<Longrightarrow> \<exists>st'. condition_authorize sample_env (\<lambda>s. s) lab cfg c st s pl =
     Inr (st', lab_session (cond_details c), \<lparr>result_text = lab_page (cond_details c), result_forms = (if pl then [login_form] else [])\<rparr>)"
  by (simp add: condition_authorize_def ready_flow lift_cycle_def del: lift_cycle_Inr)

lemma lab_headers: "\<exists>b' h. admin_headers sample_env (\<lambda>v. []) lab base b = Inr (b', h) \<and> bench_sessions b' = bench_sessions b"
  by (simp add: admin_headers_def lab_reply_def lab_post_def admin_data_def reply_json_def login_values_text py_item_def
      lift_cycle_def raise_for_status_def json_reply_def case_prod_beta Let_def del: lift_cycle_Inr raise_for_status_Inr)

lemma lab_user:
  "\<exists>b' i. admin_user sample_env (\<lambda>v. []) lab c base realm b = Inr (b', i) \<and> bench_sessions b' = bench_sessions b"
proof -
  obtain b1 h where "admin_headers sample_env (\<lambda>v. []) lab base b = Inr (b1, h)" "bench_sessions b1 = bench_sessions b"
    using lab_headers by blast
  then show ?thesis
    by (auto simp: admin_user_def lab_reply_def reply_json_def login_values_text py_item_def py_first_def lift_cycle_def
        split: option.splits simp del: lift_cycle_Inr)
qed

lemma ready_logout:
  assumes "ready c"
  shows "\<exists>b'. admin_logout sample_env (\<lambda>v. []) lab c b = Inr b' \<and> bench_sessions b' = bench_sessions b"
proof -
  from assms obtain base realm where r: "before (U ''/realms/'') (cond_issuer c) = Some base"
    "after (U ''/realms/'') (cond_issuer c) = Some realm" by (auto simp: ready_def with_realm_def)
  obtain b1 i where u: "admin_user sample_env (\<lambda>v. []) lab c base realm b = Inr (b1, i)" "bench_sessions b1 = bench_sessions b"
    using lab_user by blast
  obtain b2 h where h: "admin_headers sample_env (\<lambda>v. []) lab base b1 = Inr (b2, h)" "bench_sessions b2 = bench_sessions b1"
    using lab_headers by blast
  show ?thesis
    by (simp add: admin_logout_def r u h lift_cycle_def raise_for_status_def lab_reply_def json_reply_def
        del: lift_cycle_Inr raise_for_status_Inr)
qed

section \<open>Rounds\<close>

text \<open>Every condition of a list has its session.\<close>

definition sessions_ready :: "condition list \<Rightarrow> unit bench \<Rightarrow> bool" where
  "sessions_ready cs b \<longleftrightarrow> (\<forall>c \<in> set cs. map_of (bench_sessions b) (cond_name c) = Some (lab_session (cond_details c)))"

lemma sessions_ready_cong: "bench_sessions b' = bench_sessions b \<Longrightarrow> sessions_ready cs b' = sessions_ready cs b"
  by (simp add: sessions_ready_def)

lemma store_ready:
  assumes "sessions_ready cs b" "inj_on cond_name (insert c (set cs))"
  shows "sessions_ready (c # cs) (store_session c st (lab_session (cond_details c)) b)"
  using assms by (auto simp: sessions_ready_def store_session_def map_of_update inj_on_def)

lemma lab_names: "inj_on cond_name (set lab_conditions)"
  using seeded_distinct by (simp add: lab_conditions_def distinct_map)

lemma restore_ready:
  assumes "sessions_ready lab_conditions b" "c \<in> set lab_conditions"
  shows "sessions_ready lab_conditions (store_session c st (lab_session (cond_details c)) b)"
proof -
  have "inj_on cond_name (insert c (set lab_conditions))" using lab_names assms(2) by (simp add: insert_absorb)
  from store_ready [OF assms(1) this] show ?thesis by (simp add: sessions_ready_def)
qed

lemma lab_sso:
  assumes "sessions_ready lab_conditions b" "c \<in> set lab_conditions"
  shows "\<exists>b'. sso_cycle sample_env (\<lambda>s. s) lab cfg c b = Inr b' \<and> sessions_ready lab_conditions b'"
proof -
  have s: "session_of c b = Inr (lab_session (cond_details c))" using assms by (simp add: session_of_def sessions_ready_def)
  from ready_authorize [OF lab_ready [OF assms(2)], of cfg "bench_runner b" "lab_session (cond_details c)" False] obtain st' where
    "condition_authorize sample_env (\<lambda>s. s) lab cfg c (bench_runner b) (lab_session (cond_details c)) False =
       Inr (st', lab_session (cond_details c), \<lparr>result_text = lab_page (cond_details c), result_forms = []\<rparr>)"
    by auto
  then show ?thesis using restore_ready [OF assms] by (simp add: sso_cycle_def s)
qed

lemma lab_refresh:
  assumes "sessions_ready lab_conditions b" "c \<in> set lab_conditions"
  shows "\<exists>b'. refresh_cycle sample_env (\<lambda>s. s) lab c b = Inr b' \<and> sessions_ready lab_conditions b'"
proof -
  have s: "session_of c b = Inr (lab_session (cond_details c))" using assms by (simp add: session_of_def sessions_ready_def)
  have r: "lab_reply t (Post u []) = (t, json_reply (lab_page (t \<noteq> [])))" for t u
    by (simp add: lab_reply_def lab_post_def)
  show ?thesis using restore_ready [OF assms] lab_refreshed [of "cond_details c"]
    by (simp add: refresh_cycle_def s r lift_cycle_def lift_drive_def lift_run_def del: lift_cycle_Inr)
qed

lemma lab_login:
  assumes "sessions_ready lab_conditions b" "c \<in> set lab_conditions"
  shows "\<exists>b'. login_cycle sample_env (\<lambda>s. s) lab cfg c b = Inr b' \<and> sessions_ready lab_conditions b'"
  using assms(1)
  by (simp add: login_cycle_def ready_flow [OF lab_ready [OF assms(2)]] lift_cycle_def sessions_ready_def del: lift_cycle_Inr)

lemma lab_cycle:
  assumes "sessions_ready lab_conditions b" "c \<in> set lab_conditions" "kind \<in> set KINDS"
  shows "\<exists>b'. cycle_of sample_env (\<lambda>s. s) lab cfg kind c b = Inr b' \<and> sessions_ready lab_conditions b'"
  using assms(3) lab_sso [OF assms(1,2)] lab_refresh [OF assms(1,2)] lab_login [OF assms(1,2)]
  by (auto simp: cycle_of_def KINDS_def)

lemma lab_after:
  assumes "sessions_ready lab_conditions b" "c \<in> set lab_conditions"
  shows "\<exists>b'. logout_after_login sample_env (\<lambda>v. []) lab kind c b = Inr b' \<and> sessions_ready lab_conditions b'"
proof (cases "kind = U ''login''")
  case True
  from ready_logout [OF lab_ready [OF assms(2)]] obtain b' where
    "admin_logout sample_env (\<lambda>v. []) lab c b = Inr b'" "bench_sessions b' = bench_sessions b" by blast
  with True assms(1) show ?thesis by (simp add: logout_after_login_def sessions_ready_def)
qed (use assms(1) in \<open>simp add: logout_after_login_def\<close>)

lemma lab_metrics:
  assumes "sessions_ready lab_conditions b" "c \<in> set lab_conditions"
  shows "\<exists>b'. server_seconds pf lab c b = Inr (b', 0) \<and> sessions_ready lab_conditions b'"
proof -
  have m: "lab_reply [] (Get (cond_metrics c) []) = ([], json_reply [])"
    using ready_other [of "cond_metrics c" "[]" "[]"] lab_ready [OF assms(2)] by (simp add: ready_def)
  have "re_findall sample_cd SERVER_TIME [] = []"
    by (simp add: re_findall_def find_from.simps)
  then show ?thesis using assms(1)
    by (simp add: server_seconds_def m lift_cycle_def sessions_ready_def del: lift_cycle_Inr)
qed

definition slots_ready :: "(ustr \<times> condition) list \<Rightarrow> bool" where
  "slots_ready slots \<longleftrightarrow> (\<forall>(kind, c) \<in> set slots. kind \<in> set KINDS \<and> c \<in> set lab_conditions)"

lemma lab_run_cycles:
  "slots_ready slots \<Longrightarrow> sessions_ready lab_conditions b \<Longrightarrow>
     \<exists>b'. run_cycles sample_env (\<lambda>s. s) (\<lambda>v. []) lab cfg slots b = Inr b' \<and> sessions_ready lab_conditions b'"
proof (induction slots arbitrary: b)
  case (Cons x slots)
  obtain kind c where x: "x = (kind, c)" by (cases x)
  with Cons.prems have c: "c \<in> set lab_conditions" "kind \<in> set KINDS" "slots_ready slots" by (auto simp: slots_ready_def)
  obtain b1 where b1: "cycle_of sample_env (\<lambda>s. s) lab cfg kind c b = Inr b1" "sessions_ready lab_conditions b1"
    using lab_cycle [OF Cons.prems(2) c(1,2)] by blast
  obtain b2 where b2: "logout_after_login sample_env (\<lambda>v. []) lab kind c b1 = Inr b2" "sessions_ready lab_conditions b2"
    using lab_after [OF b1(2) c(1)] by blast
  show ?case using Cons.IH [OF c(3) b2(2)] by (simp add: x execute_def b1(1) b2(1))
qed simp

lemma lab_warm_up:
  assumes "\<And>i. slots_ready (order i slots)" "sessions_ready lab_conditions b"
  shows "\<exists>b'. warm_up n sample_env (\<lambda>s. s) (\<lambda>v. []) lab cfg order slots b = Inr b' \<and> sessions_ready lab_conditions b'"
proof (induction n)
  case (Suc n)
  then obtain b1 where "warm_up n sample_env (\<lambda>s. s) (\<lambda>v. []) lab cfg order slots b = Inr b1" "sessions_ready lab_conditions b1" by blast
  with lab_run_cycles [OF assms(1)] show ?case by simp
qed (use assms(2) in simp)

lemma lab_measured_cycle:
  assumes "sessions_ready lab_conditions b" "c \<in> set lab_conditions" "kind \<in> set KINDS"
  shows "\<exists>b'. measured_cycle sample_env (\<lambda>s. s) (\<lambda>v. []) pf (\<lambda>n. (n, 0)) lab cfg kind c b = Inr (b', 0, 0)
     \<and> sessions_ready lab_conditions b'"
proof -
  obtain b1 where b1: "server_seconds pf lab c b = Inr (b1, 0)" "sessions_ready lab_conditions b1"
    using lab_metrics [OF assms(1,2)] by blast
  have p: "read_perf (\<lambda>n. ((), 0)) b' = (b', 0)" for b' :: "unit bench" by (simp add: read_perf_def)
  obtain b3 where b3: "cycle_of sample_env (\<lambda>s. s) lab cfg kind c b1 = Inr b3" "sessions_ready lab_conditions b3"
    using lab_cycle [OF b1(2) assms(2,3)] by blast
  obtain b5 where b5: "server_seconds pf lab c b3 = Inr (b5, 0)" "sessions_ready lab_conditions b5"
    using lab_metrics [OF b3(2) assms(2)] by blast
  obtain b6 where b6: "logout_after_login sample_env (\<lambda>v. []) lab kind c b5 = Inr b6" "sessions_ready lab_conditions b6"
    using lab_after [OF b5(2) assms(2)] by blast
  show ?thesis by (simp add: measured_cycle_def b1(1) p b3(1) b5(1) b6)
qed

lemma lab_slots:
  "slots_ready slots \<Longrightarrow> sessions_ready lab_conditions b \<Longrightarrow> run_round r pos (\<lambda>r p. (0, 0)) slots run = Inr run' \<Longrightarrow>
     \<exists>b'. measured_slots sample_env (\<lambda>s. s) (\<lambda>v. []) pf (\<lambda>n. (n, 0)) lab cfg r pos slots (b, run) = Inr (b', run')
       \<and> sessions_ready lab_conditions b'"
proof (induction slots arbitrary: b pos run)
  case (Cons x slots)
  obtain kind c where x: "x = (kind, c)" by (cases x)
  with Cons.prems(1) have c: "c \<in> set lab_conditions" "kind \<in> set KINDS" "slots_ready slots" by (auto simp: slots_ready_def)
  from lab_measured_cycle [OF Cons.prems(2) c(1,2)] obtain b1 where
    b1: "measured_cycle sample_env (\<lambda>s. s) (\<lambda>v. []) pf (\<lambda>n. (n, 0)) lab cfg kind c b = Inr (b1, 0, 0)"
    "sessions_ready lab_conditions b1" by blast
  from Cons.prems(3) obtain run1 where r: "add_sample kind (cond_name c)
      \<lparr>sample_round = r, sample_position = pos, client_ms = py_round 0 4, server_ms = py_round 0 4\<rparr> run = Inr run1"
    "run_round r (Suc pos) (\<lambda>r p. (0, 0)) slots run1 = Inr run'"
    by (auto simp: x rbind_eq_Inr)
  have "lift_bench (add_sample kind (cond_name c)
      \<lparr>sample_round = r, sample_position = pos, client_ms = py_round 0 4, server_ms = py_round 0 4\<rparr> run) = Inr run1"
    using r(1) by simp
  with Cons.IH [OF c(3) b1(2) r(2)] b1(1) show ?case by (simp add: x del: lift_bench_Inr)
qed simp

lemma lab_rounds:
  assumes "\<And>i. slots_ready (order i slots)" "sessions_ready lab_conditions b"
    and "run_rounds n order (\<lambda>r p. (0, 0)) slots run = Inr run'"
  shows "\<exists>b'. measured_rounds n sample_env (\<lambda>s. s) (\<lambda>v. []) pf (\<lambda>n. (n, 0)) lab cfg order slots (b, run) = Inr (b', run')
    \<and> sessions_ready lab_conditions b'"
  using assms(3)
proof (induction n arbitrary: run')
  case (Suc n)
  then obtain run1 where r: "run_rounds n order (\<lambda>r p. (0, 0)) slots run = Inr run1"
    "run_round n 0 (\<lambda>r p. (0, 0)) (order n slots) run1 = Inr run'" by (auto simp: rbind_eq_Inr)
  from Suc.IH [OF r(1)] obtain b1 where
    "measured_rounds n sample_env (\<lambda>s. s) (\<lambda>v. []) pf (\<lambda>n. (n, 0)) lab cfg order slots (b, run) = Inr (b1, run1)"
    "sessions_ready lab_conditions b1" by blast
  with lab_slots [OF assms(1) _ r(2)] show ?case by simp
qed (use assms(2) in simp)

section \<open>The sessions and sizes\<close>

lemma lab_sizes:
  assumes "ready c"
  shows "\<exists>t. sizes_of sample_env (\<lambda>s. s) c \<lparr>result_text = lab_page (cond_details c), result_forms = fs\<rparr> n = Inr t"
proof -
  have b: "\<exists>n. compact_bytes sample_env (lab_token d) = Inr n" "\<exists>n. details_bytes sample_env (lab_token d) = Inr n" for d
    by (simp_all add: lab_token_def pwd_token_def compact_bytes_def details_bytes_def dumps_compact_def lift_cycle_def lift_size_def
        py_in_def py_item_def del: lift_cycle_Inr lift_size_Inr)
  obtain p where p: "compact_bytes sample_env (lab_token (cond_details c)) = Inr p" using b(1) by blast
  obtain d where d: "details_bytes sample_env (lab_token (cond_details c)) = Inr d" using b(2) by blast
  obtain q where "request_bytes sample_env (cond_request c) = Inr q"
    using assms by (auto simp: ready_def encodable_def request_bytes_def dumps_compact_def simp del: fits.simps)
  then show ?thesis
    by (simp add: sizes_of_def lift_cycle_def lift_run_def lift_size_def p d del: lift_cycle_Inr lift_size_Inr)
qed

lemma lab_executions:
  "cond_request c = lab_request_claims \<Longrightarrow> cond_details c \<Longrightarrow>
     check_executions sample_env (\<lambda>s. s) c \<lparr>result_text = lab_page (cond_details c), result_forms = fs\<rparr> = Inr ()"
proof -
  obtain d where d: "detail_map pwd_token = Inr [(U ''pwd'', d)]" using pwd_token_map by blast
  have r: "requested lab_request_claims = Inr [JStr (U ''pwd'')]"
    by (simp add: requested_def lab_request_claims_def located_def spread_def item_at_def iterate_def Let_def)
  show "cond_request c = lab_request_claims \<Longrightarrow> cond_details c \<Longrightarrow> ?thesis"
    by (simp add: check_executions_def r lift_request_def hashable_def lift_cycle_def lift_run_def lab_token_def d
        del: lift_cycle_Inr lift_request_Inr)
qed

lemma lab_first_session:
  assumes "ready c" "full \<Longrightarrow> cond_request c = lab_request_claims \<and> cond_details c"
  shows "\<exists>st' r. first_session sample_env (\<lambda>s. s) lab cfg [] full c st = Inr (st', lab_session (cond_details c), r)
    \<and> result_text r = lab_page (cond_details c)"
proof (cases full)
  case True
  from ready_authorize [OF assms(1), of cfg st "[]" False] obtain st' where
    "condition_authorize sample_env (\<lambda>s. s) lab cfg c st [] False =
       Inr (st', lab_session (cond_details c), \<lparr>result_text = lab_page (cond_details c), result_forms = []\<rparr>)" by auto
  with lab_executions [of c "[]"] assms(2) True show ?thesis by (simp add: first_session_def)
next
  case False
  from ready_authorize [OF assms(1), of cfg st "[]" True] False show ?thesis by (auto simp: first_session_def)
qed

lemma lab_establish:
  assumes "\<forall>c \<in> set cs. ready c" "cs \<noteq> [] \<Longrightarrow> cond_request (last cs) = lab_request_claims \<and> cond_details (last cs)"
    and "distinct (map cond_name (ds @ cs))" "sessions_ready ds b"
  shows "\<exists>b' tables'. establish sample_env (\<lambda>s. s) content_size lab cfg [] cs (b, tables) = Inr (b', tables')
    \<and> sessions_ready (ds @ cs) b'"
  using assms
proof (induction cs arbitrary: ds b tables)
  case (Cons c cs)
  have c: "ready c" using Cons.prems(1) by simp
  have "cs = [] \<Longrightarrow> cond_request c = lab_request_claims \<and> cond_details c" using Cons.prems(2) by simp
  from lab_first_session [OF c this] obtain st' r where
    f: "first_session sample_env (\<lambda>s. s) lab cfg [] (cs = []) c (bench_runner b) = Inr (st', lab_session (cond_details c), r)"
    "result_text r = lab_page (cond_details c)" by blast
  obtain t where t: "sizes_of sample_env (\<lambda>s. s) c r (content_size (json_reply [])) = Inr t"
    using lab_sizes [OF c, of "result_forms r"] f(2) by (cases r) auto
  have g: "lab_reply [] (Get (cond_issuer c @ u) []) = ([], json_reply [])" for u
    using c by (simp add: ready_other ready_def with_realm_def)
  have d: "raise_for_status (json_reply []) = Inr ()" by (simp add: json_reply_def)
  let ?b = "store_session c st' (lab_session (cond_details c)) b"
  have "inj_on cond_name (insert c (set ds))" using Cons.prems(3) by (auto simp: distinct_map)
  from store_ready [OF Cons.prems(4) this] have "sessions_ready (ds @ [c]) ?b" by (auto simp: sessions_ready_def)
  moreover have "cs \<noteq> [] \<Longrightarrow> cond_request (last cs) = lab_request_claims \<and> cond_details (last cs)"
    using Cons.prems(2) by simp
  ultimately show ?case
    using Cons.IH [of "ds @ [c]" ?b "AList.update (cond_name c) t tables"] Cons.prems(1,3)
    by (auto simp: f(1) g t lift_cycle_def d simp del: lift_cycle_Inr raise_for_status_Inr)
qed simp

section \<open>A whole run\<close>

definition lab_start :: "unit runner" where
  "lab_start = matrix_runner ()"

lemma lab_run:
  assumes "order_ok order" "1 \<le> warmups" "2 \<le> samples"
  shows "\<exists>res. benchmark_main sample_env (\<lambda>s. s) (\<lambda>v. []) pf content_size (\<lambda>n. (n, 0)) lab cfg warmups samples
    lab_request_claims [] order st = Inr res"
proof -
  obtain slots where s: "balanced_slots (seeded lab_request_claims) = Inr slots" using seeded_slots by blast
  have "slots_ready slots"
    using balanced_slots_set [OF s] by (auto simp: slots_ready_def lab_conditions_def included_def)
  moreover have "set (order i slots) = set slots" for i using assms(1) unfolding order_ok_def by (metis set_mset_mset)
  ultimately have o: "slots_ready (order i slots)" for i by (simp add: slots_ready_def)
  let ?b0 = "\<lparr>bench_runner = st\<lparr>last_totp_counter := Some (- 1)\<rparr>, bench_sessions = [], admin_tokens = [], admin_users = []\<rparr>"
  have "cond_request (last lab_conditions) = lab_request_claims" "cond_details (last lab_conditions)"
    by (simp_all add: lab_conditions_def seeded_def CONDITIONS_def)
  with lab_establish [of lab_conditions "[]" ?b0 content_size cfg "[]"] lab_ready obtain b1 tables where
    e: "establish sample_env (\<lambda>s. s) content_size lab cfg [] lab_conditions (?b0, []) = Inr (b1, tables)"
    "sessions_ready lab_conditions b1"
    using seeded_distinct by (auto simp: lab_conditions_def sessions_ready_def)
  from lab_warm_up [where order = order and slots = slots, OF o e(2)] obtain b2 where
    w: "warm_up (nat warmups) sample_env (\<lambda>s. s) (\<lambda>v. []) lab cfg order slots b1 = Inr b2" "sessions_ready lab_conditions b2" by blast
  let ?order = "\<lambda>i. order (nat warmups + i)"
  have "order_ok ?order" using assms(1) by (simp add: order_ok_def)
  from benchmark_complete [OF this assms(2,3), of lab_request_claims "\<lambda>r p. (0, 0)"] s assms(2,3) obtain run where
    "run_rounds (nat samples) ?order (\<lambda>r p. (0, 0)) slots (empty_samples lab_conditions) = Inr run"
    by (auto simp: benchmark_samples_def lab_conditions_def)
  from lab_rounds [where order = ?order and slots = slots, OF o w(2) this] obtain b3 where
    "measured_rounds (nat samples) sample_env (\<lambda>s. s) (\<lambda>v. []) pf (\<lambda>n. (n, 0)) lab cfg ?order slots
       (b2, empty_samples lab_conditions) = Inr (b3, run)" by blast
  then show ?thesis
    using s e(1) w(1) assms(2,3) by (simp add: benchmark_main_def lab_conditions_def Let_def lift_bench_def del: lift_bench_Inr)
qed

end
