(* ===== verification/Benchmark_Analysis.thy ===== *)
theory Benchmark_Analysis
  imports Benchmark_Lab
begin

text \<open>
  The main program of the analysis (evaluation/benchmark/analyze.py): the summaries of the three kinds of cycle,
  with one generator, and the sizes of the runs in one table. The runs are the results of
  Benchmark_Main; reading them from their files, in order of their names, and printing the summary are
  left out.

  Proved: the analysis of finished runs either reports a size that should have been the same in all runs, and
  was not, or gives a complete summary with the range of the two sizes that may vary.
\<close>

section \<open>The table of sizes\<close>

text \<open>
  A size, or the two-element list of its least and greatest value; \<open>summary["sizes"]\<close> is the table of the
  first run itself, so the list replaces the size there.
\<close>

datatype size_entry = Fixed nat | Between nat nat

text \<open>\<open>IndexError\<close> or the exceptions of \<open>summarize_kind\<close>, \<open>KeyError\<close>, \<open>TypeError\<close>, and the message of the script.\<close>

datatype analysis_exc = FromStats stats_exc | NoSize | NotASize | SizesDiffer ustr ustr

definition lift_stats :: "stats_exc + 'a \<Rightarrow> analysis_exc + 'a" where
  "lift_stats r = (case r of Inl e \<Rightarrow> Inl (FromStats e) | Inr x \<Rightarrow> Inr x)"

definition VARIABLE :: "ustr list" where
  "VARIABLE = [U ''id_token_payload_bytes'', U ''userinfo_response_bytes'']"

definition run_size :: "ustr \<Rightarrow> ustr \<Rightarrow> bench_result \<Rightarrow> nat option" where
  "run_size name key run = Option.bind (map_of (result_sizes run) name) (\<lambda>t. map_of t key)"

definition size_of_run :: "ustr \<Rightarrow> ustr \<Rightarrow> bench_result \<Rightarrow> analysis_exc + nat" where
  "size_of_run name key run = (case run_size name key run of None \<Rightarrow> Inl NoSize | Some n \<Rightarrow> Inr n)"

text \<open>\<open>[run["sizes"][name][key] for run in runs]\<close>: the first run's table is the one that is changed.\<close>

definition size_values ::
  "ustr \<Rightarrow> ustr \<Rightarrow> (ustr, size_entry) dict \<Rightarrow> bench_result list \<Rightarrow> analysis_exc + nat list" where
  "size_values name key sizes others =
     (case map_of sizes key of
        None \<Rightarrow> Inl NoSize
      | Some (Between low high) \<Rightarrow> Inl NotASize
      | Some (Fixed n) \<Rightarrow> rbind (each (size_of_run name key) others) (\<lambda>values. Inr (n # values)))"

fun merge_keys ::
  "ustr \<Rightarrow> bench_result list \<Rightarrow> ustr list \<Rightarrow> (ustr, size_entry) dict \<Rightarrow> analysis_exc + (ustr, size_entry) dict" where
  "merge_keys name others [] sizes = Inr sizes"
| "merge_keys name others (key # keys) sizes =
     rbind (size_values name key sizes others) (\<lambda>values.
       if key \<in> set VARIABLE then
         merge_keys name others keys (AList.update key (Between (Min (set values)) (Max (set values))) sizes)
       else if card (set values) \<noteq> 1 then Inl (SizesDiffer name key)
       else merge_keys name others keys sizes)"

fun merge_names ::
  "bench_result list \<Rightarrow> (ustr, (ustr, size_entry) dict) dict \<Rightarrow> analysis_exc + (ustr, (ustr, size_entry) dict) dict" where
  "merge_names others [] = Inr []"
| "merge_names others ((name, sizes) # tables) =
     rbind (merge_keys name others (map fst sizes) sizes) (\<lambda>sizes'.
     rbind (merge_names others tables) (\<lambda>tables'. Inr ((name, sizes') # tables')))"

definition fixed_sizes :: "(ustr, nat) dict \<Rightarrow> (ustr, size_entry) dict" where
  "fixed_sizes = map (\<lambda>(key, n). (key, Fixed n))"

section \<open>The program\<close>

fun kind_summaries ::
  "ustr list \<Rightarrow> 'r rng \<Rightarrow> 'r \<Rightarrow> run_samples list \<Rightarrow> stats_exc + ('r \<times> (ustr, kind_summary) dict)" where
  "kind_summaries [] rng r runs = Inr (r, [])"
| "kind_summaries (kind # kinds) rng r runs =
     rbind (summarize_kind rng r runs kind) (\<lambda>(r1, s).
     rbind (kind_summaries kinds rng r1 runs) (\<lambda>(r2, ss). Inr (r2, (kind, s) # ss)))"

record summary =
  summary_runs :: nat
  rounds_per_run :: "nat list"
  summary_sizes :: "(ustr, (ustr, size_entry) dict) dict"
  summary_kinds :: "(ustr, kind_summary) dict"

definition analyze :: "'r rng \<Rightarrow> 'r \<Rightarrow> bench_result list \<Rightarrow> analysis_exc + summary" where
  "analyze rng r runs =
     (case runs of
        [] \<Rightarrow> Inl (FromStats NoIndex)
      | first_run # others \<Rightarrow>
          rbind (lift_stats (kind_summaries KINDS rng r (map result_samples runs))) (\<lambda>(r', kinds).
          rbind (merge_names others (map (\<lambda>(name, sizes). (name, fixed_sizes sizes)) (result_sizes first_run))) (\<lambda>tables.
            Inr \<lparr>summary_runs = length runs, rounds_per_run = map result_rounds runs, summary_sizes = tables,
                 summary_kinds = kinds\<rparr>)))"

section \<open>What the table holds\<close>

text \<open>The sizes of one name and key in all runs.\<close>

definition sizes_in :: "bench_result list \<Rightarrow> ustr \<Rightarrow> ustr \<Rightarrow> nat set" where
  "sizes_in runs name key = {n. \<exists>run \<in> set runs. run_size name key run = Some n}"

definition steady :: "bench_result list \<Rightarrow> ustr \<Rightarrow> ustr \<Rightarrow> bool" where
  "steady runs name key \<longleftrightarrow> card (sizes_in runs name key) = 1"

definition merged_entry :: "bench_result list \<Rightarrow> ustr \<Rightarrow> ustr \<Rightarrow> size_entry" where
  "merged_entry runs name key =
     (if key \<in> set VARIABLE then Between (Min (sizes_in runs name key)) (Max (sizes_in runs name key))
      else Fixed (the_elem (sizes_in runs name key)))"

text \<open>Every run has every size under every name.\<close>

definition tabled :: "bench_result \<Rightarrow> bool" where
  "tabled run \<longleftrightarrow> map fst (result_sizes run) = CHAIN \<and> (\<forall>(name, t) \<in> set (result_sizes run). map fst t = SIZE_NAMES)"

lemma size_names_distinct: "distinct SIZE_NAMES" "distinct CHAIN"
  by (simp_all add: SIZE_NAMES_def CHAIN_def)

lemma tabled_size:
  assumes "tabled run" "name \<in> set CHAIN" "key \<in> set SIZE_NAMES"
  shows "\<exists>n. run_size name key run = Some n"
proof -
  have "map_of (result_sizes run) name \<noteq> None" using assms(1,2) unfolding tabled_def by (metis list.set_map map_of_eq_None_iff)
  then obtain t where t: "map_of (result_sizes run) name = Some t" by blast
  then have "map fst t = SIZE_NAMES" using assms(1) map_of_SomeD [OF t] by (auto simp: tabled_def)
  then have "map_of t key \<noteq> None" using assms(3) by (metis list.set_map map_of_eq_None_iff)
  with t show ?thesis by (auto simp: run_size_def)
qed

lemma each_size_of_run:
  assumes "\<forall>run \<in> set runs. tabled run" "name \<in> set CHAIN" "key \<in> set SIZE_NAMES"
  shows "\<exists>ns. each (size_of_run name key) runs = Inr ns \<and> set ns = sizes_in runs name key"
  using assms(1)
proof (induction runs)
  case (Cons run runs)
  then obtain ns where ns: "each (size_of_run name key) runs = Inr ns" "set ns = sizes_in runs name key" by auto
  obtain n where n: "run_size name key run = Some n" using tabled_size [OF _ assms(2,3)] Cons.prems by auto
  have "set (n # ns) = sizes_in (run # runs) name key" using ns(2) n by (auto simp: sizes_in_def)
  moreover have "size_of_run name key run = Inr n" by (simp add: size_of_run_def n)
  ultimately show ?case using ns(1) by simp
qed (simp add: sizes_in_def)

lemma merge_keys_tables:
  assumes "\<forall>run \<in> set (first_run # others). tabled run" "name \<in> set CHAIN" "set keys \<subseteq> set SIZE_NAMES" "distinct keys"
    and "\<forall>key \<in> set keys. \<exists>n. run_size name key first_run = Some n \<and> map_of sizes key = Some (Fixed n)"
  shows "case merge_keys name others keys sizes of
      Inl e \<Rightarrow> \<exists>key \<in> set keys. e = SizesDiffer name key \<and> key \<notin> set VARIABLE \<and> \<not> steady (first_run # others) name key
    | Inr t \<Rightarrow> (\<forall>key \<in> set keys. key \<notin> set VARIABLE \<longrightarrow> steady (first_run # others) name key)
        \<and> map fst t = map fst sizes
        \<and> (\<forall>key. map_of t key = (if key \<in> set keys then Some (merged_entry (first_run # others) name key) else map_of sizes key))"
  using assms(3-5)
proof (induction keys arbitrary: sizes)
  case (Cons key keys)
  let ?S = "sizes_in (first_run # others) name key"
  obtain n where n: "run_size name key first_run = Some n" "map_of sizes key = Some (Fixed n)" using Cons.prems(3) by auto
  obtain ns where ns: "each (size_of_run name key) others = Inr ns" "set ns = sizes_in others name key"
    using each_size_of_run [of others name key] assms(1,2) Cons.prems(1) by auto
  have S: "insert n (set ns) = ?S" using n(1) ns(2) by (auto simp: sizes_in_def)
  have v: "size_values name key sizes others = Inr (n # ns)" by (simp add: size_values_def n(2) ns(1))
  have k: "key \<notin> set keys" "distinct keys" "set keys \<subseteq> set SIZE_NAMES" using Cons.prems by auto
  have keep: "map fst (AList.update key e sizes) = map fst sizes" for e
  proof -
    have "key \<in> fst ` set sizes" using n(2) by (metis map_of_eq_None_iff option.distinct(1))
    then show ?thesis by (induction sizes) auto
  qed
  show ?case
  proof (cases "key \<in> set VARIABLE")
    case True
    let ?sizes = "AList.update key (Between (Min ?S) (Max ?S)) sizes"
    have "\<forall>k' \<in> set keys. \<exists>n. run_size name k' first_run = Some n \<and> map_of ?sizes k' = Some (Fixed n)"
      using Cons.prems(3) k(1) by (auto simp: map_of_update)
    from Cons.IH [OF k(3,2) this] True keep k(1) show ?thesis
      by (auto simp: v S map_of_update merged_entry_def split: sum.splits)
  next
    case False
    show ?thesis
    proof (cases "steady (first_run # others) name key")
      case True
      then obtain m where "?S = {m}" by (auto simp: steady_def card_1_singleton_iff)
      then have m: "?S = {n}" using S by auto
      then have c: "card (insert n (set ns)) = 1" unfolding S by simp
      have e: "merged_entry (first_run # others) name key = Fixed n" using False m by (simp add: merged_entry_def)
      have f: "\<forall>k' \<in> set keys. \<exists>n. run_size name k' first_run = Some n \<and> map_of sizes k' = Some (Fixed n)"
        using Cons.prems(3) by simp
      have "merge_keys name others (key # keys) sizes = merge_keys name others keys sizes"
        using False c by (simp add: v)
      then show ?thesis
        using Cons.IH [OF k(3,2) f] True k(1) n(2) e by (auto split: sum.splits)
    next
      case unsteady: False
      then have "card ?S \<noteq> 1" by (simp add: steady_def)
      then show ?thesis using False unsteady by (simp add: v S)
    qed
  qed
qed simp

lemma fixed_sizes_simps: "map fst (fixed_sizes t) = map fst t" "map_of (fixed_sizes t) key = map_option Fixed (map_of t key)"
  unfolding fixed_sizes_def by (induction t) auto

lemma merge_names_tables:
  assumes "\<forall>run \<in> set (first_run # others). tabled run" "set tables \<subseteq> set (result_sizes first_run)" "dict_ok (result_sizes first_run)"
  shows "case merge_names others (map (\<lambda>(name, t). (name, fixed_sizes t)) tables) of
      Inl e \<Rightarrow> \<exists>name \<in> fst ` set tables. \<exists>key \<in> set SIZE_NAMES. e = SizesDiffer name key \<and> key \<notin> set VARIABLE
        \<and> \<not> steady (first_run # others) name key
    | Inr ts \<Rightarrow> (\<forall>name \<in> fst ` set tables. \<forall>key \<in> set SIZE_NAMES. key \<notin> set VARIABLE \<longrightarrow> steady (first_run # others) name key)
        \<and> map fst ts = map fst tables
        \<and> (\<forall>(name, t) \<in> set ts. map fst t = SIZE_NAMES
            \<and> (\<forall>key \<in> set SIZE_NAMES. map_of t key = Some (merged_entry (first_run # others) name key)))"
  using assms(2)
proof (induction tables)
  case (Cons x tables)
  obtain name t where x: "x = (name, t)" by (cases x)
  with Cons.prems have xt: "(name, t) \<in> set (result_sizes first_run)" by simp
  have m: "map_of (result_sizes first_run) name = Some t" using assms(3) xt by (simp add: dict_ok_def)
  have "map fst (result_sizes first_run) = CHAIN" using assms(1) by (simp add: tabled_def)
  then have "set CHAIN = fst ` set (result_sizes first_run)" by (metis list.set_map)
  then have nt: "name \<in> set CHAIN" "map fst t = SIZE_NAMES" using assms(1) xt by (force simp: tabled_def)+
  have f: "\<forall>key \<in> set SIZE_NAMES. \<exists>n. run_size name key first_run = Some n \<and> map_of (fixed_sizes t) key = Some (Fixed n)"
  proof
    fix key assume "key \<in> set SIZE_NAMES"
    then have "map_of t key \<noteq> None" using nt(2) by (metis list.set_map map_of_eq_None_iff)
    then show "\<exists>n. run_size name key first_run = Some n \<and> map_of (fixed_sizes t) key = Some (Fixed n)"
      by (auto simp: run_size_def m fixed_sizes_simps)
  qed
  note k = merge_keys_tables [OF assms(1) nt(1) subset_refl size_names_distinct(1) f]
  have ih: "set tables \<subseteq> set (result_sizes first_run)" using Cons.prems by simp
  show ?case
  proof (cases "merge_keys name others SIZE_NAMES (fixed_sizes t)")
    case (Inl e)
    then show ?thesis using k by (auto simp: x nt(2) fixed_sizes_simps)
  next
    case (Inr t')
    then show ?thesis using k Cons.IH [OF ih]
      by (auto simp: x nt(2) fixed_sizes_simps split: sum.splits)
  qed
qed simp

section \<open>Finished runs\<close>

definition chain_of :: "ustr \<Rightarrow> ustr list" where
  "chain_of kind = (if kind = U ''login'' then butlast CHAIN else CHAIN)"

lemma zip_tables:
  assumes "length names = length ts"
  shows "map fst (zip names ts) = names" "(n, t) \<in> set (zip names ts) \<Longrightarrow> t \<in> set ts"
  using assms set_zip_rightD by (simp, fastforce)

lemma finished_run:
  assumes "benchmark_main env unescape str_of parse_float content_size perf nw cfg warmups samples request_claims cookies order st = Inr res"
    and "order_ok order"
  shows "tabled res" "2 \<le> nat samples" "\<forall>kind \<in> set KINDS. complete_run (nat samples) kind (chain_of kind) (result_samples res)"
proof -
  from benchmark_main_Inr [OF assms(1)] obtain timing ts where b:
    "benchmark_samples warmups samples request_claims (\<lambda>i. order (nat warmups + i)) timing = Inr (result_samples res)"
    "result_sizes res = zip (map cond_name (seeded request_claims)) ts" "list_all2 (sizes_ok env) (seeded request_claims) ts" by blast
  have o: "order_ok (\<lambda>i. order (nat warmups + i))" using assms(2) by (simp add: order_ok_def)
  have s: "U ''sso'' \<in> set KINDS" by (simp add: KINDS_def)
  show "2 \<le> nat samples" using benchmark_run_complete(2) [OF o b(1) s] .
  show "\<forall>kind \<in> set KINDS. complete_run (nat samples) kind (chain_of kind) (result_samples res)"
    using benchmark_run_complete(1) [OF o b(1)] by (simp add: chain_of_def)
  have c: "map cond_name (seeded request_claims) = CHAIN" by (simp add: seeded_def CONDITIONS_def CHAIN_def)
  have "length CHAIN = length ts" using list_all2_lengthD [OF b(3)] c by (metis length_map)
  note z = zip_tables [OF this]
  have "\<forall>t \<in> set ts. map fst t = SIZE_NAMES"
    using b(3) by (auto simp: list_all2_conv_all_nth in_set_conv_nth sizes_ok_def)
  then show "tabled res" using z by (auto simp: tabled_def b(2) c)
qed

lemma kind_summaries_ok:
  assumes "rng_ok rng" "runs \<noteq> []" "2 \<le> n" "\<forall>kind \<in> set kinds. \<forall>run \<in> set runs. complete_run n kind (chain_of kind) run"
  shows "\<exists>r' ss. kind_summaries kinds rng r runs = Inr (r', ss) \<and> map fst ss = kinds
    \<and> (\<forall>(kind, s) \<in> set ss. map fst (summary_conditions s) = chain_of kind)"
  using assms(4)
proof (induction kinds arbitrary: r)
  case (Cons kind kinds)
  have "\<forall>run \<in> set runs. complete_run n kind (chain_of kind) run" using Cons.prems by simp
  from summarize_kind_ok [OF assms(1,2) this assms(3), of r] obtain r1 s where
    s: "summarize_kind rng r runs kind = Inr (r1, s)" "map fst (summary_conditions s) = filter (\<lambda>name. name \<in> set (chain_of kind)) CHAIN"
    by blast
  have "filter (\<lambda>name. name \<in> set (chain_of kind)) CHAIN = chain_of kind" by (simp add: CHAIN_def chain_of_def)
  with s Cons.IH [of r1] Cons.prems show ?case by auto
qed simp

section \<open>Properties\<close>

text \<open>C37: the timing benchmark takes its samples as its schedule says. Whatever the servers, the clocks, the
  seed session and the order of the slots: a finished benchmark has exactly the samples of
  \<open>benchmark_samples\<close>, the schedule without servers, for some timings, with the orders after those of the
  warm-up rounds; and a size table for every condition, in order, in which the details are part of the
  payload that carries them and the length of the query is that of its request, quoted.\<close>

theorem benchmark_main_refines:
  assumes "benchmark_main env unescape str_of parse_float content_size perf nw cfg warmups samples request_claims cookies order st = Inr res"
  shows "(\<exists>timing. benchmark_samples warmups samples request_claims (\<lambda>i. order (nat warmups + i)) timing = Inr (result_samples res))
    \<and> result_rounds res = nat samples
    \<and> (\<exists>ts. result_sizes res = zip (map cond_name (seeded request_claims)) ts
         \<and> list_all2 (sizes_ok env) (seeded request_claims) ts)"
  using benchmark_main_Inr [OF assms] by blast

theorem benchmark_main_refines_witness:
  "\<exists>res timing. benchmark_main sample_env (\<lambda>s. s) (\<lambda>v. []) (\<lambda>s. None) (\<lambda>r. 0) (\<lambda>n. (n, 0)) lab sample_credentials 1 2
       lab_request_claims [] (\<lambda>r slots. slots) lab_start = Inr res
    \<and> benchmark_samples 1 2 lab_request_claims (\<lambda>r slots. slots) timing = Inr (result_samples res)"
proof -
  have "order_ok (\<lambda>r slots. slots)" by (simp add: order_ok_def)
  from lab_run [OF this, of 1 2] obtain res where
    r: "benchmark_main sample_env (\<lambda>s. s) (\<lambda>v. []) (\<lambda>s. None) (\<lambda>r. 0) (\<lambda>n. (n, 0)) lab sample_credentials 1 2
       lab_request_claims [] (\<lambda>r slots. slots) lab_start = Inr res" by fastforce
  from benchmark_main_refines [OF r] r show ?thesis by blast
qed

text \<open>C36: what the benchmark writes, the analysis can read. For any finished benchmarks with the same numbers of rounds,
  in any order of their slots and with any servers, and any generator: the analysis never fails for missing
  samples or sizes. Either it names a size, other than those of payloads, that is not the same in all the runs, or there is
  none, and it summarizes every kind of cycle over its whole chain of conditions and gives every size: the common
  value, or for the sizes of payloads the least and the greatest.\<close>

theorem benchmark_analyzed:
  fixes nw :: "bench_result \<Rightarrow> 'n network"
  assumes "rng_ok rng" "runs \<noteq> []"
    and "\<And>run. run \<in> set runs \<Longrightarrow> order_ok (order run) \<and> benchmark_main (env run) (unescape run) (str_of run) (parse_float run)
      (content_size run) (perf run) (nw run) (cfg run) warmups samples (request_claims run) (cookies run) (order run) (st run) = Inr run"
  shows "case analyze rng r runs of
      Inl e \<Rightarrow> \<exists>name \<in> set CHAIN. \<exists>key \<in> set SIZE_NAMES. e = SizesDiffer name key \<and> key \<notin> set VARIABLE \<and> \<not> steady runs name key
    | Inr s \<Rightarrow> (\<forall>name \<in> set CHAIN. \<forall>key \<in> set SIZE_NAMES. key \<notin> set VARIABLE \<longrightarrow> steady runs name key)
        \<and> summary_runs s = length runs \<and> rounds_per_run s = map result_rounds runs
        \<and> map fst (summary_kinds s) = KINDS
        \<and> (\<forall>(kind, k) \<in> set (summary_kinds s). map fst (summary_conditions k) = chain_of kind)
        \<and> map fst (summary_sizes s) = CHAIN
        \<and> (\<forall>(name, t) \<in> set (summary_sizes s). map fst t = SIZE_NAMES
             \<and> (\<forall>key \<in> set SIZE_NAMES. map_of t key = Some (merged_entry runs name key)))"
proof -
  obtain first_run others where runs: "runs = first_run # others" using assms(2) by (cases runs) auto
  have f: "tabled run" "2 \<le> nat samples" "\<forall>kind \<in> set KINDS. complete_run (nat samples) kind (chain_of kind) (result_samples run)"
    if "run \<in> set runs" for run using finished_run assms(3) [OF that] by metis+
  have c: "\<forall>kind \<in> set KINDS. \<forall>run \<in> set (map result_samples runs). complete_run (nat samples) kind (chain_of kind) run"
    using f(3) by auto
  have "map result_samples runs \<noteq> []" "2 \<le> nat samples" using f(2) runs by auto
  from kind_summaries_ok [OF assms(1) this c, of r] obtain r' ss where k:
    "kind_summaries KINDS rng r (map result_samples runs) = Inr (r', ss)" "map fst ss = KINDS"
    "\<forall>(kind, s) \<in> set ss. map fst (summary_conditions s) = chain_of kind" by blast
  have t: "\<forall>run \<in> set (first_run # others). tabled run" using f(1) runs by simp
  then have s: "map fst (result_sizes first_run) = CHAIN" "dict_ok (result_sizes first_run)"
    using size_names_distinct(2) by (simp_all add: tabled_def dict_ok_def)
  then have n: "fst ` set (result_sizes first_run) = set CHAIN" by (metis list.set_map)
  note m = merge_names_tables [OF t subset_refl s(2)]
  let ?merged = "merge_names others (map (\<lambda>(name, t). (name, fixed_sizes t)) (result_sizes first_run))"
  have a: "analyze rng r runs = rbind ?merged (\<lambda>tables.
      Inr \<lparr>summary_runs = length runs, rounds_per_run = map result_rounds runs, summary_sizes = tables, summary_kinds = ss\<rparr>)"
    using k(1) unfolding runs by (simp add: analyze_def lift_stats_def)
  show ?thesis
  proof (cases ?merged)
    case (Inl e)
    then show ?thesis unfolding a using m [folded runs] by (simp add: n)
  next
    case (Inr tables)
    then show ?thesis unfolding a using m [folded runs] k(2,3) s(1) by (simp add: n)
  qed
qed

theorem benchmark_analyzed_witness:
  "\<exists>run s. benchmark_main sample_env (\<lambda>s. s) (\<lambda>v. []) (\<lambda>s. None) (\<lambda>r. 0) (\<lambda>n. (n, 0)) lab sample_credentials 1 2
       lab_request_claims [] (\<lambda>r slots. slots) lab_start = Inr run
    \<and> analyze sample_rng 0 [run, run] = Inr s \<and> map fst (summary_kinds s) = KINDS"
proof -
  have o: "order_ok (\<lambda>r slots. slots)" by (simp add: order_ok_def)
  from lab_run [OF o, of 1 2] obtain run where
    r: "benchmark_main sample_env (\<lambda>s. s) (\<lambda>v. []) (\<lambda>s. None) (\<lambda>r. 0) (\<lambda>n. (n, 0)) lab sample_credentials 1 2
       lab_request_claims [] (\<lambda>r slots. slots) lab_start = Inr run" by fastforce
  have g: "rng_ok sample_rng" by (simp add: rng_ok_def sample_rng_def)
  have "steady [run, run] name key" if "name \<in> set CHAIN" "key \<in> set SIZE_NAMES" for name key
  proof -
    obtain n where "run_size name key run = Some n" using tabled_size [OF finished_run(1) [OF r o] \<open>name \<in> set CHAIN\<close> \<open>key \<in> set SIZE_NAMES\<close>] by blast
    then have "sizes_in [run, run] name key = {n}" by (auto simp: sizes_in_def)
    then show ?thesis by (simp add: steady_def)
  qed
  moreover have h: "order_ok (\<lambda>r slots. slots) \<and> benchmark_main sample_env (\<lambda>s. s) (\<lambda>v. []) (\<lambda>s. None) (\<lambda>r. 0) (\<lambda>n. (n, 0))
      lab sample_credentials 1 2 lab_request_claims [] (\<lambda>r slots. slots) lab_start = Inr run'" if "run' \<in> set [run, run]" for run'
    using that r o by simp
  moreover have "case analyze sample_rng 0 [run, run] of
      Inl e \<Rightarrow> \<exists>name \<in> set CHAIN. \<exists>key \<in> set SIZE_NAMES. \<not> steady [run, run] name key
    | Inr s \<Rightarrow> map fst (summary_kinds s) = KINDS"
    using benchmark_analyzed [where runs = "[run, run]" and order = "\<lambda>_ r slots. slots" and env = "\<lambda>_. sample_env"
      and unescape = "\<lambda>_ s. s" and str_of = "\<lambda>_ v. []" and parse_float = "\<lambda>_ s. None" and content_size = "\<lambda>_ r. 0"
      and perf = "\<lambda>_ n. (n, 0)" and nw = "\<lambda>_. lab" and cfg = "\<lambda>_. sample_credentials" and warmups = 1 and samples = 2
      and request_claims = "\<lambda>_. lab_request_claims" and cookies = "\<lambda>_. []" and st = "\<lambda>_. lab_start" and r = 0, OF g _ h]
    by (auto split: sum.splits)
  ultimately show ?thesis using r by (auto split: sum.splits)
qed

end
