(* ===== verification/Benchmark_Fixtures.thy ===== *)
theory Benchmark_Fixtures
  imports Py_Json_Text
begin

text \<open>
  The realm fixtures of the benchmark (evaluation/benchmark/make-fixtures.py): \<open>execution\<close>, the
  browser flows, \<open>plain\<close>, \<open>without_ids\<close> and the two documents of \<open>main\<close>. Reading and writing files is left out.

  Proved: what the two fixtures change of the laboratory's realm, and that the second one has no
  identifiers left.
\<close>

section \<open>The browser flow of the fixtures\<close>

definition put :: "ustr \<Rightarrow> json \<Rightarrow> (ustr, json) dict \<Rightarrow> (ustr, json) dict" where
  "put k v d = AList.update k v d"

text \<open>\<open>execution\<close>; an alias that is not given, or empty, makes a step with an authenticator.\<close>

definition execution :: "int \<Rightarrow> ustr option \<Rightarrow> ustr option \<Rightarrow> ustr \<Rightarrow> json" where
  "execution priority authenticator flow requirement =
     (let step = [(U ''authenticatorFlow'', JBool (flow \<noteq> None)), (U ''requirement'', JStr requirement),
                  (U ''priority'', JInt priority), (U ''userSetupAllowed'', JBool False)];
          as_json = (\<lambda>t. case t of None \<Rightarrow> JNull | Some s \<Rightarrow> JStr s) in
      JObj (if flow \<noteq> None \<and> flow \<noteq> Some [] then put (U ''flowAlias'') (as_json flow) step
            else put (U ''authenticator'') (as_json authenticator) step))"

definition BROWSER_FLOWS :: json where
  "BROWSER_FLOWS = JArr
    [JObj [(U ''alias'', JStr (U ''benchmark browser'')),
       (U ''description'', JStr (U ''Laboratory browser flow without the OIDC4AC planner.'')),
       (U ''providerId'', JStr (U ''basic-flow'')), (U ''topLevel'', JBool True), (U ''builtIn'', JBool False),
       (U ''authenticationExecutions'', JArr
          [execution 10 (Some (U ''auth-cookie'')) None (U ''ALTERNATIVE''),
           execution 20 None (Some (U ''benchmark browser forms'')) (U ''ALTERNATIVE'')])],
     JObj [(U ''alias'', JStr (U ''benchmark browser forms'')),
       (U ''description'', JStr (U ''Username form followed by a password form.'')),
       (U ''providerId'', JStr (U ''basic-flow'')), (U ''topLevel'', JBool False), (U ''builtIn'', JBool False),
       (U ''authenticationExecutions'', JArr
          [execution 10 (Some (U ''auth-username-form'')) None (U ''REQUIRED''),
           execution 20 (Some (U ''auth-password-form'')) None (U ''REQUIRED'')])]]"

definition BENCHMARK_REDIRECTS :: "json list" where
  "BENCHMARK_REDIRECTS = map (\<lambda>port. JStr (U ''http://localhost:'' @ port @ U ''/*'')) [U ''5005'', U ''5006'', U ''5007'']"

section \<open>The plain fixture\<close>

datatype fixture_exc = FixtureAttribute | FixtureType | FixtureKey

text \<open>\<open>result.get("attributes", {}).items()\<close> without the members of the provider.\<close>

definition plain_attributes :: "(ustr, json) dict \<Rightarrow> fixture_exc + (ustr, json) dict" where
  "plain_attributes realm =
     (case map_of realm (U ''attributes'') of
        None \<Rightarrow> Inr []
      | Some (JObj as) \<Rightarrow> Inr (filter (\<lambda>(k, v). \<not> startswith k (U ''oidc4ac.'')) as)
      | Some _ \<Rightarrow> Inl FixtureAttribute)"

definition plain_client :: "json \<Rightarrow> fixture_exc + json" where
  "plain_client client =
     (case client of
        JObj c \<Rightarrow>
          (case map_of c (U ''clientId'') of
             None \<Rightarrow> Inl FixtureKey
           | Some i \<Rightarrow>
               if i = JStr (U ''oidc4ac-test-client'') then
                 (case map_of c (U ''redirectUris'') of
                    None \<Rightarrow> Inr (JObj (put (U ''redirectUris'') (JArr BENCHMARK_REDIRECTS) c))
                  | Some (JArr us) \<Rightarrow> Inr (JObj (put (U ''redirectUris'') (JArr (us @ BENCHMARK_REDIRECTS)) c))
                  | Some _ \<Rightarrow> Inl FixtureType)
               else Inr client)
      | _ \<Rightarrow> Inl FixtureType)"

fun plain_clients :: "json list \<Rightarrow> fixture_exc + json list" where
  "plain_clients [] = Inr []"
| "plain_clients (c # cs) = rbind (plain_client c) (\<lambda>c'. rbind (plain_clients cs) (\<lambda>cs'. Inr (c' # cs')))"

text \<open>The loop over the clients; an empty text or object has none.\<close>

definition with_clients :: "(ustr, json) dict \<Rightarrow> fixture_exc + (ustr, json) dict" where
  "with_clients result =
     (case map_of result (U ''clients'') of
        None \<Rightarrow> Inr result
      | Some (JArr cs) \<Rightarrow> rbind (plain_clients cs) (\<lambda>cs'. Inr (put (U ''clients'') (JArr cs') result))
      | Some (JObj []) \<Rightarrow> Inr result
      | Some (JStr []) \<Rightarrow> Inr result
      | Some _ \<Rightarrow> Inl FixtureType)"

definition plain :: "(ustr, json) dict \<Rightarrow> fixture_exc + (ustr, json) dict" where
  "plain realm =
     rbind (plain_attributes realm) (\<lambda>attributes.
       with_clients (put (U ''attributes'') (JObj attributes)
         (put (U ''browserFlow'') (JStr (U ''benchmark browser''))
         (put (U ''authenticationFlows'') BROWSER_FLOWS
         (AList.delete (U ''authenticatorConfig'') realm)))))"

section \<open>The fixture for a shared server\<close>

fun without_ids :: "json \<Rightarrow> json" where
  "without_ids (JObj ms) = JObj (map (\<lambda>(k, v). (k, without_ids v)) (filter (\<lambda>(k, v). k \<noteq> U ''id'') ms))"
| "without_ids (JArr vs) = JArr (map without_ids vs)"
| "without_ids v = v"

text \<open>The two documents that \<open>main\<close> writes; \<open>realm_disabled["attributes"]\<close> is the object \<open>plain\<close> has put there.\<close>

definition fixtures :: "(ustr, json) dict \<Rightarrow> fixture_exc + (json \<times> json)" where
  "fixtures realm =
     rbind (plain realm) (\<lambda>p.
       case without_ids (JObj p) of
         JObj d \<Rightarrow>
           (let d1 = put (U ''realm'') (JStr (U ''oidc4ac-off'')) d in
            case map_of d1 (U ''attributes'') of
              None \<Rightarrow> Inl FixtureKey
            | Some (JObj as) \<Rightarrow> Inr (JObj p,
                JObj (put (U ''attributes'') (JObj (put (U ''oidc4ac.enabled'') (JStr (U ''false'')) as)) d1))
            | Some _ \<Rightarrow> Inl FixtureType)
       | _ \<Rightarrow> Inl FixtureType)"

section \<open>No identifiers left\<close>

fun no_ids :: "json \<Rightarrow> bool" where
  "no_ids (JObj ms) = (\<forall>kv \<in> set ms. fst kv \<noteq> U ''id'' \<and> no_ids (snd kv))"
| "no_ids (JArr vs) = (\<forall>v \<in> set vs. no_ids v)"
| "no_ids v = True"

lemma without_ids_none: "no_ids (without_ids v)"
  by (induction v rule: without_ids.induct) auto

lemma without_ids_id: "no_ids v \<Longrightarrow> without_ids v = v"
proof (induction v rule: without_ids.induct)
  case (1 ms)
  then have "filter (\<lambda>(k, v). k \<noteq> U ''id'') ms = ms" "\<forall>kv \<in> set ms. without_ids (snd kv) = snd kv"
    by (auto intro!: filter_True)
  then show ?case by (simp add: case_prod_beta map_idI)
qed (auto intro: map_idI)

lemma set_put: "kv \<in> set (put k v d) \<Longrightarrow> kv = (k, v) \<or> kv \<in> set d"
  unfolding put_def by (induction d) (auto split: if_splits)

lemma no_ids_put: "no_ids (JObj d) \<Longrightarrow> no_ids v \<Longrightarrow> k \<noteq> U ''id'' \<Longrightarrow> no_ids (JObj (put k v d))"
  by (fastforce dest: set_put)

lemma map_of_put [simp]: "map_of (put k v d) i = (if i = k then Some v else map_of d i)"
  by (simp add: put_def map_of_update)

lemma map_of_without:
  "without_ids (JObj ms) = JObj d \<Longrightarrow> map_of d k = (if k = U ''id'' then None else map_option without_ids (map_of ms k))"
proof (induction ms arbitrary: d)
  case (Cons x ms)
  obtain a b where x: "x = (a, b)" by (cases x)
  obtain d' where d': "without_ids (JObj ms) = JObj d'" by simp
  from Cons.IH [OF d'] Cons.prems d' x show ?case by auto
qed simp

lemma map_of_keep: "map_of (filter (\<lambda>(k, v). P k) d) i = (if P i then map_of d i else None)"
  by (induction d) auto

section \<open>What the fixtures change\<close>

definition fixture_members :: "ustr set" where
  "fixture_members = {U ''authenticatorConfig'', U ''authenticationFlows'', U ''browserFlow'', U ''attributes'', U ''clients''}"

lemma plain_members:
  assumes "plain realm = Inr p"
  shows "map_of p (U ''browserFlow'') = Some (JStr (U ''benchmark browser''))"
    "map_of p (U ''authenticationFlows'') = Some BROWSER_FLOWS" "map_of p (U ''authenticatorConfig'') = None"
    "k \<notin> fixture_members \<Longrightarrow> map_of p k = map_of realm k"
    "\<exists>as. map_of p (U ''attributes'') = Some (JObj as) \<and> plain_attributes realm = Inr as"
proof -
  from assms obtain as q where a: "plain_attributes realm = Inr as" "with_clients q = Inr p"
    "q = put (U ''attributes'') (JObj as) (put (U ''browserFlow'') (JStr (U ''benchmark browser''))
         (put (U ''authenticationFlows'') BROWSER_FLOWS (AList.delete (U ''authenticatorConfig'') realm)))"
    by (auto simp: plain_def rbind_eq_Inr)
  have c: "map_of p k = map_of q k" if "k \<noteq> U ''clients''" for k
    using a(2) that by (auto simp: with_clients_def rbind_eq_Inr split: option.splits json.splits list.splits)
  have q: "map_of q k = (if k = U ''attributes'' then Some (JObj as)
      else if k = U ''browserFlow'' then Some (JStr (U ''benchmark browser''))
      else if k = U ''authenticationFlows'' then Some BROWSER_FLOWS
      else if k = U ''authenticatorConfig'' then None else map_of realm k)" for k
    unfolding a(3) by (simp only: map_of_put map_of_delete fun_upd_apply)
  show "map_of p (U ''browserFlow'') = Some (JStr (U ''benchmark browser''))"
    "map_of p (U ''authenticationFlows'') = Some BROWSER_FLOWS" "map_of p (U ''authenticatorConfig'') = None"
    by (simp_all add: c q)
  show "\<exists>as. map_of p (U ''attributes'') = Some (JObj as) \<and> plain_attributes realm = Inr as"
    using a(1) by (simp add: c q)
  assume "k \<notin> fixture_members"
  then show "map_of p k = map_of realm k" by (simp add: fixture_members_def c q)
qed

lemma plain_attributes_keys: "plain_attributes realm = Inr as \<Longrightarrow> map_of as k = Some v \<Longrightarrow> \<not> startswith k (U ''oidc4ac.'')"
  by (auto simp: plain_attributes_def map_of_keep split: option.splits json.splits if_splits)

lemma fixtures_Inr:
  assumes "fixtures realm = Inr (JObj p, disabled)"
  shows "\<exists>e as. plain realm = Inr p \<and> without_ids (JObj p) = JObj e \<and> map_of e (U ''attributes'') = Some (JObj as)
    \<and> disabled = JObj (put (U ''attributes'') (JObj (put (U ''oidc4ac.enabled'') (JStr (U ''false'')) as))
        (put (U ''realm'') (JStr (U ''oidc4ac-off'')) e))"
proof -
  from assms obtain q where q: "plain realm = Inr q" by (auto simp: fixtures_def rbind_eq_Inr simp del: without_ids.simps)
  obtain e where e: "without_ids (JObj q) = JObj e" by simp
  have a: "map_of (put (U ''realm'') (JStr (U ''oidc4ac-off'')) e) (U ''attributes'') = map_of e (U ''attributes'')" by simp
  show ?thesis
  proof (cases "map_of e (U ''attributes'')")
    case None
    then show ?thesis using assms by (simp add: fixtures_def q e Let_def del: without_ids.simps)
  next
    case (Some v)
    then show ?thesis using assms e by (cases v) (auto simp: fixtures_def q e Let_def simp del: without_ids.simps)
  qed
qed

section \<open>Properties\<close>

text \<open>The two fixtures are the laboratory's realm with the stated changes. When the script
  succeeds, the plain fixture agrees with the realm in every member but five, has the benchmark's flows
  and browser flow, no authenticator configuration and no attribute of the provider; the second
  fixture has no \<open>id\<close> member at any depth, the other name, and \<open>oidc4ac.enabled = "false"\<close> as its only
  attribute of the provider; and in every other member it is the plain fixture without identifiers.\<close>

theorem fixtures_derived:
  assumes "fixtures realm = Inr (JObj p, disabled)"
  shows "(\<forall>k. k \<notin> fixture_members \<longrightarrow> map_of p k = map_of realm k)
    \<and> map_of p (U ''browserFlow'') = Some (JStr (U ''benchmark browser''))
    \<and> map_of p (U ''authenticationFlows'') = Some BROWSER_FLOWS \<and> map_of p (U ''authenticatorConfig'') = None
    \<and> (\<exists>as. map_of p (U ''attributes'') = Some (JObj as) \<and> (\<forall>k v. map_of as k = Some v \<longrightarrow> \<not> startswith k (U ''oidc4ac.'')))
    \<and> (\<exists>d as. disabled = JObj d \<and> no_ids disabled \<and> map_of d (U ''realm'') = Some (JStr (U ''oidc4ac-off''))
        \<and> map_of d (U ''attributes'') = Some (JObj as) \<and> map_of as (U ''oidc4ac.enabled'') = Some (JStr (U ''false''))
        \<and> (\<forall>k v. map_of as k = Some v \<longrightarrow> startswith k (U ''oidc4ac.'') \<longrightarrow> k = U ''oidc4ac.enabled'')
        \<and> (\<forall>k. k \<noteq> U ''realm'' \<longrightarrow> k \<noteq> U ''attributes'' \<longrightarrow> k \<noteq> U ''id'' \<longrightarrow> map_of d k = map_option without_ids (map_of p k)))"
proof -
  from fixtures_Inr [OF assms] obtain e as1 where f: "plain realm = Inr p" "without_ids (JObj p) = JObj e"
    "map_of e (U ''attributes'') = Some (JObj as1)"
    "disabled = JObj (put (U ''attributes'') (JObj (put (U ''oidc4ac.enabled'') (JStr (U ''false'')) as1))
       (put (U ''realm'') (JStr (U ''oidc4ac-off'')) e))" by blast
  note m = plain_members [OF f(1)]
  from m(5) obtain as where as: "map_of p (U ''attributes'') = Some (JObj as)" "plain_attributes realm = Inr as" by blast
  have plain_as: "\<forall>k v. map_of as k = Some v \<longrightarrow> \<not> startswith k (U ''oidc4ac.'')"
    using plain_attributes_keys [OF as(2)] by blast
  have w: "without_ids (JObj as) = JObj as1" using map_of_without [OF f(2), of "U ''attributes''"] as(1) f(3) by simp
  have own: "\<forall>k v. map_of as1 k = Some v \<longrightarrow> \<not> startswith k (U ''oidc4ac.'')"
    using map_of_without [OF w] plain_as by (auto split: if_splits)
  have e: "no_ids (JObj e)" "no_ids (JObj as1)" using without_ids_none f(2) w by metis+
  let ?as = "put (U ''oidc4ac.enabled'') (JStr (U ''false'')) as1"
  let ?d = "put (U ''attributes'') (JObj ?as) (put (U ''realm'') (JStr (U ''oidc4ac-off'')) e)"
  have n: "no_ids disabled" unfolding f(4) by (intro no_ids_put e) simp_all
  have members: "map_of ?d (U ''realm'') = Some (JStr (U ''oidc4ac-off''))" "map_of ?d (U ''attributes'') = Some (JObj ?as)"
    "map_of ?as (U ''oidc4ac.enabled'') = Some (JStr (U ''false''))" by (simp_all only: map_of_put) simp_all
  have enabled: "\<forall>k v. map_of ?as k = Some v \<longrightarrow> startswith k (U ''oidc4ac.'') \<longrightarrow> k = U ''oidc4ac.enabled''"
    using own by (auto split: if_splits)
  have rest: "\<forall>k. k \<noteq> U ''realm'' \<longrightarrow> k \<noteq> U ''attributes'' \<longrightarrow> k \<noteq> U ''id'' \<longrightarrow> map_of ?d k = map_option without_ids (map_of p k)"
    using map_of_without [OF f(2)] by simp
  have others: "\<forall>k. k \<notin> fixture_members \<longrightarrow> map_of p k = map_of realm k" using m(4) by blast
  show ?thesis
    by (intro conjI exI [of _ as] exI [of _ ?d] exI [of _ ?as]) (fact others m(1) m(2) m(3) as(1) plain_as f(4) n members enabled rest)+
qed

definition sample_realm :: "(ustr, json) dict" where
  "sample_realm = [(U ''id'', JStr (U ''x'')), (U ''realm'', JStr (U ''oidc4ac'')),
     (U ''attributes'', JObj [(U ''oidc4ac.enabled'', JStr (U ''true'')), (U ''a'', JStr (U ''b''))]),
     (U ''clients'', JArr [JObj [(U ''clientId'', JStr (U ''oidc4ac-test-client''))]])]"

lemma sample_fixtures: "\<exists>p d. fixtures sample_realm = Inr (JObj p, d)"
  by (simp add: fixtures_def plain_def plain_attributes_def with_clients_def plain_client_def sample_realm_def
      put_def Let_def U_def)

theorem fixtures_derived_witness:
  "\<exists>p d. fixtures sample_realm = Inr (JObj p, d) \<and> no_ids d \<and> map_of p (U ''authenticationFlows'') = Some BROWSER_FLOWS"
proof -
  obtain p d where f: "fixtures sample_realm = Inr (JObj p, d)" using sample_fixtures by blast
  from fixtures_derived [OF f] show ?thesis using f by blast
qed

end
