(* ===== verification/Spec2Isabelle.thy ===== *)
theory Spec2Isabelle
  imports Client_Theorems Client_Spec Client_Threads_Store Client_Settings Result_Pages Feature_Disabled E2E_Suite
    Benchmark_Analysis Benchmark_Fixtures
begin

text \<open>
  The OIDC4AC test client and its end-to-end tooling (Python), modelled and verified.

  THE PROGRAM. test-client/app.py is an OpenID Connect relying party written with Flask and
  Authlib. Its workbench takes a Claim Request Object as text (\<open>/\<close>, \<open>/preview\<close>), starts a login
  with it (\<open>/login\<close>), verifies the authorization response (\<open>/callback\<close>), repeats the check with a
  refresh token (\<open>/refresh\<close>) and shows the result. Requests in flight live in \<open>AUTHORIZATION_CACHE\<close>,
  results that may be refreshed in \<open>TOKEN_CACHE\<close>; both expire after fifteen minutes. It also serves
  TOTP codes of the lab user (\<open>/otp\<close>, \<open>/otp-code\<close>) and the issuer's metadata (\<open>/discovery\<close>).
  e2e/http/run.py drives this client and the login pages of the issuer over HTTP and checks what
  the result page shows; e2e/browser/run.py does so in a browser. The compatibility matrix
  (evaluation/compatibility/oidc4ac-compatibility-matrix.py) runs five combinations of old and new
  parties on top of the HTTP runner, tests/feature-disabled.py checks a server without the feature, and
  evaluation/benchmark measures the flows (timing-benchmark.py), summarizes them (analyze.py) and
  derives the realms it needs (make-fixtures.py).

  HOW THE MODEL IS MADE. Every function is a HOL function of the same name (\<open>amr_method\<close>
  for \<open>method\<close> and \<open>endpoint_discovery\<close> for the matrix script's \<open>discovery\<close>). Texts are lists of
  code points (\<open>ustr\<close>), Python dicts are association lists in insertion order (\<open>dict\<close>), exceptions are
  the left side of a sum, times are rationals, Python integers are \<open>int\<close>, the bytes and registers of
  SHA-1 and HMAC are words. The state of the client is the record \<open>client_state\<close> (the two
  caches); each handler takes it and returns it with its response. What is outside the
  repository is an argument: Authlib, the clock, the random source and the issuer are the record
  \<open>world\<close> of Client_App; servers, HTML tokenizer, clocks and Unicode database of the runner are the record \<open>network\<close> of
  E2E_Network (what a request answers, a followed redirect included, is the network's); \<open>html.escape\<close> and \<open>html.unescape\<close> are arguments where they are used.

  THE THEORIES.
  Py_Prelude: texts, dicts, Python string operations, the result monad \<open>rbind\<close>.
  Py_Codec: UTF-8 and URL-safe Base64 and their round trips (locale \<open>codec\<close>, interpreted there and
  for JSON in Py_Json_Loads).
  Py_Json, Py_Json_Props, Py_Json_Roundtrip, Py_Json_Loads, Py_Json_Text: the standard library's
  \<open>json.loads\<close> and \<open>json.dumps\<close>: the scanner with its error positions and limits, the three output
  styles of the program, what the scanner returns, that every printed value scans back, which
  characters a printed value has. The locale \<open>string_escape\<close> is the contract of the two escaping
  functions.
  Py_Hmac: SHA-1 and HMAC, executable; HMAC's lemmas are proved in the locale \<open>hash_function\<close>.
  Client_Claims: limits, \<open>DEFAULT_CLAIMS\<close>, \<open>pretty_json\<close>, \<open>decoded_access_token\<close>, \<open>parse_claims\<close>.
  Discovery: \<open>discovery_metadata\<close>, \<open>builder_discovery_metadata\<close>.
  Cache_Store: the contract of an expiring cache (locale \<open>cache_store\<close>) and the dict that provides it.
  Client_App: the records and every handler with its guards and early returns in the order of
  the code, \<open>serve\<close>, which dispatches one request, and the inductive \<open>run\<close>, a sequence of requests
  with arbitrary worlds, arguments and sessions.
  Client_App_Props: what one request does to the caches; the case lemmas of \<open>callback\<close> and \<open>refresh\<close>.
  Client_Theorems: invariants of runs and the outcome of every handler.
  Client_Spec: the abstract machine of authorization contexts (opened, redeemed at most once,
  forgotten) and the refinement of it by \<open>serve\<close>.
  Client_Threads: the handlers under concurrent requests: a request is cut at its lock sections, its
  calls to the issuer and the unlocked accesses of \<open>refresh\<close>; token entries are objects in a store, as
  \<open>refresh\<close> keeps a reference to one; \<open>interleaved\<close> lets any thread take the next step.
  Client_Threads_Store: the invariant of that store: its references, its types and the origin of its claims.
  Totp, Otp_Pages: the TOTP functions of the client and of both runners; Base32 and the \<open>/otp\<close> pages.
  Client_Settings: the module constants read from the environment, the Flask and Authlib settings.
  E2E_Results: \<open>AuthorizationResult\<close>, the request builders, \<open>detail_map\<close>, \<open>detail_list\<close> and
  \<open>assert_complete_event\<close> of e2e/http/run.py.
  Py_Regex: the patterns of the standard library's \<open>re\<close> the runner uses, as an executable matcher.
  E2E_Network: the form parser, the session, requests, and the record \<open>network\<close>.
  E2E_Mail: the mailbox, the code in a message, and the wait of \<open>smtp_verification_code\<close>.
  E2E_Driver: the transition loop of \<open>authorize\<close>, with TOTP and with e-mail codes.
  E2E_Direct: \<open>direct_authorization\<close>, \<open>decode_unverified_jwt_payload\<close>, \<open>admin_token\<close>.
  E2E_Scenarios: the scenarios of e2e/http/run.py (its \<open>test_*\<close> functions) with their requests. E2E_Suite:
  \<open>wait_for_lab\<close>, the cases, \<open>main\<close>, and the table \<open>PLANS\<close> of the logins with their outcomes. E2E_Lab: servers
  and pages for which flows run to their end, the instance of the witnesses here and in Benchmark_Lab.
  Result_Pages: base.html, result.html and error.html, read by the runner's regular expressions.
  Compat_Matrix: the compatibility matrix and its change of the realm's browser flow.
  Feature_Disabled: the check of a server without the feature.
  Benchmark_Schedule, Benchmark_Cycles, Benchmark_Main: timing-benchmark.py: slots and rounds without
  servers, the cycles and the administration helper, and \<open>main\<close> with its sessions, clocks, size tables and
  samples. Benchmark_Requests: the requests of browser_flow.py. Benchmark_Lab: servers for which a whole
  benchmark runs to its end, the instance of the witnesses.
  Benchmark_Stats, Benchmark_Analysis: the statistics and \<open>main\<close> of analyze.py.
  Benchmark_Fixtures: make-fixtures.py.
  This theory: the property that spans the runner and the client.

  WHAT THE LEMMAS SHOW. Safety of the authorization code flow over whole runs (a result belongs to
  an accepted login, its nonce and its claims; a context is used at most once; tabs do not
  disturb each other; a login waits for its callback), the first two also under every interleaving of
  concurrent requests, where the shared store keeps its type and its claims come from logins, and that a
  request served alone does what the sequential handlers say; the outcome of every handler on every
  branch, the exact input language of \<open>parse_claims\<close> and its messages, that an accepted object
  survives both of its texts, that no bearer token is shown, that the TOTP code on the page, in JSON and in
  the runners is the same and a runner never reuses one, that a successful flow of the runner
  was a proper conversation, that the wait for an e-mail code ends and finds a new message, that a direct
  authorization never uses its result, that the runner asserts on exactly what the client verified, and
  what a passing compatibility run, feature check or end-to-end suite has seen. Of the benchmark: the schedule is balanced,
  a finished benchmark has exactly the samples of the schedule and consistent size tables, the results of
  finished benchmarks can always be analyzed, the worst-case request asks for everything the issuer advertises,
  administration requests carry tokens their server has issued (or, on a machine that has just started, an empty one), the statistics stay within the data, and
  what the fixtures change.

  BOUNDS AND FUEL. The JSON scanner runs with fuel \<open>2 * length + 2\<close>, which \<open>loads_not_fuel\<close> in
  Py_Json_Loads shows to be enough for any text; the depth limits of the scanner and of the two encoders are fields of
  \<open>py_env\<close> and integers have at most 4300 digits, as in CPython. The driver's fuel 16 is the
  code's own \<open>range(16)\<close>: running out is the code's last \<open>raise\<close>; so is that of \<open>direct_turns\<close>. The wait for an
  e-mail code has fuel \<open>\<lceil>TIMEOUT\<rceil> + 1\<close>, enough on any clock that does not go back and sleeps as long
  as asked (\<open>clock_ok\<close>): \<open>mail_wait_ends\<close> shows that \<open>OutOfTurns\<close> never happens then; \<open>wait_for_lab\<close> has the same fuel and its
  \<open>lab_wait_ends\<close>. The requests of the scenarios nest at most 10 deep, the limit \<open>suite_establishes\<close> asks of the
  client. The bootstrap has the code's
  10,000 rounds (\<open>BOOTSTRAP\<close>); its theorems hold for any number. A request takes at most seven atomic steps. \<open>parse_claims\<close> takes at most 64,000
  bytes and cached entries live 900 seconds. The assumptions on library code are named:
  \<open>float_env\<close> (parsing a float's own text gives that text) and \<open>escaping_ok\<close> (an
  escaped text has no \<open><\<close>, unescaping restores it), both shown to hold of a concrete function.

  NOT MODELLED. A hold of \<open>CACHE_LOCK\<close> is one step (how the lock is built is not modelled), and the
  whole-run theorems about expiry are sequential. Flask's routing, cookies and signing, Authlib's
  protocol checks and Jinja's escaping are arguments or left out, as are the floats of the benchmark, which
  are rationals. Of the HTTP suite, three of 37 scenarios are left out: two restore a realm or client setting in
  a \<open>finally\<close> block, after an exception that keeps no state in this model, and one runs two flows in threads;
  \<open>CASES\<close> takes them as an argument. What the runners print is left out. The browser scenarios, the
  Playwright part of browser_flow.py, message-sizes.py and seed-session.py are straight-line scripts against a live
  browser. The other templates are not logic; the Java providers and the deployment scripts are not Python.
\<close>

section \<open>From the runner's form to the client\<close>

text \<open>The form fields that \<open>requests\<close> sends for a dict: members whose value is \<open>None\<close> are left out.\<close>

definition posted :: "(ustr, ustr option) dict \<Rightarrow> (ustr, ustr) dict" where
  "posted data = List.map_filter (\<lambda>(k, v). map_option (Pair k) v) data"

lemma claims_json_ok:
  assumes "6 \<le> d" "str_ok i" "\<forall>p. properties = Some p \<longrightarrow> json_ok env (d - 3) (JObj p)"
    "\<forall>n. age = Some n \<longrightarrow> length (dec (nat \<bar>n\<bar>)) \<le> max_int_digits"
  shows "json_ok env d (JObj (claims (amr_method i properties age) idt ui ess))"
proof -
  have four: "d - Suc (Suc (Suc (Suc 0))) = d - 4" by simp
  show ?thesis
    using assms
    by (auto simp: four claims_def amr_method_def spread_def Let_def dict_ok_def str_ok_def U_def no_pair.simps
        is_high_def is_low_def split: option.splits)
qed

section \<open>Properties\<close>

text \<open>C26: the request the HTTP runner builds is the one the client sends on. For every
  request expression of \<open>amr_method\<close> (\<open>method\<close> in the code) and \<open>claims\<close> and every option of \<open>authorize\<close>, the form the runner
  posts is read by the client's \<open>login\<close> with the same options, and the login goes on with exactly
  that claims object (none where claims are omitted): the runner's JSON text is within the
  client's rules, as long as it is at most 64,000 characters long.\<close>

theorem runner_request_delivered:
  assumes "6 \<le> scan_depth env" "str_ok i"
    and "\<forall>p. properties = Some p \<longrightarrow> json_ok env (scan_depth env - 3) (JObj p)"
    and "\<forall>n. age = Some n \<longrightarrow> length (dec (nat \<bar>n\<bar>)) \<le> max_int_digits"
    and "req = claims (amr_method i properties age) idt ui ess"
    and "login_data env req prompt omit offline = Inr data"
    and "\<forall>t. map_of data (U ''claims_json'') = Some (Some t) \<longrightarrow> length t \<le> 64000"
  shows "field_on (posted data) ''prompt_login'' = prompt \<and> field_on (posted data) ''offline_access'' = offline
    \<and> field_on (posted data) ''omit_claims'' = omit
    \<and> login env cfg w (posted data) st = begin_authorization env cfg w (posted data) (if omit then [] else req) st"
proof -
  have ok: "json_ok env (scan_depth env) (JObj req)" unfolding assms(5) by (rule claims_json_ok [OF assms(1-4)])
  have fields: "field_on (posted data) ''prompt_login'' = prompt" "field_on (posted data) ''offline_access'' = offline"
      "field_on (posted data) ''omit_claims'' = omit"
    using assms(6) by (auto simp: login_data_def posted_def map_filter_def field_on_def Let_def U_def split: if_splits sum.splits)
  have "login env cfg w (posted data) st = begin_authorization env cfg w (posted data) (if omit then [] else req) st"
  proof (cases omit)
    case True
    then show ?thesis using fields(3) by (simp add: login_def Let_def)
  next
    case False
    let ?t = "dump default_style 0 (JObj req)"
    have d: "map_of data (U ''claims_json'') = Some (Some ?t)" "map_of (posted data) (U ''claims_json'') = Some ?t"
      using assms(6) False
      by (auto simp: login_data_def dumps_default_def posted_def map_filter_def Let_def U_def split: if_splits)
    from accepted_text [OF ok] d(1) assms(7) have "parse_claims env (Some ?t) = Inr req" by blast
    then show ?thesis
      using False d(2) fields(3) by (simp add: login_def Let_def)
  qed
  with fields show ?thesis by blast
qed

lemma sample_request:
  "\<exists>t. login_data sample_env (claims (amr_method (U ''pwd'') None None) True True True) True False False
     = Inr [(U ''prompt_login'', Some (U ''on'')), (U ''claims_json'', Some t)] \<and> length t \<le> 64000"
  by (simp add: login_data_def dumps_default_def claims_def amr_method_def spread_def Let_def default_style_def
      no_indent_def quoted_def U_def esc_ascii_def)

theorem runner_request_delivered_witness:
  "\<exists>data. login_data sample_env (claims (amr_method (U ''pwd'') None None) True True True) True False False = Inr data
     \<and> login sample_env sample_config sample_world (posted data) initial_state
       = begin_authorization sample_env sample_config sample_world (posted data)
           (claims (amr_method (U ''pwd'') None None) True True True) initial_state"
proof -
  obtain t where t: "login_data sample_env (claims (amr_method (U ''pwd'') None None) True True True) True False False
     = Inr [(U ''prompt_login'', Some (U ''on'')), (U ''claims_json'', Some t)]" "length t \<le> 64000"
    using sample_request by blast
  have p: "str_ok (U ''pwd'')" by (simp add: str_ok_def U_def no_pair.simps is_high_def is_low_def)
  show ?thesis
    using runner_request_delivered [OF _ p _ _ refl t(1), of sample_config sample_world initial_state] t
    by (auto simp: U_def)
qed

end
